(* ===== verification/Prelude.thy ===== *)
theory Prelude
  imports Main "HOL-Library.Word"
begin

text \<open>
  Shared ground of the development: the machine integers of the Rust source, byte strings and
  their big-endian encodings, the result type of fallible operations, the collections of facts
  the component theories feed, and the two interfaces (locales) every serializer of the program
  meets.

  Conventions.  \<open>u8\<close>, \<open>u16\<close>, \<open>u32\<close>, \<open>u64\<close> are words of that width; an \<open>i64\<close> is a
  64-bit word read by \<^const>\<open>sint\<close>.  Unchecked \<open>+\<close>, \<open>-\<close>, \<open>as\<close> wrap, as they do
  in a release build; the \<open>checked_\<close> family returns \<^const>\<open>None\<close>.  A function returning
  \<open>Result<T, E>\<close> has type \<open>'e + 'a\<close> with \<^const>\<open>Inl\<close> for \<open>Err\<close>; where the
  function can also panic (\<open>unwrap\<close>, \<open>expect\<close>, an index out of range, \<open>assert\<close>) the
  error side is \<open>'e fail\<close>, so a panic is a value of the model too.
\<close>

section \<open>Machine integers and bytes\<close>

type_synonym u8 = "8 word"
type_synonym u16 = "16 word"
type_synonym u32 = "32 word"
type_synonym u64 = "64 word"
type_synonym i64 = "64 word"
type_synonym bytes = "u8 list"

text \<open>Facts for the simplifier, by purpose: \<open>codec_simps\<close> evaluates a decoder on the output of
  its encoder; \<open>panic_simps\<close> propagates failures through \<open>and_then\<close>.\<close>

named_theorems codec_simps "decoding what an encoder produced"
named_theorems panic_simps "sequencing of fallible operations"

section \<open>Fallible operations\<close>

datatype 'e fail = Panic | Err (fail_err: 'e)

text \<open>Rust's \<open>?\<close>: stop at the first error, else go on with the value.\<close>

definition and_then :: "'e + 'a \<Rightarrow> ('a \<Rightarrow> 'e + 'b) \<Rightarrow> 'e + 'b" where
  "and_then m f = (case m of Inl e \<Rightarrow> Inl e | Inr x \<Rightarrow> f x)"

text \<open>\<open>Result::ok\<close>, \<open>Option::ok_or\<close>, \<open>Result::map_err\<close> and \<open>Option::unwrap\<close>/\<open>expect\<close>.\<close>

definition ok :: "'e + 'a \<Rightarrow> 'a option" where
  "ok m = (case m of Inl e \<Rightarrow> None | Inr x \<Rightarrow> Some x)"

definition ok_or :: "'a option \<Rightarrow> 'e \<Rightarrow> 'e + 'a" where
  "ok_or m e = (case m of None \<Rightarrow> Inl e | Some x \<Rightarrow> Inr x)"

definition map_err :: "('e \<Rightarrow> 'f) \<Rightarrow> 'e + 'a \<Rightarrow> 'f + 'a" where
  "map_err g m = (case m of Inl e \<Rightarrow> Inl (g e) | Inr x \<Rightarrow> Inr x)"

definition unwrap :: "'a option \<Rightarrow> 'e fail + 'a" where
  "unwrap m = (case m of None \<Rightarrow> Inl Panic | Some x \<Rightarrow> Inr x)"

text \<open>\<open>?\<close> on an \<open>Option\<close> inside code that can also fail.\<close>

definition and_then_some :: "'e + 'a option \<Rightarrow> ('a \<Rightarrow> 'e + 'b option) \<Rightarrow> 'e + 'b option" where
  "and_then_some m f = and_then m (\<lambda>r. case r of None \<Rightarrow> Inr None | Some x \<Rightarrow> f x)"

lemma and_then_simps [simp, panic_simps]:
  "and_then (Inl e) f = Inl e"
  "and_then (Inr x) f = f x"
  by (simp_all add: and_then_def)

lemma and_then_some_simps [simp, panic_simps]:
  "and_then_some (Inl e) f = Inl e"
  "and_then_some (Inr None) f = Inr None"
  "and_then_some (Inr (Some x)) f = f x"
  by (simp_all add: and_then_some_def)

lemma and_then_some_Some_iff:
  "and_then_some m f = Inr (Some y) \<longleftrightarrow> (\<exists>x. m = Inr (Some x) \<and> f x = Inr (Some y))"
  by (cases m) (auto simp: and_then_some_def split: option.splits)

lemma and_then_Inr_iff: "and_then m f = Inr y \<longleftrightarrow> (\<exists>x. m = Inr x \<and> f x = Inr y)"
  by (cases m) simp_all

lemma and_then_Inl_iff:
  "and_then m f = Inl e \<longleftrightarrow> m = Inl e \<or> (\<exists>x. m = Inr x \<and> f x = Inl e)"
  by (cases m) simp_all

lemma and_thenE:
  assumes "and_then m f = Inr y"
  obtains x where "m = Inr x" "f x = Inr y"
  using assms by (auto simp: and_then_Inr_iff)

lemma and_then_assoc: "and_then (and_then m f) g = and_then m (\<lambda>x. and_then (f x) g)"
  by (cases m) simp_all

lemma ok_simps [simp, panic_simps]: "ok (Inl e) = None" "ok (Inr x) = Some x"
  by (simp_all add: ok_def)

lemma ok_or_simps [simp, panic_simps]: "ok_or None e = Inl e" "ok_or (Some x) e = Inr x"
  by (simp_all add: ok_or_def)

lemma map_err_simps [simp, panic_simps]:
  "map_err g (Inl e) = Inl (g e)" "map_err g (Inr x) = Inr x"
  by (simp_all add: map_err_def)

lemma unwrap_simps [simp, panic_simps]: "unwrap None = Inl Panic" "unwrap (Some x) = Inr x"
  by (simp_all add: unwrap_def)

lemma ok_eq_Some_iff: "ok m = Some x \<longleftrightarrow> m = Inr x"
  by (cases m) simp_all

lemma ok_or_Inr_iff: "ok_or m e = Inr x \<longleftrightarrow> m = Some x"
  by (cases m) simp_all

lemma map_err_Inr_iff: "map_err g m = Inr x \<longleftrightarrow> m = Inr x"
  by (cases m) simp_all

lemma unwrap_Inr_iff: "unwrap m = Inr x \<longleftrightarrow> m = Some x"
  by (cases m) simp_all

lemmas fallible_iffs =
  and_then_Inr_iff ok_eq_Some_iff ok_or_Inr_iff map_err_Inr_iff unwrap_Inr_iff

section \<open>Checked arithmetic\<close>

text \<open>
  The standard library's \<open>checked_add\<close>, \<open>checked_sub\<close>, \<open>checked_mul\<close> and
  \<open>checked_div\<close> of the signed integer types: the exact result where it fits the type, else
  \<^const>\<open>None\<close>.  Division truncates towards zero.
\<close>

definition trunc_div :: "int \<Rightarrow> int \<Rightarrow> int" where
  "trunc_div a b = sgn a * sgn b * (\<bar>a\<bar> div \<bar>b\<bar>)"

definition fits :: "nat \<Rightarrow> int \<Rightarrow> bool" where
  "fits w x \<longleftrightarrow> - (2 ^ (w - 1)) \<le> x \<and> x < 2 ^ (w - 1)"

definition checked :: "int \<Rightarrow> 'a::len word option" where
  "checked x = (if fits LENGTH('a) x then Some (word_of_int x) else None)"

definition int_checked_add :: "'a::len word \<Rightarrow> 'a word \<Rightarrow> 'a word option" where
  "int_checked_add a b = checked (sint a + sint b)"

definition int_checked_sub :: "'a::len word \<Rightarrow> 'a word \<Rightarrow> 'a word option" where
  "int_checked_sub a b = checked (sint a - sint b)"

definition int_checked_mul :: "'a::len word \<Rightarrow> 'a word \<Rightarrow> 'a word option" where
  "int_checked_mul a b = checked (sint a * sint b)"

definition int_checked_div :: "'a::len word \<Rightarrow> 'a word \<Rightarrow> 'a word option" where
  "int_checked_div a b = (if b = 0 then None else checked (trunc_div (sint a) (sint b)))"

lemma fits_sint: "fits LENGTH('a) (sint (w :: 'a::len word))"
  using sint_ge [of w] sint_lt [of w] by (simp add: fits_def)

lemma sint_word_of_int_fits: "fits LENGTH('a) x \<Longrightarrow> sint (word_of_int x :: 'a::len word) = x"
  by (simp add: fits_def sint_sbintrunc' signed_take_bit_int_eq_self)

lemma checked_Some_iff: "checked x = Some (w :: 'a::len word) \<longleftrightarrow> sint w = x"
proof
  assume "checked x = Some w"
  then show "sint w = x"
    by (auto simp: checked_def sint_word_of_int_fits split: if_splits)
next
  assume "sint w = x"
  then show "checked x = Some w"
    using fits_sint [of w] by (auto simp: checked_def)
qed

lemma checked_None_iff: "(checked x :: 'a::len word option) = None \<longleftrightarrow> \<not> fits LENGTH('a) x"
  by (simp add: checked_def)

lemma int_checked_add_iff: "int_checked_add a b = Some c \<longleftrightarrow> sint c = sint a + sint b"
  and int_checked_sub_iff: "int_checked_sub a b = Some c \<longleftrightarrow> sint c = sint a - sint b"
  and int_checked_mul_iff: "int_checked_mul a b = Some c \<longleftrightarrow> sint c = sint a * sint b"
  by (simp_all add: int_checked_add_def int_checked_sub_def int_checked_mul_def checked_Some_iff)

lemma sint_eq_iff: "sint v = sint w \<longleftrightarrow> v = w"
  by (rule signed_word_eqI [THEN iffI [OF _ arg_cong]]) simp_all

lemma trunc_div_sgn_pos: "0 \<le> a \<Longrightarrow> 0 < b \<Longrightarrow> trunc_div a b = a div b"
  by (cases "a = 0") (simp_all add: trunc_div_def)

lemma trunc_div_uminus: "trunc_div (- a) b = - trunc_div a b"
  by (simp add: trunc_div_def)

lemma abs_trunc_div_le: "\<bar>trunc_div a b\<bar> \<le> \<bar>a\<bar>"
proof -
  have "\<bar>a\<bar> div \<bar>b\<bar> \<le> \<bar>a\<bar>"
    using zdiv_mono2 [of "\<bar>a\<bar>" 1 "\<bar>b\<bar>"] by (cases "b = 0") simp_all
  then show ?thesis
    by (cases "a = 0"; cases "b = 0")
      (simp_all add: trunc_div_def abs_mult pos_imp_zdiv_nonneg_iff)
qed

section \<open>Big-endian byte strings\<close>

text \<open>\<open>to_be_bytes\<close> and \<open>from_be_bytes\<close> of the standard library.\<close>

primrec be_bytes :: "nat \<Rightarrow> 'a::len word \<Rightarrow> bytes" where
  "be_bytes 0 w = []"
| "be_bytes (Suc n) w = be_bytes n (drop_bit 8 w) @ [ucast w]"

definition from_be :: "bytes \<Rightarrow> 'a::len word" where
  "from_be bs = foldl (\<lambda>acc b. or (push_bit 8 acc) (ucast b)) 0 bs"

lemma length_be_bytes [simp]: "length (be_bytes n w) = n"
  by (induction n arbitrary: w) simp_all

lemma be_bytes_not_Nil [simp]: "be_bytes (Suc n) w \<noteq> []"
  by simp

lemma from_be_snoc: "from_be (bs @ [b]) = or (push_bit 8 (from_be bs)) (ucast b)"
  by (simp add: from_be_def)

lemma from_be_be_bytes_take_bit: "from_be (be_bytes n w) = take_bit (8 * n) w"
proof (induction n arbitrary: w)
  case 0
  show ?case by (simp add: from_be_def)
next
  case (Suc n)
  have "or (push_bit 8 (take_bit (8 * n) (drop_bit 8 w))) (ucast (ucast w :: u8))
      = take_bit (8 * Suc n) w"
    by (rule bit_word_eqI) (auto simp: bit_simps)
  then show ?case by (simp add: from_be_snoc Suc.IH)
qed

lemma from_be_be_bytes:
  fixes w :: "'a::len word"
  assumes "LENGTH('a) \<le> 8 * n"
  shows "from_be (be_bytes n w) = w"
  using assms by (simp add: from_be_be_bytes_take_bit take_bit_word_eq_self)

lemma be_bytes_inject:
  fixes v w :: "'a::len word"
  assumes "LENGTH('a) \<le> 8 * n"
  shows "be_bytes n v = be_bytes n w \<longleftrightarrow> v = w"
  using from_be_be_bytes [OF assms] by metis

lemma from_be_roundtrips [simp, codec_simps]:
  "from_be (be_bytes 2 x) = (x :: u16)"
  "from_be (be_bytes 4 y) = (y :: u32)"
  "from_be (be_bytes 8 z) = (z :: u64)"
  by (simp_all add: from_be_be_bytes)

section \<open>The interfaces of a serializer\<close>

text \<open>
  A pair of an encoder and a decoder that reads a value off the front of the input and returns
  the rest (Rust's \<open>Cursor\<close>: the unread suffix).  The law is the round trip on the
  well-formed values; every \<open>serialize\<close>/\<open>deserialize\<close> pair of the program meets one of the
  two contracts, according to whether its decoder returns \<open>io::Result\<close> or \<open>Option\<close>.
\<close>

locale opt_codec =
  fixes enc :: "'a \<Rightarrow> bytes"
    and dec :: "bytes \<Rightarrow> ('a \<times> bytes) option"
    and wf :: "'a \<Rightarrow> bool"
  assumes roundtrip: "wf a \<Longrightarrow> dec (enc a @ rest) = Some (a, rest)"
begin

lemma roundtrip_all: "wf a \<Longrightarrow> dec (enc a) = Some (a, [])"
  using roundtrip [of a "[]"] by simp

lemma prefix_free:
  assumes "wf a" "wf b" "enc a @ xs = enc b @ ys"
  shows "a = b \<and> xs = ys"
proof -
  have "Some (a, xs) = Some (b, ys)"
    unfolding roundtrip [OF assms(1), of xs, symmetric] roundtrip [OF assms(2), of ys, symmetric]
    by (simp only: assms(3))
  then show ?thesis by simp
qed

lemma enc_inject:
  assumes "wf a" "wf b" "enc a = enc b"
  shows "a = b"
  using prefix_free [OF assms(1,2), of "[]" "[]"] assms(3) by simp

lemma concat_enc_inject:
  "list_all wf xs \<Longrightarrow> list_all wf ys \<Longrightarrow> length xs = length ys \<Longrightarrow>
    concat (map enc xs) = concat (map enc ys) \<Longrightarrow> xs = ys"
proof (induction xs ys rule: list_induct2')
  case (4 x xs y ys)
  then show ?case
    using prefix_free [of x y "concat (map enc xs)" "concat (map enc ys)"] by simp
qed simp_all

end

locale io_codec =
  fixes enc :: "'a \<Rightarrow> bytes"
    and dec :: "bytes \<Rightarrow> 'e + ('a \<times> bytes)"
    and wf :: "'a \<Rightarrow> bool"
  assumes io_roundtrip: "wf a \<Longrightarrow> dec (enc a @ rest) = Inr (a, rest)"

sublocale io_codec \<subseteq> opt_codec enc "\<lambda>bs. ok (dec bs)" wf
  by unfold_locales (simp add: io_roundtrip)

text \<open>Reading a counted sequence, as the \<open>for _ in 0..len\<close> loops of the decoders do.\<close>

primrec take_many :: "(bytes \<Rightarrow> 'e + ('a \<times> bytes)) \<Rightarrow> nat \<Rightarrow> bytes \<Rightarrow> 'e + ('a list \<times> bytes)" where
  "take_many dec 0 cur = Inr ([], cur)"
| "take_many dec (Suc n) cur =
     and_then (dec cur) (\<lambda>(x, cur). and_then (take_many dec n cur) (\<lambda>(xs, cur). Inr (x # xs, cur)))"

primrec take_many_opt :: "(bytes \<Rightarrow> ('a \<times> bytes) option) \<Rightarrow> nat \<Rightarrow> bytes \<Rightarrow> ('a list \<times> bytes) option" where
  "take_many_opt dec 0 cur = Some ([], cur)"
| "take_many_opt dec (Suc n) cur =
     Option.bind (dec cur) (\<lambda>(x, cur).
       Option.bind (take_many_opt dec n cur) (\<lambda>(xs, cur). Some (x # xs, cur)))"

context io_codec
begin

lemma take_many_roundtrip:
  "list_all wf xs \<Longrightarrow> take_many dec (length xs) (concat (map enc xs) @ rest) = Inr (xs, rest)"
  by (induction xs) (simp_all add: io_roundtrip)

end

context opt_codec
begin

lemma take_many_opt_roundtrip:
  "list_all wf xs \<Longrightarrow> take_many_opt dec (length xs) (concat (map enc xs) @ rest) = Some (xs, rest)"
  by (induction xs) (simp_all add: roundtrip)

end

text \<open>A decoder whose results are all well formed: what it reads can be written and read again.\<close>

locale opt_parser = opt_codec +
  assumes dec_wf: "dec cur = Some (a, cur') \<Longrightarrow> wf a"
begin

lemma reread: "dec cur = Some (a, cur') \<Longrightarrow> dec (enc a @ rest) = Some (a, rest)"
  by (blast intro: roundtrip dec_wf)

lemma take_many_opt_wf:
  "take_many_opt dec n cur = Some (xs, cur') \<Longrightarrow> list_all wf xs \<and> length xs = n"
  by (induction n arbitrary: cur xs) (auto simp: Option.bind_eq_Some_conv dest: dec_wf)

end

locale io_parser = io_codec +
  assumes io_dec_wf: "dec cur = Inr (a, cur') \<Longrightarrow> wf a"
begin

lemma take_many_wf:
  "take_many dec n cur = Inr (xs, cur') \<Longrightarrow> list_all wf xs \<and> length xs = n"
  by (induction n arbitrary: cur xs) (auto simp: fallible_iffs dest: io_dec_wf)

end

sublocale io_parser \<subseteq> opt_parser enc "\<lambda>bs. ok (dec bs)" wf
  by unfold_locales (auto simp: fallible_iffs dest: io_dec_wf)

section \<open>Code outside the repository\<close>

text \<open>
  The third-party operations the source calls, as one record of parameters: the build's
  \<open>testnet\<close> feature, libsodium's SHA-256
  (one shot and streaming) and Ed25519, the Base58 codec, CRC-32C and the operations of
  \<open>num_bigint\<close> on the integers its values denote, and RocksDB: a read of a key in a column
  family, the atomic write of a batch and the iterator over a family (\<open>'db\<close> is the type of its
  state; I/O errors of the database, which the source unwraps, are left out).  A definition that uses one takes the record
  \<open>ext\<close>; what a proof needs of it is a named predicate below, a documented fact of that
  library.
\<close>

datatype db_op =
    PutCf string bytes bytes
  | DeleteCf string bytes

record 'db ext =
  testnet :: bool
  sha256_hash :: "bytes \<Rightarrow> bytes"
  sha256_new :: bytes
  sha256_update :: "bytes \<Rightarrow> bytes \<Rightarrow> bytes"
  sha256_finalize :: "bytes \<Rightarrow> bytes"
  verify_detached :: "bytes \<Rightarrow> bytes \<Rightarrow> bytes \<Rightarrow> bool"
  sign_detached :: "bytes \<Rightarrow> bytes \<Rightarrow> bytes"
  keypair_from_seed :: "bytes \<Rightarrow> bytes \<times> bytes"
  bs58_encode :: "bytes \<Rightarrow> string"
  bs58_decode :: "string \<Rightarrow> bytes option"
  crc32c :: "bytes \<Rightarrow> u32"
  bigint_mul :: "int \<Rightarrow> int \<Rightarrow> int"
  bigint_div :: "int \<Rightarrow> int \<Rightarrow> int"
  bigint_parse :: "string \<Rightarrow> int option"
  bigint_to_i64 :: "int \<Rightarrow> i64 option"
  db_get :: "'db \<Rightarrow> string \<Rightarrow> bytes \<Rightarrow> bytes option"
  db_write :: "'db \<Rightarrow> db_op list \<Rightarrow> 'db"
  db_iter :: "'db \<Rightarrow> string \<Rightarrow> (bytes \<times> bytes) list"

text \<open>Digests have 32 bytes; the streaming interface hashes the concatenation of the chunks.\<close>

definition sha256_ok :: "'db ext \<Rightarrow> bool" where
  "sha256_ok X \<longleftrightarrow> (\<forall>m. length (sha256_hash X m) = 32) \<and>
     (\<forall>ms. sha256_finalize X (foldl (sha256_update X) (sha256_new X) ms) = sha256_hash X (concat ms))"

definition bigint_ok :: "'db ext \<Rightarrow> bool" where
  "bigint_ok X \<longleftrightarrow> (\<forall>a b. bigint_mul X a b = a * b) \<and>
     (\<forall>a b. b \<noteq> 0 \<longrightarrow> bigint_div X a b = trunc_div a b) \<and>
     (\<forall>n. bigint_parse X (CHR ''1'' # replicate n (CHR ''0'')) = Some (10 ^ n)) \<and>
     (\<forall>a. bigint_to_i64 X a = checked a)"

text \<open>A key pair made from a seed signs what it verifies.\<close>

definition sign_ok :: "'db ext \<Rightarrow> bool" where
  "sign_ok X \<longleftrightarrow> (\<forall>seed msg. length seed = 32 \<longrightarrow>
     (case keypair_from_seed X seed of (pk, sk) \<Rightarrow>
        length pk = 32 \<and> length sk = 64 \<and> length (sign_detached X msg sk) = 64 \<and>
        verify_detached X (sign_detached X msg sk) msg pk))"

text \<open>Base58 reads what it writes, which is ASCII.\<close>

definition bs58_ok :: "'db ext \<Rightarrow> bool" where
  "bs58_ok X \<longleftrightarrow> (\<forall>bs. bs58_decode X (bs58_encode X bs) = Some bs \<and>
     list_all (\<lambda>c. of_char c < (128 :: nat)) (bs58_encode X bs))"

text \<open>RocksDB: a batch is applied in order to the families, and the iterator lists what is stored.\<close>

fun db_apply :: "(string \<Rightarrow> bytes \<Rightarrow> bytes option) \<Rightarrow> db_op \<Rightarrow> string \<Rightarrow> bytes \<Rightarrow> bytes option" where
  "db_apply view (PutCf cf k v) = view(cf := (view cf)(k \<mapsto> v))"
| "db_apply view (DeleteCf cf k) = view(cf := (view cf)(k := None))"

definition db_ok :: "'db ext \<Rightarrow> bool" where
  "db_ok X \<longleftrightarrow> (\<forall>db ops. db_get X (db_write X db ops) = foldl db_apply (db_get X db) ops) \<and>
     (\<forall>db cf k v. (k, v) \<in> set (db_iter X db cf) \<longleftrightarrow> db_get X db cf k = Some v)"

lemma db_get_write: "db_ok X \<Longrightarrow> db_get X (db_write X db ops) = foldl db_apply (db_get X db) ops"
  by (simp add: db_ok_def)

lemma db_iter_iff: "db_ok X \<Longrightarrow> (k, v) \<in> set (db_iter X db cf) \<longleftrightarrow> db_get X db cf k = Some v"
  by (simp add: db_ok_def)

end
