(* ===== verification/Sample.thy ===== *)
theory Sample
  imports Prelude "HOL-Library.AList"
begin

text \<open>
  A concrete environment, on which the properties that rest on documented facts of the libraries are
  instantiated: a hash that pads, signatures that repeat the message, a text codec of one character a
  byte, integers, and a database kept as an association list.  It satisfies every predicate the
  properties assume of the libraries.
\<close>

definition pad :: "nat \<Rightarrow> bytes \<Rightarrow> bytes" where
  "pad n bs = take n (bs @ replicate n 0)"

type_synonym sample_db = "((string \<times> bytes) \<times> bytes) list"

fun sample_apply :: "sample_db \<Rightarrow> db_op \<Rightarrow> sample_db" where
  "sample_apply db (PutCf cf k v) = AList.update (cf, k) v db"
| "sample_apply db (DeleteCf cf k) = AList.delete (cf, k) db"

definition sample_iter :: "sample_db \<Rightarrow> string \<Rightarrow> (bytes \<times> bytes) list" where
  "sample_iter db cf = map (\<lambda>e. (snd (fst e), the (map_of db (fst e)))) (filter (\<lambda>e. fst (fst e) = cf) db)"

definition power_of_ten :: "string \<Rightarrow> int option" where
  "power_of_ten s = (case s of [] \<Rightarrow> None | c # cs \<Rightarrow>
     if c = CHR ''1'' \<and> list_all (\<lambda>c. c = CHR ''0'') cs then Some (10 ^ length cs) else None)"

text \<open>Texts of two letters a byte.\<close>

definition nibbles :: "bytes \<Rightarrow> string" where
  "nibbles bs = concat (map (\<lambda>b. [char_of (65 + unat b div 16), char_of (65 + unat b mod 16)]) bs)"

fun of_nibbles :: "string \<Rightarrow> bytes option" where
  "of_nibbles [] = Some []"
| "of_nibbles [c] = None"
| "of_nibbles (c # d # cs) =
     map_option (\<lambda>bs. of_nat (16 * (of_char c - 65) + (of_char d - 65)) # bs) (of_nibbles cs)"

definition sample :: "sample_db ext" where
  "sample = \<lparr>
     testnet = False,
     sha256_hash = pad 32,
     sha256_new = [],
     sha256_update = (@),
     sha256_finalize = pad 32,
     verify_detached = (\<lambda>sig msg pk. sig = pad 64 (pk @ msg)),
     sign_detached = (\<lambda>msg sk. pad 64 (take 32 sk @ msg)),
     keypair_from_seed = (\<lambda>seed. (seed, seed @ seed)),
     bs58_encode = nibbles,
     bs58_decode = of_nibbles,
     crc32c = (\<lambda>bs. foldl (+) 0 (map ucast bs)),
     bigint_mul = (*),
     bigint_div = trunc_div,
     bigint_parse = power_of_ten,
     bigint_to_i64 = checked,
     db_get = (\<lambda>db cf k. map_of db (cf, k)),
     db_write = foldl sample_apply,
     db_iter = sample_iter\<rparr>"

lemma length_pad [simp]: "length (pad n bs) = n"
  by (simp add: pad_def)

lemma sample_sha256_ok: "sha256_ok sample"
proof -
  have "foldl (@) x ms = x @ concat ms" for x :: bytes and ms
    by (induction ms arbitrary: x) simp_all
  then show ?thesis by (simp add: sha256_ok_def sample_def)
qed

lemma sample_sign_ok: "sign_ok sample"
  by (simp add: sign_ok_def sample_def)

lemma of_nibbles_nibbles: "of_nibbles (nibbles bs) = Some bs"
proof -
  have "of_char (char_of (65 + unat b div 16) :: char) = 65 + unat b div 16"
    "of_char (char_of (65 + unat b mod 16) :: char) = 65 + unat b mod 16" for b :: u8
    using unsigned_less [of b, where 'a = nat] by simp_all
  then show ?thesis by (induction bs) (simp_all add: nibbles_def)
qed

lemma nibbles_ascii: "list_all (\<lambda>c. of_char c < (128 :: nat)) (nibbles bs)" "length (nibbles bs) = 2 * length bs"
proof -
  have "(65 + unat b div 16) mod 256 < 128" for b :: u8
    by (rule le_less_trans [OF mod_less_eq_dividend]) (use unsigned_less [of b, where 'a = nat] in simp)
  moreover have "(65 + unat b mod 16) mod 256 < 128" for b :: u8
    by (rule le_less_trans [OF mod_less_eq_dividend]) simp
  ultimately show "list_all (\<lambda>c. of_char c < (128 :: nat)) (nibbles bs)"
    by (induction bs) (auto simp: nibbles_def)
  show "length (nibbles bs) = 2 * length bs" by (induction bs) (simp_all add: nibbles_def)
qed

lemma sample_bs58_ok: "bs58_ok sample"
  by (simp add: bs58_ok_def sample_def of_nibbles_nibbles nibbles_ascii)

lemma sample_bigint_ok: "bigint_ok sample"
  by (simp add: bigint_ok_def sample_def power_of_ten_def list_all_iff)

lemma sample_get_apply: "(\<lambda>cf k. map_of (sample_apply db op) (cf, k)) = db_apply (\<lambda>cf k. map_of db (cf, k)) op"
  by (cases op) (auto simp: fun_eq_iff update_conv' delete_conv')

lemma sample_db_ok: "db_ok sample"
proof -
  have "(\<lambda>cf k. map_of (foldl sample_apply db ops) (cf, k)) = foldl db_apply (\<lambda>cf k. map_of db (cf, k)) ops" for db ops
    by (induction ops arbitrary: db) (simp_all flip: sample_get_apply)
  moreover have "(k, v) \<in> set (sample_iter db cf) \<longleftrightarrow> map_of db (cf, k) = Some v" for db cf k v
  proof
    assume "(k, v) \<in> set (sample_iter db cf)"
    then obtain w where w: "((cf, k), w) \<in> set db" "v = the (map_of db (cf, k))"
      by (auto simp: sample_iter_def)
    from weak_map_of_SomeI [OF w(1)] show "map_of db (cf, k) = Some v" using w(2) by auto
  next
    assume v: "map_of db (cf, k) = Some v"
    from map_of_SomeD [OF this] have "((cf, k), v) \<in> {e \<in> set db. fst (fst e) = cf}" by simp
    from imageI [OF this, of "\<lambda>e. (snd (fst e), the (map_of db (fst e)))"] show "(k, v) \<in> set (sample_iter db cf)"
      unfolding sample_iter_def set_map set_filter using v by simp
  qed
  ultimately show ?thesis by (simp add: db_ok_def sample_def)
qed

lemmas sample_ok = sample_sha256_ok sample_sign_ok sample_bs58_ok sample_bigint_ok sample_db_ok

end
