(* ===== verification/Assets.thy ===== *)
theory Assets
  imports Prelude
begin

text \<open>
  \<open>asset/mod.rs\<close>, \<open>asset/precision.rs\<close> and \<open>asset/error.rs\<close>: amounts in the smallest unit
  (five decimals) as an \<open>i64\<close>, their checked arithmetic and their text form.
\<close>

section \<open>Changing the number of decimals\<close>

definition DECIMAL_MULT_I64 :: "i64 list" where
  "DECIMAL_MULT_I64 = map (\<lambda>n. word_of_int (10 ^ n)) [0..<19]"

definition DECIMAL_MULT_I128 :: "128 word list" where
  "DECIMAL_MULT_I128 = map (\<lambda>n. word_of_int (10 ^ n)) [0..<39]"

text \<open>Indexing a table panics out of range.\<close>

definition index_or_panic :: "'a list \<Rightarrow> nat \<Rightarrow> 'e fail + 'a" where
  "index_or_panic xs i = (if i < length xs then Inr (xs ! i) else Inl Panic)"

text \<open>The function the macro \<open>create_decimal_fn\<close> defines for a type and its table.\<close>

definition set_decimals :: "'a::len word list \<Rightarrow> 'a word \<Rightarrow> u8 \<Rightarrow> u8 \<Rightarrow> 'e fail + 'a word option" where
  "set_decimals DECIMAL_MULT num orig_dec new_dec =
     (if orig_dec > new_dec then
        and_then (index_or_panic DECIMAL_MULT (unat (orig_dec - new_dec)))
          (\<lambda>d. Inr (int_checked_div num d))
      else if orig_dec < new_dec then
        and_then (index_or_panic DECIMAL_MULT (unat (new_dec - orig_dec)))
          (\<lambda>m. Inr (int_checked_mul num m))
      else Inr (Some num))"

definition set_decimals_i64 :: "i64 \<Rightarrow> u8 \<Rightarrow> u8 \<Rightarrow> 'e fail + i64 option" where
  "set_decimals_i64 = set_decimals DECIMAL_MULT_I64"

definition set_decimals_i128 :: "128 word \<Rightarrow> u8 \<Rightarrow> u8 \<Rightarrow> 'e fail + 128 word option" where
  "set_decimals_i128 = set_decimals DECIMAL_MULT_I128"

definition set_decimals_big :: "'db ext \<Rightarrow> int \<Rightarrow> u16 \<Rightarrow> u16 \<Rightarrow> 'e fail + int" where
  "set_decimals_big X num orig_dec new_dec =
     (if orig_dec < new_dec then
        let delta = unat (new_dec - orig_dec) in
        if delta < length DECIMAL_MULT_I64 then
          Inr (bigint_mul X num (sint (DECIMAL_MULT_I64 ! delta)))
        else
          let rep = ''1'' @ replicate delta (CHR ''0'') in
          and_then (unwrap (bigint_parse X rep)) (\<lambda>m. Inr (bigint_mul X num m))
      else if orig_dec = new_dec then Inr num
      else
        let delta = unat (orig_dec - new_dec) in
        if delta < length DECIMAL_MULT_I64 then
          Inr (bigint_div X num (sint (DECIMAL_MULT_I64 ! delta)))
        else
          let rep = ''1'' @ replicate delta (CHR ''0'') in
          and_then (unwrap (bigint_parse X rep)) (\<lambda>m. Inr (bigint_div X num m)))"

section \<open>Assets\<close>

datatype asset = Asset (amount: i64)

definition MAX_PRECISION :: u8 where "MAX_PRECISION = 5"

definition MAX_STR_LEN :: nat where "MAX_STR_LEN = 26"

text \<open>The derived \<open>Default\<close>, \<open>PartialOrd\<close> and \<open>Ord\<close>: those of the signed amount.\<close>

definition Asset_default :: asset where "Asset_default = Asset 0"

instantiation asset :: linorder
begin

definition less_eq_asset :: "asset \<Rightarrow> asset \<Rightarrow> bool" where
  "less_eq_asset a b \<longleftrightarrow> sint (amount a) \<le> sint (amount b)"

definition less_asset :: "asset \<Rightarrow> asset \<Rightarrow> bool" where
  "less_asset a b \<longleftrightarrow> sint (amount a) < sint (amount b)"

instance
proof
  fix x y z :: asset
  show "(x < y) = (x \<le> y \<and> \<not> y \<le> x)" and "x \<le> x" and "x \<le> y \<or> y \<le> x"
    by (auto simp: less_asset_def less_eq_asset_def)
  show "x \<le> y \<Longrightarrow> y \<le> z \<Longrightarrow> x \<le> z"
    by (simp add: less_eq_asset_def)
  show "x \<le> y \<Longrightarrow> y \<le> x \<Longrightarrow> x = y"
    by (cases x; cases y) (simp add: less_eq_asset_def sint_eq_iff)
qed

end

text \<open>The amount as a mathematical integer, in which the properties are stated.\<close>

definition amt :: "asset \<Rightarrow> int" where "amt a = sint (amount a)"

definition asset_of :: "i64 option \<Rightarrow> asset option" where
  "asset_of = map_option Asset"

definition Asset_checked_add :: "asset \<Rightarrow> asset \<Rightarrow> asset option" where
  "Asset_checked_add self other = map_option Asset (int_checked_add (amount self) (amount other))"

definition Asset_checked_sub :: "asset \<Rightarrow> asset \<Rightarrow> asset option" where
  "Asset_checked_sub self other = map_option Asset (int_checked_sub (amount self) (amount other))"

definition Asset_checked_mul :: "asset \<Rightarrow> asset \<Rightarrow> 'e fail + asset option" where
  "Asset_checked_mul self other =
     (case int_checked_mul (scast (amount self) :: 128 word) (scast (amount other)) of
        None \<Rightarrow> Inr None
      | Some mul \<Rightarrow>
          and_then (set_decimals_i128 mul (MAX_PRECISION * 2) MAX_PRECISION) (\<lambda>r.
            case r of
              None \<Rightarrow> Inr None
            | Some final_mul \<Rightarrow>
                if sint final_mul > 2 ^ 63 - 1 then Inr None
                else Inr (Some (Asset (ucast final_mul)))))"

definition Asset_checked_div :: "asset \<Rightarrow> asset \<Rightarrow> 'e fail + asset option" where
  "Asset_checked_div self other =
     (if amount other = 0 then Inr None
      else
        and_then (set_decimals_i64 (amount self) MAX_PRECISION (MAX_PRECISION * 2)) (\<lambda>r.
          case r of
            None \<Rightarrow> Inr None
          | Some a \<Rightarrow> Inr (map_option Asset (int_checked_div a (amount other)))))"

text \<open>The square-and-multiply loop of \<open>checked_pow\<close>.\<close>

function pow_loop :: "'db ext \<Rightarrow> int \<Rightarrow> int \<Rightarrow> u16 \<Rightarrow> int" where
  "pow_loop X res base exp =
     (let res = (if and exp 1 = 1 then bigint_mul X res base else res);
          exp = drop_bit 1 exp
      in if exp = 0 then res else pow_loop X res (bigint_mul X base base) exp)"
  by pat_completeness auto
termination
proof (relation "measure (\<lambda>(X, res, base, exp). unat exp)", simp)
  fix X :: "'db ext" and res base :: int and exp :: u16 and r e
  assume "e = drop_bit 1 exp" "e \<noteq> 0"
  then have "unat e = unat exp div 2" and "unat e \<noteq> 0"
    by (simp add: drop_bit_eq_div unat_div, simp only: unat_eq_0 not_False_eq_True)
  then show "((X, r, bigint_mul X base base, e), X, res, base, exp)
      \<in> measure (\<lambda>(X, res, base, exp). unat exp)"
    by simp
qed

declare pow_loop.simps [simp del]

definition Asset_checked_pow :: "'db ext \<Rightarrow> asset \<Rightarrow> u16 \<Rightarrow> 'e fail + asset option" where
  "Asset_checked_pow X self num =
     (if num = 0 then
        and_then (set_decimals_i64 1 0 MAX_PRECISION) (\<lambda>r. Inr (map_option Asset r))
      else if 5 * unat num \<ge> 2 ^ 16 then Inr None
      else
        let decimals = ucast MAX_PRECISION * num;
            res = pow_loop X 1 (sint (amount self)) num
        in and_then (set_decimals_big X res decimals (ucast MAX_PRECISION)) (\<lambda>res.
             Inr (map_option Asset (bigint_to_i64 X res))))"

section \<open>What the arithmetic computes\<close>

lemma amt_inject: "amt a = amt b \<longleftrightarrow> a = b"
  by (cases a; cases b) (simp add: amt_def sint_eq_iff)

lemma amt_Asset_of_int: "fits 64 x \<Longrightarrow> amt (Asset (word_of_int x)) = x"
  using sint_word_of_int_fits [where 'a = 64, of x] by (simp add: amt_def)

lemma fits_amt: "fits 64 (amt a)"
  using fits_sint [of "amount a"] by (simp add: amt_def)

lemma amt_bounds: "- (2 ^ 63) \<le> amt a" "amt a < 2 ^ 63"
  using fits_amt [of a] by (simp_all add: fits_def)

lemma amt_default [simp]: "amt Asset_default = 0" "amt (Asset 0) = 0"
  by (simp_all add: amt_def Asset_default_def)

lemma asset_le_iff: "a \<le> b \<longleftrightarrow> amt a \<le> amt b"
  and asset_less_iff: "a < b \<longleftrightarrow> amt a < amt b"
  by (simp_all add: less_eq_asset_def less_asset_def amt_def)

lemma checked_asset_iff: "map_option Asset (checked x) = Some c \<longleftrightarrow> amt c = x"
  by (cases c) (auto simp: amt_def checked_Some_iff)

lemma Asset_checked_add_iff: "Asset_checked_add a b = Some c \<longleftrightarrow> amt c = amt a + amt b"
  unfolding Asset_checked_add_def int_checked_add_def checked_asset_iff by (simp add: amt_def)

lemma Asset_checked_sub_iff: "Asset_checked_sub a b = Some c \<longleftrightarrow> amt c = amt a - amt b"
  unfolding Asset_checked_sub_def int_checked_sub_def checked_asset_iff by (simp add: amt_def)

lemma Asset_checked_add_None_iff: "Asset_checked_add a b = None \<longleftrightarrow> \<not> fits 64 (amt a + amt b)"
  and Asset_checked_sub_None_iff: "Asset_checked_sub a b = None \<longleftrightarrow> \<not> fits 64 (amt a - amt b)"
  by (simp_all add: Asset_checked_add_def Asset_checked_sub_def int_checked_add_def
      int_checked_sub_def checked_None_iff flip: amt_def)

lemma decimal_tables:
  "n < 19 \<Longrightarrow> sint (DECIMAL_MULT_I64 ! n) = 10 ^ n"
  "length DECIMAL_MULT_I64 = 19"
  "length DECIMAL_MULT_I128 = 39"
proof -
  assume "n < 19"
  then have "(10::int) ^ n \<le> 10 ^ 18" by (intro power_increasing) simp_all
  then have "fits LENGTH(64) (10 ^ n)"
    by (simp add: fits_def) (smt (verit) zero_less_power)
  then show "sint (DECIMAL_MULT_I64 ! n) = 10 ^ n"
    using \<open>n < 19\<close> sint_word_of_int_fits [where 'a = 64, of "10 ^ n"]
    by (simp add: DECIMAL_MULT_I64_def)
qed (simp_all add: DECIMAL_MULT_I64_def DECIMAL_MULT_I128_def)

lemma abs_amt_mult: "\<bar>amt a * amt b\<bar> \<le> 2 ^ 126"
proof -
  have "\<bar>amt x\<bar> \<le> 2 ^ 63" for x
    using amt_bounds [of x] by linarith
  then have "\<bar>amt a\<bar> * \<bar>amt b\<bar> \<le> 2 ^ 63 * 2 ^ 63"
    by (intro mult_mono) simp_all
  then show ?thesis by (simp add: abs_mult)
qed

lemma set_decimals_i128_10_5:
  "set_decimals_i128 m 10 5 = Inr (checked (trunc_div (sint m) 100000))"
  by (simp add: set_decimals_i128_def set_decimals_def index_or_panic_def decimal_tables
      DECIMAL_MULT_I128_def int_checked_div_def)

lemma set_decimals_i64_5_10:
  "set_decimals_i64 m 5 10 = Inr (checked (sint m * 100000))"
  by (simp add: set_decimals_i64_def set_decimals_def index_or_panic_def decimal_tables
      DECIMAL_MULT_I64_def int_checked_mul_def)

lemma set_decimals_i64_0_5:
  "set_decimals_i64 m 0 5 = Inr (checked (sint m * 100000))"
  by (simp add: set_decimals_i64_def set_decimals_def index_or_panic_def decimal_tables
      DECIMAL_MULT_I64_def int_checked_mul_def)

lemma trunc_div_fits128:
  "\<bar>x\<bar> \<le> 2 ^ 126 \<Longrightarrow> fits 128 (trunc_div x 100000)" "\<bar>x\<bar> \<le> 2 ^ 126 \<Longrightarrow> fits 128 x"
  using abs_trunc_div_le [of x 100000] by (auto simp: fits_def)

text \<open>
  \<open>checked_mul\<close> never panics; it rejects a scaled product above \<open>i64::MAX\<close> and otherwise
  truncates it to 64 bits, also below \<open>i64::MIN\<close>.
\<close>

lemma Asset_checked_mul_eq:
  "Asset_checked_mul a b =
     (let p = trunc_div (amt a * amt b) 100000 in
      Inr (if p > 2 ^ 63 - 1 then None else Some (Asset (word_of_int p))))"
proof -
  have sc: "sint (scast w :: 128 word) = sint (w :: 64 word)" for w
    by (simp add: sint_up_scast is_up)
  have uc: "(ucast (word_of_int r :: 128 word) :: 64 word) = word_of_int r" for r
    by (rule ucast_down_wi) (simp add: is_down)
  have f: "fits LENGTH(128) (amt a * amt b)" "fits LENGTH(128) (trunc_div (amt a * amt b) 100000)"
    using trunc_div_fits128 [OF abs_amt_mult] by simp_all
  note s = sint_word_of_int_fits [where 'a = 128, OF f(1)]
    sint_word_of_int_fits [where 'a = 128, OF f(2)]
  show ?thesis
    using f s unfolding Asset_checked_mul_def
    by (simp add: int_checked_mul_def sc checked_def MAX_PRECISION_def set_decimals_i128_10_5
        uc Let_def flip: amt_def)
qed

lemma Asset_checked_div_eq:
  "Asset_checked_div a b =
     Inr (if amt b = 0 \<or> \<not> fits 64 (amt a * 100000) then None
          else map_option Asset (checked (trunc_div (amt a * 100000) (amt b))))"
proof -
  have z: "amount b = 0 \<longleftrightarrow> amt b = 0"
    using sint_eq_iff [of "amount b" 0] by (simp add: amt_def)
  show ?thesis
  proof (cases "checked (amt a * 100000) :: i64 option")
    case None
    then show ?thesis
      using checked_None_iff [where 'a = 64, of "amt a * 100000"]
      by (simp add: Asset_checked_div_def z MAX_PRECISION_def set_decimals_i64_5_10 flip: amt_def)
  next
    case (Some w)
    then have "sint w = amt a * 100000" and "fits 64 (amt a * 100000)"
      using fits_sint [of w] by (simp_all add: checked_Some_iff)
    then show ?thesis
      using Some by (simp add: Asset_checked_div_def z MAX_PRECISION_def set_decimals_i64_5_10
          int_checked_div_def flip: amt_def)
  qed
qed

text \<open>Square and multiply computes the power.\<close>

lemma unat_exp_split: "unat (e :: u16) = 2 * unat (drop_bit 1 e) + (if and e 1 = 1 then 1 else 0)"
proof -
  have "unat (drop_bit 1 e) = unat e div 2"
    by (simp add: drop_bit_eq_div unat_div)
  moreover have "and e 1 = 1 \<longleftrightarrow> odd (unat e)"
    by (simp add: and_one_eq word_unat_eq_iff [of "e mod 2"] unat_mod odd_iff_mod_2_eq_one)
  ultimately show ?thesis by (simp add: odd_two_times_div_two_succ)
qed

lemma pow_loop_eq:
  assumes "bigint_ok X"
  shows "pow_loop X res base exp = res * base ^ unat exp"
  using assms
proof (induction X res base exp rule: pow_loop.induct)
  case (1 X res base exp)
  let ?e = "drop_bit 1 exp" and ?r = "if and exp 1 = 1 then res * base else res"
  have m: "bigint_mul X a b = a * b" for a b
    using "1.prems" by (simp add: bigint_ok_def)
  have p: "base ^ unat exp = (base * base) ^ unat ?e * (if and exp 1 = 1 then base else 1)"
    by (subst unat_exp_split) (simp add: power_add power_mult power2_eq_square)
  show ?case
  proof (cases "?e = 0")
    case True
    then show ?thesis
      by (subst pow_loop.simps) (simp only: Let_def m p, simp)
  next
    case False
    then have "pow_loop X ?r (base * base) ?e = ?r * (base * base) ^ unat ?e"
      using "1.IH" [OF refl refl] "1.prems" by (simp only: m) simp
    then show ?thesis
      using False by (subst pow_loop.simps) (simp only: Let_def m p if_False, simp)
  qed
qed

text \<open>The reference: the exact power, scaled back to five decimals, truncated.\<close>

definition pow_spec :: "int \<Rightarrow> nat \<Rightarrow> int" where
  "pow_spec a n = (if n = 0 then 100000 else trunc_div (a ^ n) (10 ^ (5 * n - 5)))"

lemma set_decimals_big_eq:
  assumes "bigint_ok X" "5 * unat num < 2 ^ 16" "num \<noteq> 0"
  shows "set_decimals_big X x (5 * num) 5 = Inr (trunc_div x (10 ^ (5 * unat num - 5)))"
proof -
  have n: "0 < unat num" using assms(3) by (simp add: unat_gt_0)
  have u: "unat (5 * num) = 5 * unat num"
    using assms(2) by (simp add: unat_word_ariths)
  have ge: "\<not> 5 * num < 5"
    using n by (simp add: word_less_nat_alt u)
  have eq: "5 * num = 5 \<longleftrightarrow> unat num = 1"
    by (simp add: word_unat_eq_iff u)
  have d: "unat (5 * num - 5) = 5 * unat num - 5"
    using ge by (simp add: unat_sub_if' u word_less_nat_alt)
  have x1: "trunc_div x 1 = x" by (simp add: trunc_div_def sgn_mult_abs)
  show ?thesis
    using assms(1) ge n
    by (auto simp: set_decimals_big_def Let_def eq d x1 decimal_tables bigint_ok_def)
qed

lemma Asset_checked_pow_eq:
  assumes "bigint_ok X"
  shows "Asset_checked_pow X a num =
     Inr (if 5 * unat num \<ge> 2 ^ 16 then None
          else map_option Asset (checked (pow_spec (amt a) (unat num))))"
proof (cases "num = 0")
  case True
  then show ?thesis
    by (simp add: Asset_checked_pow_def MAX_PRECISION_def set_decimals_i64_0_5 pow_spec_def)
next
  case False
  then have "unat num \<noteq> 0" by (simp add: unat_eq_0)
  moreover have "bigint_to_i64 X y = checked y" for y
    using assms by (simp add: bigint_ok_def)
  ultimately show ?thesis
    using False assms
    by (simp add: set_decimals_big_eq Asset_checked_pow_def MAX_PRECISION_def pow_spec_def pow_loop_eq not_le flip: amt_def)
qed

end
