(* ===== verification/Rust_Text.thy ===== *)
theory Rust_Text
  imports Prelude
begin

text \<open>
  The text operations of Rust's standard library that the program uses.  A \<open>&str\<close> is the \<open>string\<close> of its
  bytes in UTF-8, so that its length in bytes is the length of the list and a slice inside a multibyte
  character panics.  Printing and parsing of integers, trimming (of ASCII white space), splitting and searching.
\<close>

section \<open>Splitting and trimming\<close>

definition is_whitespace :: "char \<Rightarrow> bool" where
  "is_whitespace c \<longleftrightarrow> of_char c = (32 :: nat) \<or> (9 \<le> (of_char c :: nat) \<and> of_char c \<le> (13 :: nat))"

definition trim :: "string \<Rightarrow> string" where
  "trim s = rev (dropWhile is_whitespace (rev (dropWhile is_whitespace s)))"

text \<open>\<open>splitn(2, c)\<close>: the first piece and, when the separator occurs, the rest.\<close>

definition splitn2 :: "char \<Rightarrow> string \<Rightarrow> string \<times> string option" where
  "splitn2 c s = (takeWhile (\<lambda>x. x \<noteq> c) s,
     case dropWhile (\<lambda>x. x \<noteq> c) s of [] \<Rightarrow> None | _ # rest \<Rightarrow> Some rest)"

fun str_find :: "char \<Rightarrow> string \<Rightarrow> nat option" where
  "str_find c [] = None"
| "str_find c (x # xs) = (if x = c then Some 0 else map_option Suc (str_find c xs))"

text \<open>\<open>str::is_char_boundary\<close> on UTF-8 text, and the slice \<open>&s[0..n]\<close>, which panics elsewhere.\<close>

definition is_char_boundary :: "string \<Rightarrow> nat \<Rightarrow> bool" where
  "is_char_boundary s i \<longleftrightarrow> i = 0 \<or> i = length s \<or>
     i < length s \<and> \<not> (128 \<le> (of_char (s ! i) :: nat) \<and> of_char (s ! i) < (192 :: nat))"

definition str_take :: "nat \<Rightarrow> string \<Rightarrow> 'e fail + string" where
  "str_take n s = (if is_char_boundary s n then Inr (take n s) else Inl Panic)"

lemma str_take_append:
  "list_all (\<lambda>c. of_char c < (128 :: nat)) t \<Longrightarrow> str_take (length p) (p @ t) = Inr p"
  by (cases t) (simp_all add: str_take_def is_char_boundary_def nth_append)

section \<open>Integers as text\<close>

definition digit_char :: "nat \<Rightarrow> char" where
  "digit_char d = char_of (48 + d)"

definition char_digit :: "char \<Rightarrow> nat option" where
  "char_digit c = (let n = of_char c in if 48 \<le> n \<and> n \<le> 57 then Some (n - 48) else None)"

fun nat_to_string :: "nat \<Rightarrow> string" where
  "nat_to_string n = (if n < 10 then [digit_char n] else nat_to_string (n div 10) @ [digit_char (n mod 10)])"

declare nat_to_string.simps [simp del]

definition int_to_string :: "int \<Rightarrow> string" where
  "int_to_string n = (if n < 0 then CHR ''-'' # nat_to_string (nat (- n)) else nat_to_string (nat n))"

fun digits_value :: "nat \<Rightarrow> string \<Rightarrow> nat option" where
  "digits_value acc [] = Some acc"
| "digits_value acc (c # cs) =
     (case char_digit c of None \<Rightarrow> None | Some d \<Rightarrow> digits_value (10 * acc + d) cs)"

text \<open>The sign and the digits of an integer's text; at least one digit.\<close>

fun parse_int :: "string \<Rightarrow> int option" where
  "parse_int [] = None"
| "parse_int (c # cs) =
     (if c = CHR ''-'' \<or> c = CHR ''+'' then
        if cs = [] then None
        else map_option (\<lambda>n. if c = CHR ''-'' then - int n else int n) (digits_value 0 cs)
      else map_option int (digits_value 0 (c # cs)))"

text \<open>\<open>str::parse::<i64>\<close>: a value out of range is an error.\<close>

definition parse_i64 :: "string \<Rightarrow> i64 option" where
  "parse_i64 s = Option.bind (parse_int s) checked"

section \<open>Facts\<close>

lemma char_digit_char [simp]: "d < 10 \<Longrightarrow> char_digit (digit_char d) = Some d"
  by (simp add: char_digit_def digit_char_def Let_def)

lemma digits_value_append:
  "digits_value acc (xs @ ys) = Option.bind (digits_value acc xs) (\<lambda>a. digits_value a ys)"
  by (induction xs arbitrary: acc) (auto split: option.splits)

lemma digits_value_nat_to_string [simp]:
  "digits_value acc (nat_to_string n) = Some (acc * 10 ^ length (nat_to_string n) + n)"
proof (induction n arbitrary: acc rule: nat_to_string.induct)
  case (1 n)
  show ?case
  proof (cases "n < 10")
    case False
    then show ?thesis
      using "1.IH" [OF False, of acc] unfolding nat_to_string.simps [of n]
      by (simp add: digits_value_append algebra_simps)
  qed (simp add: nat_to_string.simps [of n])
qed

lemma digits_value_zeros [simp]: "digits_value 0 (replicate k (CHR ''0'') @ cs) = digits_value 0 cs"
  by (induction k) (simp_all add: char_digit_def Let_def)

lemma digits_value_zero [simp]: "digits_value 0 (CHR ''0'' # cs) = digits_value 0 cs"
  by (simp add: char_digit_def Let_def)

text \<open>The characters of a printed number.\<close>

definition is_digit :: "char \<Rightarrow> bool" where
  "is_digit c \<longleftrightarrow> 48 \<le> (of_char c :: nat) \<and> (of_char c :: nat) \<le> 57"

lemma nat_to_string_digits: "c \<in> set (nat_to_string n) \<Longrightarrow> is_digit c"
proof (induction n rule: nat_to_string.induct)
  case (1 n)
  have d: "is_digit (digit_char k)" if "k < 10" for k
    using that by (simp add: is_digit_def digit_char_def)
  show ?case
    using "1" d [of n] d [of "n mod 10"]
    by (cases "n < 10") (auto simp: nat_to_string.simps [of n])
qed

lemma nat_to_string_ne [simp]: "nat_to_string n \<noteq> []"
  by (simp add: nat_to_string.simps [of n])

lemma length_nat_to_string_le:
  "0 < k \<Longrightarrow> length (nat_to_string n) \<le> k \<longleftrightarrow> n < 10 ^ k"
proof (induction n arbitrary: k rule: nat_to_string.induct)
  case (1 n)
  show ?case
  proof (cases "n < 10")
    case True
    have "10 ^ 1 \<le> (10 :: nat) ^ k" using "1.prems" by (intro power_increasing) simp_all
    then show ?thesis using True "1.prems" by (simp add: nat_to_string.simps [of n] Suc_le_eq)
  next
    case False
    show ?thesis
    proof (cases "k = 1")
      case True
      then show ?thesis using False by (simp add: nat_to_string.simps [of n])
    next
      case k: False
      then obtain j where j: "k = Suc j" "0 < j" using "1.prems" by (cases k) auto
      have "length (nat_to_string n) \<le> k \<longleftrightarrow> length (nat_to_string (n div 10)) \<le> j"
        using False by (simp add: nat_to_string.simps [of n] j(1))
      also have "\<dots> \<longleftrightarrow> n div 10 < 10 ^ j" by (rule "1.IH" [OF False j(2)])
      also have "\<dots> \<longleftrightarrow> n < 10 ^ k" by (auto simp: j(1) div_less_iff_less_mult)
      finally show ?thesis .
    qed
  qed
qed

lemma parse_int_digits:
  assumes "cs \<noteq> []" "\<And>c. c \<in> set cs \<Longrightarrow> is_digit c"
  shows "parse_int cs = map_option int (digits_value 0 cs)"
proof -
  obtain c cs' where c: "cs = c # cs'" using assms(1) by (cases cs) auto
  have "is_digit c" using assms(2) by (simp add: c)
  then have "c \<noteq> CHR ''-''" "c \<noteq> CHR ''+''" by (auto simp: is_digit_def)
  then show ?thesis by (simp add: c)
qed

lemma str_find_append:
  "c \<notin> set xs \<Longrightarrow> str_find c (xs @ c # ys) = Some (length xs)"
  by (induction xs) auto

lemma splitn2_append:
  "c \<notin> set xs \<Longrightarrow> splitn2 c (xs @ c # ys) = (xs, Some ys)"
  by (induction xs) (auto simp: splitn2_def)

lemma trim_id:
  assumes "s \<noteq> []" "\<not> is_whitespace (hd s)" "\<not> is_whitespace (last s)"
  shows "trim s = s"
proof -
  have "dropWhile is_whitespace s = s" using assms(1,2) by (cases s) simp_all
  moreover have "dropWhile is_whitespace (rev s) = rev s"
    using assms(1,3) by (cases "rev s") (simp_all add: last_rev [of "rev s", simplified] hd_rev [symmetric])
  ultimately show ?thesis by (simp add: trim_def)
qed

end
