(* ===== verification/Asset_Text.thy ===== *)
theory Asset_Text
  imports Assets Rust_Text
begin

text \<open>
  The text form of an asset: \<open>ToString\<close> and \<open>FromStr\<close> of \<open>asset/mod.rs\<close> with the errors of
  \<open>asset/error.rs\<close>, for both symbols the build chooses from, and exactly which assets survive the round trip.
\<close>

section \<open>Printing and parsing\<close>

definition ASSET_SYMBOL :: "'db ext \<Rightarrow> string" where
  "ASSET_SYMBOL X = (if testnet X then ''TEST'' else ''GRAEL'')"

datatype asset_error_kind = InvalidFormat | InvalidAssetType | InvalidAmount | StrTooLarge

text \<open>\<open>String::insert_str\<close> at a position of the string.\<close>

definition insert_str :: "nat \<Rightarrow> string \<Rightarrow> string \<Rightarrow> string" where
  "insert_str i t s = take i s @ t @ drop i s"

definition Asset_to_string :: "'db ext \<Rightarrow> asset \<Rightarrow> string" where
  "Asset_to_string X self =
     (let s = int_to_string (sint (amount self));
          len = length s;
          s = (if len < unat MAX_PRECISION then
                 let start = (if sint (amount self) < 0 then 1 else 0);
                     diff = unat MAX_PRECISION - len + start;
                     s = insert_str start ''0.'' s
                 in insert_str (start + 2) (replicate diff (CHR ''0'')) s
               else if len = unat MAX_PRECISION then insert_str 0 ''0.'' s
               else insert_str (len - unat MAX_PRECISION) ''.'' s)
      in s @ '' '' @ ASSET_SYMBOL X)"

definition Asset_from_str :: "'db ext \<Rightarrow> string \<Rightarrow> asset_error_kind + asset" where
  "Asset_from_str X s =
     (if length s > MAX_STR_LEN then Inl StrTooLarge
      else
        case splitn2 (CHR '' '') (trim s) of (x, rest) \<Rightarrow>
          and_then (case str_find (CHR ''.'') x of
              Some pos \<Rightarrow>
                let decimals = (let len = length x - 1
                                in if pos > 0 then of_nat (len - pos) else of_nat len :: u8)
                in if decimals \<noteq> MAX_PRECISION then Inl InvalidFormat
                   else ok_or (parse_i64 (filter (\<lambda>c. c \<noteq> CHR ''.'') x)) InvalidAmount
            | None \<Rightarrow> Inl InvalidFormat) (\<lambda>amount.
          case rest of
            Some x \<Rightarrow> if x \<noteq> ASSET_SYMBOL X then Inl InvalidAssetType else Inr (Asset amount)
          | None \<Rightarrow> Inl InvalidFormat))"

section \<open>The round trip\<close>

lemma symbol_length [simp]: "length (ASSET_SYMBOL X) = (if testnet X then 4 else 5)"
  by (simp add: ASSET_SYMBOL_def)

lemma MAX_PRECISION_nat [simp]: "unat MAX_PRECISION = 5" "MAX_PRECISION = 5"
  by (simp_all add: MAX_PRECISION_def)

text \<open>Text made of an integer part, a point and five more characters parses to the number its
  characters spell without the point.\<close>

definition plain :: "char \<Rightarrow> bool" where
  "plain c \<longleftrightarrow> is_digit c \<or> c = CHR ''-''"

lemma plain_chars: "plain c \<Longrightarrow> c \<noteq> CHR ''.'' \<and> c \<noteq> CHR '' '' \<and> \<not> is_whitespace c"
  by (auto simp: plain_def is_digit_def is_whitespace_def)

lemma from_str_decimal:
  assumes "\<And>c. c \<in> set xs \<union> set ys \<Longrightarrow> plain c" "length ys = 5" "length xs + length (ASSET_SYMBOL X) \<le> 19"
  shows "Asset_from_str X (xs @ ''.'' @ ys @ '' '' @ ASSET_SYMBOL X) =
    (case parse_i64 (xs @ ys) of None \<Rightarrow> Inl InvalidAmount | Some a \<Rightarrow> Inr (Asset a))"
proof -
  let ?s = "xs @ ''.'' @ ys @ '' '' @ ASSET_SYMBOL X"
  have nd: "CHR ''.'' \<notin> set xs" "CHR ''.'' \<notin> set ys" "CHR '' '' \<notin> set xs" "CHR '' '' \<notin> set ys"
    using assms(1) plain_chars by blast+
  have "\<not> is_whitespace (hd ?s)"
    using assms(1) plain_chars by (cases xs) (auto simp: is_whitespace_def)
  then have t: "trim ?s = ?s"
    by (intro trim_id) (simp_all add: ASSET_SYMBOL_def is_whitespace_def)
  have sp: "splitn2 (CHR '' '') ?s = (xs @ ''.'' @ ys, Some (ASSET_SYMBOL X))"
    using splitn2_append [of "CHR '' ''" "xs @ ''.'' @ ys" "ASSET_SYMBOL X"] nd by simp
  have f: "str_find (CHR ''.'') (xs @ ''.'' @ ys) = Some (length xs)"
    using str_find_append [OF nd(1), of ys] by simp
  have flt: "filter (\<lambda>c. c \<noteq> CHR ''.'') (xs @ ''.'' @ ys) = xs @ ys"
  proof -
    have "filter (\<lambda>c. c \<noteq> CHR ''.'') xs = xs" "filter (\<lambda>c. c \<noteq> CHR ''.'') ys = ys"
      using nd(1,2) by (auto intro!: filter_True)
    then show ?thesis by simp
  qed
  have "length ?s \<le> MAX_STR_LEN"
    using assms(2,3) by (simp add: MAX_STR_LEN_def)
  then have n: "\<not> MAX_STR_LEN < length ?s" by simp
  have l: "length (xs @ ''.'' @ ys) - 1 = length xs + 5" using assms(2) by simp
  show ?thesis
    unfolding Asset_from_str_def t sp prod.case f option.case flt Let_def l if_not_P [OF n]
    by (cases "parse_i64 (xs @ ys)") (simp_all add: ok_or_def and_then_def)
qed

text \<open>The printed number and its parts.\<close>

lemma parse_signed:
  assumes "ds \<noteq> []" "\<And>c. c \<in> set ds \<Longrightarrow> is_digit c"
  shows "parse_int (CHR ''-'' # ds) = map_option (\<lambda>n. - int n) (digits_value 0 ds)"
  using assms by simp

lemma parse_i64_padded:
  "parse_i64 (replicate k (CHR ''0'') @ nat_to_string n) = checked (int n)"
  "parse_i64 (CHR ''-'' # replicate k (CHR ''0'') @ nat_to_string n) = checked (- int n)"
proof -
  have "parse_int (replicate k (CHR ''0'') @ nat_to_string n) = Some (int n)"
    by (subst parse_int_digits) (auto dest: nat_to_string_digits, simp add: is_digit_def)
  then show "parse_i64 (replicate k (CHR ''0'') @ nat_to_string n) = checked (int n)"
    by (simp add: parse_i64_def)
qed (simp add: parse_i64_def)

lemma checked_sint: "checked (sint (w :: i64)) = Some w"
  using fits_sint [of w] by (simp add: checked_def)

lemma abs_i64_length:
  "n \<le> 2 ^ 63 \<Longrightarrow> length (nat_to_string n) \<le> 19"
  by (subst length_nat_to_string_le) simp_all

lemma digits_plain: "c \<in> set (nat_to_string n) \<Longrightarrow> plain c"
  by (simp add: nat_to_string_digits plain_def)

lemma zero_plain: "plain (CHR ''0'')" "plain (CHR ''-'')"
  by (simp_all add: plain_def is_digit_def)

lemma set_take_drop: "c \<in> set (take k xs) \<union> set (drop k xs) \<Longrightarrow> c \<in> set xs"
  by (auto dest: in_set_takeD in_set_dropD)

lemma from_str_via:
  assumes "Asset_to_string X a = xs @ ''.'' @ ys @ '' '' @ ASSET_SYMBOL X"
    and "\<And>c. c \<in> set xs \<union> set ys \<Longrightarrow> plain c" "length ys = 5" "length xs + length (ASSET_SYMBOL X) \<le> 19" "parse_i64 (xs @ ys) = r"
  shows "Asset_from_str X (Asset_to_string X a) =
    (case r of None \<Rightarrow> Inl InvalidAmount | Some w \<Rightarrow> Inr (Asset w))"
  using from_str_decimal [OF assms(2-4)] by (simp only: assms(1,5))

lemma from_str_via_amount:
  assumes "Asset_to_string X a = xs @ ''.'' @ ys @ '' '' @ ASSET_SYMBOL X"
    and "\<And>c. c \<in> set xs \<union> set ys \<Longrightarrow> plain c" "length ys = 5" "length xs + length (ASSET_SYMBOL X) \<le> 19"
    and "parse_i64 (xs @ ys) = Some (amount a)"
  shows "Asset_from_str X (Asset_to_string X a) = Inr a"
  using from_str_via [OF assms] by simp

lemma from_str_to_string_nonneg:
  assumes "0 \<le> sint (amount a)"
  shows "Asset_from_str X (Asset_to_string X a) = Inr a"
proof -
  define n where "n = nat (sint (amount a))"
  define ds where "ds = nat_to_string n"
  have n: "sint (amount a) = int n" using assms by (simp add: n_def)
  have "n < 2 ^ 63" using sint_lt [of "amount a"] by (simp add: n_def)
  then have L: "length ds \<le> 19" by (simp add: ds_def abs_i64_length)
  have c: "checked (int n) = Some (amount a)" using checked_sint [of "amount a"] by (simp add: n)
  note e = Asset_to_string_def Let_def int_to_string_def n insert_str_def
  consider "length ds < 5" | "length ds = 5" | "5 < length ds" by linarith
  then show ?thesis
  proof cases
    case 1
    show ?thesis
    proof (rule from_str_via_amount)
      show "Asset_to_string X a = ''0'' @ ''.'' @ (replicate (5 - length ds) (CHR ''0'') @ ds) @ '' '' @ ASSET_SYMBOL X"
        using 1 by (simp add: e flip: ds_def)
      show "parse_i64 (''0'' @ replicate (5 - length ds) (CHR ''0'') @ ds) = Some (amount a)"
        using c parse_i64_padded(1) [of "Suc (5 - length ds)" n] by (simp add: ds_def)
    qed (use 1 in \<open>auto simp: ds_def digits_plain zero_plain\<close>)
  next
    case 2
    show ?thesis
    proof (rule from_str_via_amount)
      show "Asset_to_string X a = ''0'' @ ''.'' @ ds @ '' '' @ ASSET_SYMBOL X"
        using 2 by (simp add: e flip: ds_def)
      show "parse_i64 (''0'' @ ds) = Some (amount a)"
        using c parse_i64_padded(1) [of 1 n] by (simp add: ds_def)
    qed (use 2 in \<open>auto simp: ds_def digits_plain zero_plain\<close>)
  next
    case 3
    let ?k = "length ds - 5"
    show ?thesis
    proof (rule from_str_via_amount)
      show "Asset_to_string X a = take ?k ds @ ''.'' @ drop ?k ds @ '' '' @ ASSET_SYMBOL X"
        using 3 by (simp add: e flip: ds_def)
      show "parse_i64 (take ?k ds @ drop ?k ds) = Some (amount a)"
        using c parse_i64_padded(1) [of 0 n] by (simp add: ds_def)
      show "plain c" if "c \<in> set (take ?k ds) \<union> set (drop ?k ds)" for c
        using set_take_drop [OF that] by (simp add: ds_def digits_plain)
    qed (use 3 L in auto)
  qed
qed

lemma from_str_to_string_neg:
  assumes "sint (amount a) < 0"
  shows "Asset_from_str X (Asset_to_string X a) =
    (if - 9999 \<le> sint (amount a) \<and> sint (amount a) \<le> - 1000 then Inl InvalidAmount
     else if sint (amount a) \<le> - (10 ^ 18) \<and> \<not> testnet X then Inl StrTooLarge else Inr a)"
proof -
  define n where "n = nat (- sint (amount a))"
  define ds where "ds = nat_to_string n"
  have n: "sint (amount a) = - int n" using assms by (simp add: n_def)
  have pos: "0 < n" using assms by (simp add: n_def)
  have "n \<le> 2 ^ 63" using sint_ge [of "amount a"] by (simp add: n_def)
  then have L: "length ds \<le> 19" by (simp add: ds_def abs_i64_length)
  have c: "checked (- int n) = Some (amount a)" using checked_sint [of "amount a"] by (simp add: n)
  have l3: "length ds \<le> 3 \<longleftrightarrow> n < 1000" and l4: "length ds \<le> 4 \<longleftrightarrow> n < 10000"
    and l18: "length ds \<le> 18 \<longleftrightarrow> n < 10 ^ 18"
    using length_nat_to_string_le [of 3 n] length_nat_to_string_le [of 4 n] length_nat_to_string_le [of 18 n]
    by (simp_all add: ds_def)
  have s: "int_to_string (sint (amount a)) = CHR ''-'' # ds"
    using pos by (simp add: int_to_string_def n ds_def)
  note e = Asset_to_string_def Let_def s insert_str_def
  note neg = assms
  consider "length ds \<le> 3" | "length ds = 4" | "5 \<le> length ds" "length ds \<le> 18 \<or> testnet X" | "length ds = 19" "\<not> testnet X"
    using L by linarith
  then show ?thesis
  proof cases
    case 1
    have "Asset_from_str X (Asset_to_string X a) = Inr a"
    proof (rule from_str_via_amount)
      show "Asset_to_string X a =
          ''-0'' @ ''.'' @ (replicate (5 - length ds) (CHR ''0'') @ ds) @ '' '' @ ASSET_SYMBOL X"
        using 1 neg by (simp add: e)
      show "parse_i64 (''-0'' @ replicate (5 - length ds) (CHR ''0'') @ ds) = Some (amount a)"
        using c parse_i64_padded(2) [of "Suc (5 - length ds)" n] by (simp add: ds_def)
    qed (use 1 in \<open>auto simp: ds_def digits_plain zero_plain\<close>)
    then show ?thesis using 1 l3 by (simp add: n)
  next
    case 2
    have "Asset_from_str X (Asset_to_string X a) =
        (case None of None \<Rightarrow> Inl InvalidAmount | Some w \<Rightarrow> Inr (Asset w))"
    proof (rule from_str_via)
      show "Asset_to_string X a = ''0'' @ ''.'' @ (CHR ''-'' # ds) @ '' '' @ ASSET_SYMBOL X"
        using 2 neg by (simp add: e)
      show "parse_i64 (''0'' @ CHR ''-'' # ds) = None"
        by (simp add: parse_i64_def char_digit_def Let_def)
    qed (use 2 in \<open>auto simp: ds_def digits_plain zero_plain\<close>)
    then show ?thesis using 2 l3 l4 by (simp add: n)
  next
    case 3
    let ?k = "length ds - 5"
    have k: "length ds - 4 = Suc ?k" using 3(1) by simp
    have "Asset_from_str X (Asset_to_string X a) = Inr a"
    proof (rule from_str_via_amount)
      show "Asset_to_string X a = (CHR ''-'' # take ?k ds) @ ''.'' @ drop ?k ds @ '' '' @ ASSET_SYMBOL X"
        using 3 neg by (simp add: e k)
      show "parse_i64 ((CHR ''-'' # take ?k ds) @ drop ?k ds) = Some (amount a)"
        using c parse_i64_padded(2) [of 0 n] by (simp add: ds_def)
      show "plain c" if "c \<in> set (CHR ''-'' # take ?k ds) \<union> set (drop ?k ds)" for c
        using that set_take_drop [of c ?k ds] zero_plain(2) by (auto simp: ds_def digits_plain)
    qed (use 3 L in auto)
    moreover have "\<not> n < 10000" "n < 10 ^ 18 \<or> testnet X" using 3 l4 l18 by auto
    ultimately show ?thesis by (auto simp: n)
  next
    case 4
    have "length (Asset_to_string X a) = 27"
      using 4 neg by (simp add: e)
    moreover have "\<not> n < 10000" "\<not> n < 10 ^ 18" using 4 l4 l18 by simp_all
    ultimately show ?thesis
      using 4(2) by (simp add: Asset_from_str_def MAX_STR_LEN_def n)
  qed
qed

end
