(* ===== verification/Crypto.thy ===== *)
theory Crypto
  imports Prelude
begin

text \<open>
  \<open>crypto/mod.rs\<close>, \<open>crypto/key.rs\<close> and \<open>crypto/sigpair.rs\<close>: digests, keys and
  signatures as wrapped byte strings of libsodium's lengths, the double SHA-256 in its one-shot
  and streaming forms, signing and verification.  The hash and the signature scheme are
  parameters (\<^typ>\<open>'db ext\<close>).
\<close>

section \<open>Digests and signatures\<close>

datatype digest = Digest (digest_bytes: bytes)

datatype signature = Signature (signature_bytes: bytes)

definition DIGESTBYTES :: nat where "DIGESTBYTES = 32"
definition PUBLICKEYBYTES :: nat where "PUBLICKEYBYTES = 32"
definition SECRETKEYBYTES :: nat where "SECRETKEYBYTES = 64"
definition SEEDBYTES :: nat where "SEEDBYTES = 32"
definition SIGNATUREBYTES :: nat where "SIGNATUREBYTES = 64"

lemmas size_constants =
  DIGESTBYTES_def PUBLICKEYBYTES_def SECRETKEYBYTES_def SEEDBYTES_def SIGNATUREBYTES_def

definition digest_from_slice :: "bytes \<Rightarrow> digest option" where
  "digest_from_slice sl = (if length sl = DIGESTBYTES then Some (Digest sl) else None)"

definition signature_from_slice :: "bytes \<Rightarrow> signature option" where
  "signature_from_slice sl =
     (if length sl = SIGNATUREBYTES then Some (Signature sl) else None)"

definition wf_digest :: "digest \<Rightarrow> bool" where
  "wf_digest d \<longleftrightarrow> length (digest_bytes d) = DIGESTBYTES"

definition wf_signature :: "signature \<Rightarrow> bool" where
  "wf_signature s \<longleftrightarrow> length (signature_bytes s) = SIGNATUREBYTES"

section \<open>Hashing\<close>

definition double_sha256 :: "'db ext \<Rightarrow> bytes \<Rightarrow> digest" where
  "double_sha256 X buf = Digest (sha256_hash X (sha256_hash X buf))"

datatype double_sha256_state = DoubleSha256 (hasher_state: bytes)

definition DoubleSha256_new :: "'db ext \<Rightarrow> double_sha256_state" where
  "DoubleSha256_new X = DoubleSha256 (sha256_new X)"

definition DoubleSha256_update :: "'db ext \<Rightarrow> double_sha256_state \<Rightarrow> bytes \<Rightarrow> double_sha256_state" where
  "DoubleSha256_update X h data = DoubleSha256 (sha256_update X (hasher_state h) data)"

definition DoubleSha256_finalize :: "'db ext \<Rightarrow> double_sha256_state \<Rightarrow> digest" where
  "DoubleSha256_finalize X h =
     (let digest = sha256_finalize X (hasher_state h);
          digest = sha256_hash X digest
      in Digest digest)"

lemma DoubleSha256_foldl:
  "foldl (DoubleSha256_update X) (DoubleSha256 st) chunks =
     DoubleSha256 (foldl (sha256_update X) st chunks)"
  by (induction chunks arbitrary: st) (simp_all add: DoubleSha256_update_def)

lemma double_sha256_streaming:
  assumes "sha256_ok X"
  shows "DoubleSha256_finalize X (foldl (DoubleSha256_update X) (DoubleSha256_new X) chunks) =
           double_sha256 X (concat chunks)"
  using assms
  by (simp add: DoubleSha256_new_def DoubleSha256_foldl DoubleSha256_finalize_def
      double_sha256_def sha256_ok_def)

lemma wf_double_sha256: "sha256_ok X \<Longrightarrow> wf_digest (double_sha256 X buf)"
  by (simp add: wf_digest_def double_sha256_def sha256_ok_def size_constants)

section \<open>Keys\<close>

datatype public_key = PublicKey (pk_bytes: bytes)

record private_key =
  seed :: bytes
  key :: bytes

datatype key_pair = KeyPair (kp_public: public_key) (kp_private: private_key)

record sig_pair =
  pub_key :: public_key
  sp_signature :: signature

definition wf_public_key :: "public_key \<Rightarrow> bool" where
  "wf_public_key k \<longleftrightarrow> length (pk_bytes k) = PUBLICKEYBYTES"

definition wf_sig_pair :: "sig_pair \<Rightarrow> bool" where
  "wf_sig_pair p \<longleftrightarrow> wf_public_key (pub_key p) \<and> wf_signature (sp_signature p)"

definition PublicKey_from_slice :: "bytes \<Rightarrow> public_key option" where
  "PublicKey_from_slice bytes =
     (if length bytes = PUBLICKEYBYTES then Some (PublicKey bytes) else None)"

definition PrivateKey_from_slice :: "bytes \<Rightarrow> bytes \<Rightarrow> private_key option" where
  "PrivateKey_from_slice s k =
     (if length s = SEEDBYTES then
        if length k = SECRETKEYBYTES then Some \<lparr>seed = s, key = k\<rparr> else None
      else None)"

definition PublicKey_verify :: "'db ext \<Rightarrow> public_key \<Rightarrow> bytes \<Rightarrow> signature \<Rightarrow> bool" where
  "PublicKey_verify X k msg sig = verify_detached X (signature_bytes sig) msg (pk_bytes k)"

definition PrivateKey_sign :: "'db ext \<Rightarrow> private_key \<Rightarrow> bytes \<Rightarrow> signature" where
  "PrivateKey_sign X k msg = Signature (sign_detached X msg (key k))"

definition KeyPair_sign :: "'db ext \<Rightarrow> key_pair \<Rightarrow> bytes \<Rightarrow> sig_pair" where
  "KeyPair_sign X kp msg =
     \<lparr>pub_key = kp_public kp, sp_signature = PrivateKey_sign X (kp_private kp) msg\<rparr>"

definition KeyPair_verify :: "'db ext \<Rightarrow> key_pair \<Rightarrow> bytes \<Rightarrow> signature \<Rightarrow> bool" where
  "KeyPair_verify X kp msg sig = PublicKey_verify X (kp_public kp) msg sig"

text \<open>\<open>gen\<close>: \<open>rnd\<close> stands for the 32 random bytes; an all-zero seed panics.\<close>

definition KeyPair_gen :: "'db ext \<Rightarrow> bytes \<Rightarrow> 'e fail + key_pair" where
  "KeyPair_gen X rnd =
     (if rnd = replicate SEEDBYTES 0 then Inl Panic
      else case keypair_from_seed X rnd of (pk, sk) \<Rightarrow>
        Inr (KeyPair (PublicKey pk) \<lparr>seed = rnd, key = sk\<rparr>))"

definition SigPair_verify :: "'db ext \<Rightarrow> sig_pair \<Rightarrow> bytes \<Rightarrow> bool" where
  "SigPair_verify X p msg =
     verify_detached X (signature_bytes (sp_signature p)) msg (pk_bytes (pub_key p))"

text \<open>The key pairs of a node: built from a seed by \<open>keypair_from_seed\<close>.\<close>

definition wf_key_pair :: "'db ext \<Rightarrow> key_pair \<Rightarrow> bool" where
  "wf_key_pair X kp \<longleftrightarrow> length (seed (kp_private kp)) = SEEDBYTES \<and>
     keypair_from_seed X (seed (kp_private kp)) = (pk_bytes (kp_public kp), key (kp_private kp))"

lemma KeyPair_gen_wf:
  assumes "KeyPair_gen X rnd = Inr kp" "length rnd = SEEDBYTES"
  shows "wf_key_pair X kp"
  using assms by (auto simp: KeyPair_gen_def wf_key_pair_def split: if_splits prod.splits)

lemma KeyPair_sign_verifies:
  assumes "sign_ok X" "wf_key_pair X kp"
  shows "SigPair_verify X (KeyPair_sign X kp msg) msg"
  using assms
  by (fastforce simp: SigPair_verify_def KeyPair_sign_def PrivateKey_sign_def wf_key_pair_def
      sign_ok_def size_constants)

lemma wf_KeyPair_sign:
  assumes "sign_ok X" "wf_key_pair X kp"
  shows "wf_sig_pair (KeyPair_sign X kp msg)"
  using assms
  by (fastforce simp: wf_sig_pair_def wf_public_key_def wf_signature_def KeyPair_sign_def
      PrivateKey_sign_def wf_key_pair_def sign_ok_def size_constants)

lemma SigPair_verify_PublicKey:
  "SigPair_verify X p msg = PublicKey_verify X (pub_key p) msg (sp_signature p)"
  by (simp add: SigPair_verify_def PublicKey_verify_def)

end
