(* ===== verification/Serializer.thy ===== *)
theory Serializer
  imports Crypto Assets
begin

text \<open>
  \<open>serializer.rs\<close>: the \<open>BufWrite\<close> and \<open>BufRead\<close> traits.  A writer is the bytes it appends,
  a reader a function from the unread part of the cursor to an I/O error or a value and the new
  unread part.  Every \<open>push\<close>/\<open>take\<close> pair is shown to meet the contract \<open>io_codec\<close>.
\<close>

unbundle bit_operations_syntax

datatype io_error = UnexpectedEof | OtherErr string | InvalidData string

type_synonym 'a reader = "bytes \<Rightarrow> io_error + ('a \<times> bytes)"

text \<open>\<open>Read::read_exact\<close> into a buffer of \<open>n\<close> bytes.\<close>

definition read_exact :: "nat \<Rightarrow> bytes reader" where
  "read_exact n cur = (if n \<le> length cur then Inr (take n cur, drop n cur) else Inl UnexpectedEof)"

lemma read_exact_append [simp, codec_simps]:
  "length bs = n \<Longrightarrow> read_exact n (bs @ rest) = Inr (bs, rest)"
  by (simp add: read_exact_def)

lemma read_exact_Inr:
  "read_exact n cur = Inr (bs, rest) \<longleftrightarrow> cur = bs @ rest \<and> length bs = n"
  by (auto simp: read_exact_def)

section \<open>Zigzag\<close>

definition zigzag_encode :: "i64 \<Rightarrow> u64" where
  "zigzag_encode v = push_bit 1 v XOR signed_drop_bit 63 v"

definition zigzag_decode :: "u64 \<Rightarrow> i64" where
  "zigzag_decode v = drop_bit 1 v XOR - (v AND 1)"

section \<open>Writing\<close>

definition push_u8 :: "u8 \<Rightarrow> bytes" where "push_u8 value = [value]"
definition push_u16 :: "u16 \<Rightarrow> bytes" where "push_u16 value = be_bytes 2 value"
definition push_u32 :: "u32 \<Rightarrow> bytes" where "push_u32 value = be_bytes 4 value"
definition push_i64 :: "i64 \<Rightarrow> bytes" where "push_i64 value = be_bytes 8 value"
definition push_u64 :: "u64 \<Rightarrow> bytes" where "push_u64 value = be_bytes 8 value"

lemma length_push [simp]:
  "length (push_u16 a) = 2" "length (push_u32 b) = 4" "length (push_i64 c) = 8" "length (push_u64 d) = 8"
  by (simp_all add: push_u16_def push_u32_def push_i64_def push_u64_def)

text \<open>The loop of \<open>push_var_i64\<close>: seven bits a byte, low bits first, the top bit set on every byte
  but the last.\<close>

function push_var_loop :: "u64 \<Rightarrow> bytes" where
  "push_var_loop num =
     (let byte = ucast (num AND 0x7F) :: u8;
          num = drop_bit 7 num
      in if num = 0 then [byte] else (byte OR 0x80) # push_var_loop num)"
  by pat_completeness auto
termination
proof (relation "measure unat", simp)
  fix num x :: u64
  assume "x = drop_bit 7 num" "x \<noteq> 0"
  then have "unat x = unat num div 128" and "unat x \<noteq> 0"
    by (simp add: drop_bit_eq_div unat_div, simp only: unat_eq_0 not_False_eq_True)
  then show "(x, num) \<in> measure unat" by simp
qed

declare push_var_loop.simps [simp del]

definition push_var_i64 :: "i64 \<Rightarrow> bytes" where
  "push_var_i64 value = push_var_loop (zigzag_encode value)"

definition push_bytes :: "bytes \<Rightarrow> bytes" where
  "push_bytes value =
     (if value = [] then push_u32 0 else push_u32 (of_nat (length value)) @ value)"

definition push_digest :: "digest \<Rightarrow> bytes" where
  "push_digest value = digest_bytes value"

definition push_pub_key :: "public_key \<Rightarrow> bytes" where
  "push_pub_key value = pk_bytes value"

definition push_sig_pair :: "sig_pair \<Rightarrow> bytes" where
  "push_sig_pair value = push_pub_key (pub_key value) @ signature_bytes (sp_signature value)"

definition push_asset :: "asset \<Rightarrow> bytes" where
  "push_asset value = push_var_i64 (amount value)"

section \<open>Reading\<close>

definition take_u8 :: "u8 reader" where
  "take_u8 cur = and_then (read_exact 1 cur) (\<lambda>(buf, cur). Inr (buf ! 0, cur))"

definition take_u16 :: "u16 reader" where
  "take_u16 cur = and_then (read_exact 2 cur) (\<lambda>(buf, cur). Inr (from_be buf, cur))"

definition take_u32 :: "u32 reader" where
  "take_u32 cur = and_then (read_exact 4 cur) (\<lambda>(buf, cur). Inr (from_be buf, cur))"

definition take_i64 :: "i64 reader" where
  "take_i64 cur = and_then (read_exact 8 cur) (\<lambda>(buf, cur). Inr (from_be buf, cur))"

definition take_u64 :: "u64 reader" where
  "take_u64 cur = and_then (read_exact 8 cur) (\<lambda>(buf, cur). Inr (from_be buf, cur))"

text \<open>The loop of \<open>take_var_i64\<close>, on its variables \<open>result\<close> and \<open>shift\<close>.\<close>

function take_var_loop :: "u64 \<Rightarrow> nat \<Rightarrow> u64 reader" where
  "take_var_loop result shift cur =
     (if shift > 63 then Inl (OtherErr ''overflow taking varint'')
      else and_then (read_exact 1 cur) (\<lambda>(buf, cur).
        let byte = buf ! 0;
            result = result OR push_bit shift (ucast (byte AND 0x7F))
        in if byte AND 0x80 = 0 then Inr (result, cur)
           else take_var_loop result (shift + 7) cur))"
  by pat_completeness auto
termination
  by (relation "measure (\<lambda>(result, shift, cur). 64 - shift)") auto

declare take_var_loop.simps [simp del]

definition take_var_i64 :: "i64 reader" where
  "take_var_i64 cur =
     and_then (take_var_loop 0 0 cur) (\<lambda>(result, cur). Inr (zigzag_decode result, cur))"

definition take_bytes :: "bytes reader" where
  "take_bytes cur = and_then (take_u32 cur) (\<lambda>(len, cur). read_exact (unat len) cur)"

definition take_digest :: "digest reader" where
  "take_digest cur = and_then (read_exact DIGESTBYTES cur) (\<lambda>(buf, cur).
     and_then (ok_or (digest_from_slice buf) (OtherErr ''digest length'')) (\<lambda>d. Inr (d, cur)))"

definition take_pub_key :: "public_key reader" where
  "take_pub_key cur = and_then (read_exact PUBLICKEYBYTES cur) (\<lambda>(buf, cur).
     and_then (ok_or (PublicKey_from_slice buf) (OtherErr ''incorrect public key length''))
       (\<lambda>k. Inr (k, cur)))"

definition take_sig_pair :: "sig_pair reader" where
  "take_sig_pair cur =
     and_then (take_pub_key cur) (\<lambda>(pub_key, cur).
     and_then (read_exact SIGNATUREBYTES cur) (\<lambda>(buf, cur).
     and_then (ok_or (signature_from_slice buf) (OtherErr ''incorrect signature length''))
       (\<lambda>sig. Inr (\<lparr>pub_key = pub_key, sp_signature = sig\<rparr>, cur))))"

definition take_asset :: "asset reader" where
  "take_asset cur = and_then (take_var_i64 cur) (\<lambda>(amount, cur). Inr (Asset amount, cur))"

section \<open>Round trips\<close>

lemma bit_zigzag_encode:
  "bit (zigzag_encode v) n \<longleftrightarrow> n < 64 \<and> ((0 < n \<and> bit v (n - 1)) \<noteq> bit v 63)"
proof -
  have "signed_drop_bit 63 v = (if bit v 63 then - 1 else 0)"
    by (rule bit_word_eqI) (auto simp: bit_simps Suc_le_eq)
  then show ?thesis
    unfolding zigzag_encode_def
    by (simp only: bit_xor_iff bit_push_bit_iff) (auto simp: bit_simps dest: bit_imp_le_length)
qed

lemma bit_zigzag_decode:
  "bit (zigzag_decode w) n \<longleftrightarrow> n < 64 \<and> (bit w (Suc n) \<noteq> bit w 0)"
proof -
  have "- (w AND 1) = (if bit w 0 then - 1 else 0)"
    by (simp add: and_one_eq bit_0 odd_iff_mod_2_eq_one)
  then show ?thesis
    unfolding zigzag_decode_def
    by (simp only: bit_xor_iff bit_drop_bit_eq) (auto simp: bit_simps dest: bit_imp_le_length)
qed

lemma zigzag_decode_encode [simp]: "zigzag_decode (zigzag_encode v) = v"
proof (rule bit_word_eqI)
  fix n assume "n < LENGTH(64)"
  then show "bit (zigzag_decode (zigzag_encode v)) n = bit v n"
    by (cases "n = 63") (auto simp: bit_zigzag_decode bit_zigzag_encode)
qed

lemma zigzag_encode_decode [simp]: "zigzag_encode (zigzag_decode v) = v"
proof (rule bit_word_eqI)
  fix n assume "n < LENGTH(64)"
  then show "bit (zigzag_encode (zigzag_decode v)) n = bit v n"
    by (cases n) (auto simp: bit_zigzag_decode bit_zigzag_encode dest: bit_imp_le_length)
qed

text \<open>A value that still has bits left after seven needs at least eight.\<close>

lemma drop_bit_7_nonzero:
  fixes num :: u64
  assumes "take_bit n num = num" "drop_bit 7 num \<noteq> 0"
  shows "7 < n"
proof (rule ccontr)
  assume "\<not> 7 < n"
  then have "drop_bit 7 (take_bit n num) = 0"
    by (intro bit_word_eqI) (auto simp: bit_simps)
  then show False using assms by simp
qed

text \<open>The bit facts of one byte: the payload and the continuation flag.\<close>

lemma varint_masks: "(127 :: u64) = mask 7" "(127 :: u8) = mask 7"
  by (simp_all add: mask_eq_exp_minus_1)

lemma bit_continuation:
  "bit (128 :: u8) n \<longleftrightarrow> n = 7" "bit (128 :: u64) n \<longleftrightarrow> n = 7" "bit (128 :: int) n \<longleftrightarrow> n = 7"
proof -
  have "bit (2 ^ 7 :: u8) n \<longleftrightarrow> n = 7" "bit (2 ^ 7 :: u64) n \<longleftrightarrow> n = 7"
    "bit (2 ^ 7 :: int) n \<longleftrightarrow> n = 7"
    by (simp only: bit_exp_iff, force)+
  then show "bit (128 :: u8) n \<longleftrightarrow> n = 7" "bit (128 :: u64) n \<longleftrightarrow> n = 7"
    "bit (128 :: int) n \<longleftrightarrow> n = 7"
    by simp_all
qed

lemma varint_byte:
  fixes num :: u64
  shows "(ucast (num AND 127) :: u8) AND 127 = ucast (num AND 127)"
    and "(ucast (num AND 127) :: u8) AND 128 = 0"
    and "((ucast (num AND 127) :: u8) OR 128) AND 127 = ucast (num AND 127)"
    and "((ucast (num AND 127) :: u8) OR 128) AND 128 \<noteq> 0"
    and "(ucast (ucast (num AND 127) :: u8) :: u64) = take_bit 7 num"
proof -
  show "(ucast (num AND 127) :: u8) AND 127 = ucast (num AND 127)"
    unfolding varint_masks by (rule bit_word_eqI) (auto simp: bit_simps)
  show "(ucast (num AND 127) :: u8) AND 128 = 0"
    unfolding varint_masks by (rule bit_word_eqI) (simp add: bit_simps bit_continuation)
  show "((ucast (num AND 127) :: u8) OR 128) AND 127 = ucast (num AND 127)"
    unfolding varint_masks by (rule bit_word_eqI) (auto simp: bit_simps bit_continuation)
  show "(ucast (ucast (num AND 127) :: u8) :: u64) = take_bit 7 num"
    unfolding varint_masks by (rule bit_word_eqI) (auto simp: bit_simps bit_continuation)
  show "((ucast (num AND 127) :: u8) OR 128) AND 128 \<noteq> 0"
  proof
    assume "((ucast (num AND 127) :: u8) OR 128) AND 128 = 0"
    then have "bit (((ucast (num AND 127) :: u8) OR 128) AND 128) 7 = bit (0 :: u8) 7" by simp
    then show False unfolding varint_masks by (simp add: bit_simps bit_continuation)
  qed
qed

lemma take_var_loop_push:
  "shift \<le> 63 \<Longrightarrow> take_bit (64 - shift) num = num \<Longrightarrow>
    take_var_loop result shift (push_var_loop num @ rest) = Inr (result OR push_bit shift num, rest)"
proof (induction num arbitrary: result shift rule: push_var_loop.induct)
  case (1 num)
  show ?case
  proof (cases "drop_bit 7 num = 0")
    case True
    have "take_bit 7 num = num"
      using bits_ident [of 7 num] True by simp
    then show ?thesis
      using True 1(2)
      by (subst push_var_loop.simps, subst take_var_loop.simps)
        (simp add: Let_def read_exact_def varint_byte)
  next
    case False
    have s: "shift + 7 \<le> 63"
      using drop_bit_7_nonzero [OF 1(3) False] 1(2) by simp
    have t: "take_bit (64 - (shift + 7)) (drop_bit 7 num) = drop_bit 7 num"
      using 1(3) s by (metis (no_types, lifting) Nat.diff_diff_right add.commute
          add_diff_inverse_nat diff_diff_left drop_bit_take_bit take_bit_drop_bit)
    have j: "(result OR push_bit shift (take_bit 7 num)) OR push_bit (shift + 7) (drop_bit 7 num)
        = result OR push_bit shift num"
    proof (rule bit_word_eqI)
      fix n :: nat
      have "7 + (n - (shift + 7)) = n - shift" if "\<not> n - shift < 7"
        using that by simp
      then show "bit ((result OR push_bit shift (take_bit 7 num)) OR push_bit (shift + 7) (drop_bit 7 num)) n
          = bit (result OR push_bit shift num) n"
        by (cases "n - shift < 7") (auto simp: bit_simps)
    qed
    show ?thesis
      using False 1(1) [OF refl refl False s t] 1(2) j
      by (subst push_var_loop.simps, subst take_var_loop.simps)
        (simp add: Let_def read_exact_def varint_byte)
  qed
qed

text \<open>At most ten bytes, at least one.\<close>

lemma length_push_var_loop:
  "take_bit n num = num \<Longrightarrow> n \<le> 64 \<Longrightarrow> 7 * length (push_var_loop num) < n + 7 \<or> length (push_var_loop num) = 1"
proof (induction num arbitrary: n rule: push_var_loop.induct)
  case (1 num)
  show ?case
  proof (cases "drop_bit 7 num = 0")
    case True
    then show ?thesis by (subst push_var_loop.simps) (simp add: Let_def)
  next
    case False
    have n: "7 < n" using drop_bit_7_nonzero [OF 1(2) False] .
    have "take_bit (n - 7) (drop_bit 7 num) = drop_bit 7 num"
      using 1(2) n by (metis drop_bit_take_bit)
    then have "7 * length (push_var_loop (drop_bit 7 num)) < n \<or> length (push_var_loop (drop_bit 7 num)) = 1"
      using 1(1) [OF refl refl False, of "n - 7"] 1(3) n by simp
    moreover have "length (push_var_loop num) = Suc (length (push_var_loop (drop_bit 7 num)))"
      using False by (subst push_var_loop.simps) (simp add: Let_def)
    ultimately show ?thesis using n by auto
  qed
qed

lemma push_var_loop_not_Nil: "push_var_loop num \<noteq> []"
  by (subst push_var_loop.simps) (simp add: Let_def)

section \<open>The codecs of the leaf values\<close>

definition any :: "'a \<Rightarrow> bool" where "any x = True"

lemma any_simp [simp, codec_simps]: "any x" by (simp add: any_def)

text \<open>What a length-prefixed byte string can carry.\<close>

definition wf_bytes :: "bytes \<Rightarrow> bool" where "wf_bytes bs \<longleftrightarrow> length bs < 2 ^ 32"

definition wf_asset :: "asset \<Rightarrow> bool" where "wf_asset a = True"

interpretation u8_codec: io_parser push_u8 take_u8 any
  by unfold_locales (simp_all add: push_u8_def take_u8_def read_exact_def)

interpretation u16_codec: io_parser push_u16 take_u16 any
  by unfold_locales (simp_all add: push_u16_def take_u16_def del: be_bytes.simps)

interpretation u32_codec: io_parser push_u32 take_u32 any
  by unfold_locales (simp_all add: push_u32_def take_u32_def)

interpretation u64_codec: io_parser push_u64 take_u64 any
  by unfold_locales (simp_all add: push_u64_def take_u64_def)

interpretation i64_codec: io_parser push_i64 take_i64 any
  by unfold_locales (simp_all add: push_i64_def take_i64_def)

interpretation var_i64_codec: io_parser push_var_i64 take_var_i64 any
  by unfold_locales
    (simp_all add: push_var_i64_def take_var_i64_def take_var_loop_push take_bit_word_eq_self)

interpretation digest_codec: io_parser push_digest take_digest wf_digest
  by unfold_locales
    (auto simp: push_digest_def take_digest_def wf_digest_def digest_from_slice_def fallible_iffs
      split: if_splits)

interpretation pub_key_codec: io_parser push_pub_key take_pub_key wf_public_key
  by unfold_locales
    (auto simp: push_pub_key_def take_pub_key_def wf_public_key_def PublicKey_from_slice_def
      fallible_iffs split: if_splits)

interpretation asset_codec: io_parser push_asset take_asset any
  by unfold_locales (simp_all add: push_asset_def take_asset_def var_i64_codec.io_roundtrip)

interpretation bytes_codec: io_parser push_bytes take_bytes wf_bytes
proof
  fix a rest :: bytes
  assume "wf_bytes a"
  then have "unat (of_nat (length a) :: u32) = length a"
    by (simp add: wf_bytes_def unat_of_nat)
  then show "take_bytes (push_bytes a @ rest) = Inr (a, rest)"
    by (simp add: push_bytes_def take_bytes_def u32_codec.io_roundtrip read_exact_def)
next
  fix cur a cur' :: bytes
  assume "take_bytes cur = Inr (a, cur')"
  then obtain len :: u32 where "length a = unat len"
    by (auto simp: take_bytes_def fallible_iffs read_exact_Inr)
  then show "wf_bytes a"
    using unsigned_less [of len, where 'a = nat] by (simp add: wf_bytes_def)
qed

interpretation sig_pair_codec: io_parser push_sig_pair take_sig_pair wf_sig_pair
  by unfold_locales
    (auto simp: push_sig_pair_def take_sig_pair_def wf_sig_pair_def pub_key_codec.io_roundtrip
      wf_signature_def signature_from_slice_def fallible_iffs dest: pub_key_codec.io_dec_wf split: if_splits)

lemmas leaf_roundtrips [simp, codec_simps] =
  u8_codec.io_roundtrip [OF any_simp] u16_codec.io_roundtrip [OF any_simp]
  u32_codec.io_roundtrip [OF any_simp] u64_codec.io_roundtrip [OF any_simp]
  i64_codec.io_roundtrip [OF any_simp] var_i64_codec.io_roundtrip [OF any_simp]
  asset_codec.io_roundtrip [OF any_simp] digest_codec.io_roundtrip pub_key_codec.io_roundtrip
  bytes_codec.io_roundtrip sig_pair_codec.io_roundtrip

lemma take_u8_Cons [simp, codec_simps]: "take_u8 (b # rest) = Inr (b, rest)"
  by (simp add: take_u8_def read_exact_def)

lemma take_u8_Nil [simp]: "take_u8 [] = Inl UnexpectedEof"
  by (simp add: take_u8_def read_exact_def)

end
