(* ===== verification/Script_Ops.thy ===== *)
theory Script_Ops
  imports Serializer
begin

text \<open>
  \<open>script/op.rs\<close>, \<open>script/error.rs\<close>, \<open>script/stack.rs\<close>, \<open>script/builder.rs\<close> and
  \<open>script/mod.rs\<close>: operands and operation frames, evaluation errors, the bounded stack, the
  script builder and the function table of a script.  The lemmas relate the two ends of the byte
  code: what the builder writes is what the table lookup and the decoder read back.
\<close>

section \<open>Operands and operation frames\<close>

text \<open>\<open>Operand\<close> and \<open>OpFrame\<close> share constructor names, so an operand is written with its type's
  name in front, as in the source.\<close>

datatype operand =
    OpDefine
  | OpTransfer
  | OpDestroy
  | PushFalse
  | PushTrue
  | PushAccountId
  | PushAsset
  | OpLoadAmt
  | OpLoadRemAmt
  | OpAdd
  | OpSub
  | OpMul
  | OpDiv
  | OpNot
  | OpIf
  | OpElse
  | OpEndIf
  | OpReturn
  | OpAbort
  | OpCheckPerms
  | OpCheckPermsFastFail
  | OpCheckMultiPerms
  | OpCheckMultiPermsFastFail
  | OpCheckTime
  | OpCheckTimeFastFail

fun operand_byte :: "operand \<Rightarrow> u8" where
  "operand_byte operand.OpDefine = 0x00"
| "operand_byte operand.OpTransfer = 0x10"
| "operand_byte operand.OpDestroy = 0x11"
| "operand_byte operand.PushFalse = 0x20"
| "operand_byte operand.PushTrue = 0x21"
| "operand_byte operand.PushAccountId = 0x22"
| "operand_byte operand.PushAsset = 0x23"
| "operand_byte operand.OpLoadAmt = 0x30"
| "operand_byte operand.OpLoadRemAmt = 0x31"
| "operand_byte operand.OpAdd = 0x32"
| "operand_byte operand.OpSub = 0x33"
| "operand_byte operand.OpMul = 0x34"
| "operand_byte operand.OpDiv = 0x35"
| "operand_byte operand.OpNot = 0x40"
| "operand_byte operand.OpIf = 0x41"
| "operand_byte operand.OpElse = 0x42"
| "operand_byte operand.OpEndIf = 0x43"
| "operand_byte operand.OpReturn = 0x44"
| "operand_byte operand.OpAbort = 0x45"
| "operand_byte operand.OpCheckPerms = 0x50"
| "operand_byte operand.OpCheckPermsFastFail = 0x51"
| "operand_byte operand.OpCheckMultiPerms = 0x52"
| "operand_byte operand.OpCheckMultiPermsFastFail = 0x53"
| "operand_byte operand.OpCheckTime = 0x60"
| "operand_byte operand.OpCheckTimeFastFail = 0x61"

type_synonym account_id = u64

datatype arg = ArgAccountId | ArgAsset

fun arg_byte :: "arg \<Rightarrow> u8" where
  "arg_byte ArgAccountId = 0x00"
| "arg_byte ArgAsset = 0x01"

definition arg_try_from :: "u8 \<Rightarrow> arg option" where
  "arg_try_from value =
     (if value = arg_byte ArgAccountId then Some ArgAccountId
      else if value = arg_byte ArgAsset then Some ArgAsset
      else None)"

datatype op_frame =
    OpDefine "arg list"
  | OpTransfer
  | OpDestroy
  | FrameFalse
  | FrameTrue
  | FrameAccountId account_id
  | FrameAsset asset
  | OpLoadAmt
  | OpLoadRemAmt
  | OpAdd
  | OpSub
  | OpMul
  | OpDiv
  | OpNot
  | OpIf
  | OpElse
  | OpEndIf
  | OpReturn
  | OpAbort
  | OpCheckPerms
  | OpCheckPermsFastFail
  | OpCheckMultiPerms u8 u8
  | OpCheckMultiPermsFastFail u8 u8
  | OpCheckTime u64
  | OpCheckTimeFastFail u64

definition frame_of_bool :: "bool \<Rightarrow> op_frame" where
  "frame_of_bool b = (if b then FrameTrue else FrameFalse)"

section \<open>Evaluation errors\<close>

datatype eval_err_kind =
    ScriptRetFalse
  | Aborted
  | UnexpectedEOF
  | HeaderReadErr
  | InvalidEntryPoint
  | UnknownOp
  | UnknownFn
  | UnknownArgType
  | ArgDeserialization
  | InvalidItemOnStack
  | StackOverflow
  | StackUnderflow
  | Arithmetic
  | InvalidAmount
  | AccountNotFound

record eval_err =
  ee_pos :: u32
  ee_err :: eval_err_kind

definition EvalErr_new :: "u32 \<Rightarrow> eval_err_kind \<Rightarrow> eval_err" where
  "EvalErr_new pos err = \<lparr>ee_pos = pos, ee_err = err\<rparr>"

fun eval_err_kind_byte :: "eval_err_kind \<Rightarrow> u8" where
  "eval_err_kind_byte ScriptRetFalse = 0x00"
| "eval_err_kind_byte Aborted = 0x01"
| "eval_err_kind_byte UnexpectedEOF = 0x02"
| "eval_err_kind_byte HeaderReadErr = 0x03"
| "eval_err_kind_byte InvalidEntryPoint = 0x04"
| "eval_err_kind_byte UnknownOp = 0x05"
| "eval_err_kind_byte UnknownFn = 0x06"
| "eval_err_kind_byte UnknownArgType = 0x07"
| "eval_err_kind_byte ArgDeserialization = 0x08"
| "eval_err_kind_byte InvalidItemOnStack = 0x09"
| "eval_err_kind_byte StackOverflow = 0x0A"
| "eval_err_kind_byte StackUnderflow = 0x0B"
| "eval_err_kind_byte Arithmetic = 0x0C"
| "eval_err_kind_byte InvalidAmount = 0x0D"
| "eval_err_kind_byte AccountNotFound = 0x0E"

definition eval_err_kind_try_from :: "u8 \<Rightarrow> eval_err_kind option" where
  "eval_err_kind_try_from value =
     (if value = eval_err_kind_byte ScriptRetFalse then Some ScriptRetFalse
      else if value = eval_err_kind_byte Aborted then Some Aborted
      else if value = eval_err_kind_byte UnexpectedEOF then Some UnexpectedEOF
      else if value = eval_err_kind_byte HeaderReadErr then Some HeaderReadErr
      else if value = eval_err_kind_byte InvalidEntryPoint then Some InvalidEntryPoint
      else if value = eval_err_kind_byte UnknownOp then Some UnknownOp
      else if value = eval_err_kind_byte UnknownFn then Some UnknownFn
      else if value = eval_err_kind_byte UnknownArgType then Some UnknownArgType
      else if value = eval_err_kind_byte ArgDeserialization then Some ArgDeserialization
      else if value = eval_err_kind_byte InvalidItemOnStack then Some InvalidItemOnStack
      else if value = eval_err_kind_byte StackOverflow then Some StackOverflow
      else if value = eval_err_kind_byte StackUnderflow then Some StackUnderflow
      else if value = eval_err_kind_byte Arithmetic then Some Arithmetic
      else if value = eval_err_kind_byte InvalidAmount then Some InvalidAmount
      else if value = eval_err_kind_byte AccountNotFound then Some AccountNotFound
      else None)"

lemma eval_err_kind_roundtrip [simp]: "eval_err_kind_try_from (eval_err_kind_byte k) = Some k"
  by (cases k) (simp_all add: eval_err_kind_try_from_def)

lemma arg_roundtrip [simp]: "arg_try_from (arg_byte a) = Some a"
  by (cases a) (simp_all add: arg_try_from_def)

lemma operand_byte_inject [simp]: "operand_byte a = operand_byte b \<longleftrightarrow> a = b"
  by (cases a; cases b) simp_all

section \<open>The stack\<close>

text \<open>The frames of the stack, the top first; \<open>pop\<close> and its typed variants return the rest.\<close>

type_synonym stack = "op_frame list"

definition MAX_FRAME_STACK :: nat where "MAX_FRAME_STACK = 64"

definition stack_push :: "stack \<Rightarrow> op_frame \<Rightarrow> eval_err_kind + stack" where
  "stack_push inner op =
     (if length inner < MAX_FRAME_STACK then Inr (op # inner) else Inl StackOverflow)"

fun stack_pop :: "stack \<Rightarrow> eval_err_kind + (op_frame \<times> stack)" where
  "stack_pop [] = Inl StackUnderflow"
| "stack_pop (op # inner) = Inr (op, inner)"

definition pop_bool :: "stack \<Rightarrow> eval_err_kind + (bool \<times> stack)" where
  "pop_bool s = and_then (stack_pop s) (\<lambda>(frame, s).
     case frame of
       FrameFalse \<Rightarrow> Inr (False, s)
     | FrameTrue \<Rightarrow> Inr (True, s)
     | _ \<Rightarrow> Inl InvalidItemOnStack)"

definition pop_account_id :: "stack \<Rightarrow> eval_err_kind + (account_id \<times> stack)" where
  "pop_account_id s = and_then (stack_pop s) (\<lambda>(frame, s).
     case frame of
       FrameAccountId acc \<Rightarrow> Inr (acc, s)
     | _ \<Rightarrow> Inl InvalidItemOnStack)"

definition pop_asset :: "stack \<Rightarrow> eval_err_kind + (asset \<times> stack)" where
  "pop_asset s = and_then (stack_pop s) (\<lambda>(frame, s).
     case frame of
       FrameAsset asset \<Rightarrow> Inr (asset, s)
     | _ \<Rightarrow> Inl InvalidItemOnStack)"

section \<open>Scripts\<close>

type_synonym script = bytes

text \<open>The scan of the function table: \<open>consume(4)\<close> skips a pointer without a bounds check.\<close>

primrec get_fn_ptr_loop :: "nat \<Rightarrow> u8 \<Rightarrow> bytes \<Rightarrow> io_error + u32 option" where
  "get_fn_ptr_loop 0 fn_id cur = Inr None"
| "get_fn_ptr_loop (Suc n) fn_id cur =
     and_then (take_u8 cur) (\<lambda>(header_id, cur).
       if header_id = fn_id then and_then (take_u32 cur) (\<lambda>(pos, cur). Inr (Some pos))
       else get_fn_ptr_loop n fn_id (drop 4 cur))"

definition get_fn_ptr :: "script \<Rightarrow> u8 \<Rightarrow> io_error + u32 option" where
  "get_fn_ptr script fn_id =
     and_then (take_u8 script) (\<lambda>(fn_count, cur). get_fn_ptr_loop (unat fn_count) fn_id cur)"

section \<open>The builder\<close>

definition MAX_SCRIPT_BYTE_SIZE :: nat where "MAX_SCRIPT_BYTE_SIZE = 2048"

record fn_builder =
  fb_id :: u8
  byte_code :: bytes

record builder =
  lookup_table :: "(u8 \<times> u32) list"
  body :: bytes

definition FnBuilder_new :: "u8 \<Rightarrow> op_frame \<Rightarrow> 'e fail + fn_builder" where
  "FnBuilder_new fid fn_def =
     (case fn_def of
        OpDefine args \<Rightarrow>
          if length args \<le> 255 then
            Inr \<lparr>fb_id = fid, byte_code = [operand_byte operand.OpDefine, of_nat (length args)] @
                   map arg_byte args\<rparr>
          else Inl Panic
      | _ \<Rightarrow> Inl Panic)"

text \<open>The bytes \<open>FnBuilder::push\<close> appends for a frame.\<close>

fun frame_code :: "op_frame \<Rightarrow> 'e fail + bytes" where
  "frame_code (OpDefine args) = Inl Panic"
| "frame_code OpTransfer = Inr [operand_byte operand.OpTransfer]"
| "frame_code OpDestroy = Inr [operand_byte operand.OpDestroy]"
| "frame_code FrameFalse = Inr [operand_byte operand.PushFalse]"
| "frame_code FrameTrue = Inr [operand_byte operand.PushTrue]"
| "frame_code (FrameAccountId acc) = Inr (operand_byte operand.PushAccountId # be_bytes 8 acc)"
| "frame_code (FrameAsset asset) = Inr (operand_byte operand.PushAsset # be_bytes 8 (amount asset))"
| "frame_code OpLoadAmt = Inr [operand_byte operand.OpLoadAmt]"
| "frame_code OpLoadRemAmt = Inr [operand_byte operand.OpLoadRemAmt]"
| "frame_code OpAdd = Inr [operand_byte operand.OpAdd]"
| "frame_code OpSub = Inr [operand_byte operand.OpSub]"
| "frame_code OpMul = Inr [operand_byte operand.OpMul]"
| "frame_code OpDiv = Inr [operand_byte operand.OpDiv]"
| "frame_code OpNot = Inr [operand_byte operand.OpNot]"
| "frame_code OpIf = Inr [operand_byte operand.OpIf]"
| "frame_code OpElse = Inr [operand_byte operand.OpElse]"
| "frame_code OpEndIf = Inr [operand_byte operand.OpEndIf]"
| "frame_code OpReturn = Inr [operand_byte operand.OpReturn]"
| "frame_code OpAbort = Inr [operand_byte operand.OpAbort]"
| "frame_code OpCheckPerms = Inr [operand_byte operand.OpCheckPerms]"
| "frame_code OpCheckPermsFastFail = Inr [operand_byte operand.OpCheckPermsFastFail]"
| "frame_code (OpCheckMultiPerms threshold key_count) =
     Inr [operand_byte operand.OpCheckMultiPerms, threshold, key_count]"
| "frame_code (OpCheckMultiPermsFastFail threshold key_count) =
     Inr [operand_byte operand.OpCheckMultiPermsFastFail, threshold, key_count]"
| "frame_code (OpCheckTime time) = Inr (operand_byte operand.OpCheckTime # push_u64 time)"
| "frame_code (OpCheckTimeFastFail time) = Inr (operand_byte operand.OpCheckTimeFastFail # push_u64 time)"

definition FnBuilder_push :: "fn_builder \<Rightarrow> op_frame \<Rightarrow> 'e fail + fn_builder" where
  "FnBuilder_push fb frame =
     and_then (frame_code frame) (\<lambda>code. Inr (fb\<lparr>byte_code := byte_code fb @ code\<rparr>))"

primrec FnBuilder_push_all :: "fn_builder \<Rightarrow> op_frame list \<Rightarrow> 'e fail + fn_builder" where
  "FnBuilder_push_all fb [] = Inr fb"
| "FnBuilder_push_all fb (frame # frames) =
     and_then (FnBuilder_push fb frame) (\<lambda>fb. FnBuilder_push_all fb frames)"

definition Builder_new :: builder where
  "Builder_new = \<lparr>lookup_table = [], body = []\<rparr>"

definition Builder_push :: "builder \<Rightarrow> fn_builder \<Rightarrow> 'e fail + builder" where
  "Builder_push b function =
     (if length (lookup_table b) + 1 > 255 then Inl Panic
      else
        let byte_pos = of_nat (length (body b)) :: u32
        in Inr \<lparr>lookup_table = lookup_table b @ [(fb_id function, byte_pos)],
                body = body b @ byte_code function\<rparr>)"

definition build :: "builder \<Rightarrow> nat + script" where
  "build b =
     (let header_len = 1 + length (lookup_table b) * 5;
          total_len = header_len + length (body b)
      in if total_len > MAX_SCRIPT_BYTE_SIZE then Inl total_len
         else Inr ([of_nat (length (lookup_table b))] @
                   concat (map (\<lambda>fn_ref. fst fn_ref # push_u32 (of_nat header_len + snd fn_ref))
                             (lookup_table b)) @
                   body b))"

section \<open>The table a builder writes\<close>

primrec Builder_push_all :: "builder \<Rightarrow> fn_builder list \<Rightarrow> 'e fail + builder" where
  "Builder_push_all b [] = Inr b"
| "Builder_push_all b (f # fs) = and_then (Builder_push b f) (\<lambda>b. Builder_push_all b fs)"

text \<open>The table and body after pushing the functions \<open>fs\<close> onto a body of \<open>n\<close> bytes.\<close>

primrec table_of :: "nat \<Rightarrow> fn_builder list \<Rightarrow> (u8 \<times> u32) list" where
  "table_of n [] = []"
| "table_of n (f # fs) = (fb_id f, of_nat n) # table_of (n + length (byte_code f)) fs"

lemma length_table_of [simp]: "length (table_of n fs) = length fs"
  by (induction fs arbitrary: n) simp_all

lemma Builder_push_all_result:
  "(Builder_push_all b fs :: 'e fail + builder) = Inr b' \<Longrightarrow>
    lookup_table b' = lookup_table b @ table_of (length (body b)) fs \<and>
    body b' = body b @ concat (map byte_code fs) \<and>
    (fs \<noteq> [] \<longrightarrow> length (lookup_table b') \<le> 255)"
proof (induction fs arbitrary: b)
  case Nil
  then show ?case by simp
next
  case (Cons f fs)
  then obtain c where c: "(Builder_push b f :: 'e fail + builder) = Inr c"
    "(Builder_push_all c fs :: 'e fail + builder) = Inr b'"
    by (auto simp: and_then_Inr_iff)
  then have "lookup_table c = lookup_table b @ [(fb_id f, of_nat (length (body b)))]"
    "body c = body b @ byte_code f" "length (lookup_table c) \<le> 255"
    by (auto simp: Builder_push_def Let_def split: if_splits)
  with Cons.IH [OF c(2)] show ?case by (cases "fs = []") auto
qed

text \<open>The lookup walks the table the builder wrote and returns the first entry with the id.\<close>

lemma get_fn_ptr_loop_table:
  "get_fn_ptr_loop (length tab) fn_id (concat (map (\<lambda>r. fst r # push_u32 (h + snd r)) tab) @ rest) =
     Inr (map_option (\<lambda>p. h + p) (map_of tab fn_id))"
proof (induction tab)
  case Nil
  then show ?case by simp
next
  case (Cons r tab)
  then show ?case by (cases r) simp
qed

lemma map_of_table_of:
  assumes "fb_id f \<notin> fb_id ` set pre"
  shows "map_of (table_of n (pre @ f # post)) (fb_id f) =
    Some (of_nat (n + length (concat (map byte_code pre))))"
  using assms
proof (induction pre arbitrary: n)
  case Nil
  then show ?case by simp
next
  case (Cons g pre)
  then show ?case using Cons.IH [of "n + length (byte_code g)"] by (simp add: add.assoc)
qed

lemma map_of_table_of_None:
  "fn_id \<notin> fb_id ` set fs \<Longrightarrow> map_of (table_of n fs) fn_id = None"
  by (induction fs arbitrary: n) auto

lemma length_table_code: "length (concat (map (\<lambda>r. fst r # push_u32 (h + snd r)) tab)) = 5 * length tab"
  by (induction tab) (simp_all add: push_u32_def)

text \<open>The shape of a built script: count, table, bodies, and a size the pointers can address.\<close>

lemma build_shape:
  assumes "Builder_push_all Builder_new fs = Inr b" "build b = Inr scr"
  defines "h \<equiv> 1 + 5 * length fs"
  shows "scr = of_nat (length fs) #
      concat (map (\<lambda>r. fst r # push_u32 (of_nat h + snd r)) (table_of 0 fs)) @ concat (map byte_code fs)"
    and "length fs \<le> 255" and "length scr = h + length (concat (map byte_code fs))"
    and "length scr \<le> 2048"
proof -
  have b: "lookup_table b = table_of 0 fs" "body b = concat (map byte_code fs)"
    and le: "length fs \<le> 255"
    using Builder_push_all_result [OF assms(1)] by (cases fs; auto simp: Builder_new_def)+
  from le show "length fs \<le> 255" .
  show eq: "scr = of_nat (length fs) #
      concat (map (\<lambda>r. fst r # push_u32 (of_nat h + snd r)) (table_of 0 fs)) @ concat (map byte_code fs)"
    using assms(2) by (simp add: build_def Let_def b h_def mult.commute split: if_splits)
  show l: "length scr = h + length (concat (map byte_code fs))"
    unfolding eq by (simp only: length_Cons length_append length_table_code length_table_of h_def)
  show "length scr \<le> 2048"
    using assms(2) unfolding l
    by (simp add: build_def Let_def b h_def MAX_SCRIPT_BYTE_SIZE_def split: if_splits)
qed

lemma get_fn_ptr_built:
  assumes "Builder_push_all Builder_new fs = Inr b" "build b = Inr scr"
  shows "get_fn_ptr scr fn_id =
    Inr (map_option (\<lambda>p. of_nat (1 + 5 * length fs) + p) (map_of (table_of 0 fs) fn_id))"
proof -
  have "unat (of_nat (length fs) :: u8) = length (table_of 0 fs)"
    using build_shape(2) [OF assms] by (simp add: unat_of_nat)
  then show ?thesis
    unfolding get_fn_ptr_def
    by (subst build_shape(1) [OF assms])
      (simp add: get_fn_ptr_loop_table [where tab = "table_of 0 fs", unfolded length_table_of])
qed

text \<open>A function pushed under a fresh id is found, and its pointer is where its code starts.\<close>

lemma built_function_found:
  assumes "Builder_push_all Builder_new (pre @ f # post) = Inr b" "build b = Inr scr"
    and "fb_id f \<notin> fb_id ` set pre"
  shows "\<exists>ptr. get_fn_ptr scr (fb_id f) = Inr (Some ptr) \<and> unat ptr \<le> length scr \<and>
    drop (unat ptr) scr = byte_code f @ concat (map byte_code post)"
proof -
  let ?fs = "pre @ f # post"
  let ?h = "1 + 5 * length ?fs" and ?k = "length (concat (map byte_code pre))"
  let ?tab = "concat (map (\<lambda>r. fst r # push_u32 (of_nat ?h + snd r)) (table_of 0 ?fs))"
  note sh = build_shape [OF assms(1,2)]
  have le: "?h + ?k \<le> length scr" using sh(3) by simp
  then have u: "unat (of_nat ?h + of_nat ?k :: u32) = ?h + ?k"
    using sh(4) by (simp only: of_nat_add [symmetric] unat_of_nat) simp
  have "?h = Suc (length ?tab)"
    by (simp only: length_table_code length_table_of)
  moreover have "h = Suc (length t) \<Longrightarrow> drop (h + k) (x # t @ c) = drop k c"
    for h k and x :: u8 and t c by simp
  ultimately have "drop (?h + ?k) scr = drop ?k (concat (map byte_code ?fs))"
    by (subst sh(1)) blast
  then have "drop (?h + ?k) scr = byte_code f @ concat (map byte_code post)"
    by simp
  moreover have "get_fn_ptr scr (fb_id f) = Inr (Some (of_nat ?h + of_nat ?k))"
    using get_fn_ptr_built [OF assms(1,2)] map_of_table_of [OF assms(3), of 0 post] by simp
  ultimately show ?thesis using u le by auto
qed

end
