(* ===== verification/Script_Decode.thy ===== *)
theory Script_Decode
  imports Script_Ops
begin

text \<open>
  The decoder \<open>ScriptEngine::consume_op\<close> of \<open>script/engine.rs\<close>, on the byte code and the
  program counter.  An error carries the position the counter had when it was raised.  Reading at
  the end of the code is the regular end of the script; a counter beyond the end is an index out
  of range, which panics.
\<close>

definition new_err :: "nat \<Rightarrow> eval_err_kind \<Rightarrow> eval_err fail" where
  "new_err pos err = Err (EvalErr_new (of_nat pos) err)"

text \<open>The two arms of the macro \<open>read_bytes\<close>: a slice and a single byte.\<close>

definition read_slice :: "script \<Rightarrow> nat \<Rightarrow> nat \<Rightarrow> eval_err fail + (bytes \<times> nat)" where
  "read_slice scr pos len =
     (if pos + len \<le> length scr then Inr (take len (drop pos scr), pos + len)
      else Inl (new_err pos UnexpectedEOF))"

definition read_byte :: "script \<Rightarrow> nat \<Rightarrow> eval_err fail + (u8 \<times> nat)" where
  "read_byte scr pos =
     (if pos < length scr then Inr (scr ! pos, pos + 1) else Inl (new_err pos UnexpectedEOF))"

primrec read_args :: "nat \<Rightarrow> script \<Rightarrow> nat \<Rightarrow> eval_err fail + (arg list \<times> nat)" where
  "read_args 0 scr pos = Inr ([], pos)"
| "read_args (Suc n) scr pos =
     and_then (read_byte scr pos) (\<lambda>(tag_byte, pos).
     and_then (ok_or (arg_try_from tag_byte) (new_err pos UnknownArgType)) (\<lambda>arg.
     and_then (read_args n scr pos) (\<lambda>(args, pos). Inr (arg # args, pos))))"

text \<open>The dispatch on the operand byte, \<open>pos\<close> being already past it.\<close>

definition decode_op :: "script \<Rightarrow> u8 \<Rightarrow> nat \<Rightarrow> eval_err fail + (op_frame \<times> nat)" where
  "decode_op scr byte pos =
     (if byte = operand_byte operand.OpDefine then
        and_then (read_byte scr pos) (\<lambda>(arg_cnt, pos).
        and_then (read_args (unat arg_cnt) scr pos) (\<lambda>(args, pos). Inr (OpDefine args, pos)))
      else if byte = operand_byte operand.OpTransfer then Inr (OpTransfer, pos)
      else if byte = operand_byte operand.OpDestroy then Inr (OpDestroy, pos)
      else if byte = operand_byte operand.PushFalse then Inr (FrameFalse, pos)
      else if byte = operand_byte operand.PushTrue then Inr (FrameTrue, pos)
      else if byte = operand_byte operand.PushAccountId then
        and_then (read_slice scr pos 8) (\<lambda>(sl, pos). Inr (FrameAccountId (from_be sl), pos))
      else if byte = operand_byte operand.PushAsset then
        and_then (read_slice scr pos 8) (\<lambda>(sl, pos). Inr (FrameAsset (Asset (from_be sl)), pos))
      else if byte = operand_byte operand.OpLoadAmt then Inr (OpLoadAmt, pos)
      else if byte = operand_byte operand.OpLoadRemAmt then Inr (OpLoadRemAmt, pos)
      else if byte = operand_byte operand.OpAdd then Inr (OpAdd, pos)
      else if byte = operand_byte operand.OpSub then Inr (OpSub, pos)
      else if byte = operand_byte operand.OpMul then Inr (OpMul, pos)
      else if byte = operand_byte operand.OpDiv then Inr (OpDiv, pos)
      else if byte = operand_byte operand.OpNot then Inr (OpNot, pos)
      else if byte = operand_byte operand.OpIf then Inr (OpIf, pos)
      else if byte = operand_byte operand.OpElse then Inr (OpElse, pos)
      else if byte = operand_byte operand.OpEndIf then Inr (OpEndIf, pos)
      else if byte = operand_byte operand.OpReturn then Inr (OpReturn, pos)
      else if byte = operand_byte operand.OpAbort then Inr (OpAbort, pos)
      else if byte = operand_byte operand.OpCheckPerms then Inr (OpCheckPerms, pos)
      else if byte = operand_byte operand.OpCheckPermsFastFail then Inr (OpCheckPermsFastFail, pos)
      else if byte = operand_byte operand.OpCheckMultiPerms then
        and_then (read_byte scr pos) (\<lambda>(threshold, pos).
        and_then (read_byte scr pos) (\<lambda>(acc_count, pos). Inr (OpCheckMultiPerms threshold acc_count, pos)))
      else if byte = operand_byte operand.OpCheckMultiPermsFastFail then
        and_then (read_byte scr pos) (\<lambda>(threshold, pos).
        and_then (read_byte scr pos) (\<lambda>(acc_count, pos). Inr (OpCheckMultiPermsFastFail threshold acc_count, pos)))
      else if byte = operand_byte operand.OpCheckTime then
        and_then (read_slice scr pos 8) (\<lambda>(sl, pos). Inr (OpCheckTime (from_be sl), pos))
      else if byte = operand_byte operand.OpCheckTimeFastFail then
        and_then (read_slice scr pos 8) (\<lambda>(sl, pos). Inr (OpCheckTimeFastFail (from_be sl), pos))
      else Inl (new_err pos UnknownOp))"

definition consume_op :: "script \<Rightarrow> nat \<Rightarrow> eval_err fail + (op_frame option \<times> nat)" where
  "consume_op scr pos =
     (if pos = length scr then Inr (None, pos)
      else if pos < length scr then
        and_then (decode_op scr (scr ! pos) (pos + 1)) (\<lambda>(op, pos). Inr (Some op, pos))
      else Inl Panic)"

section \<open>The decoder moves forward inside the script\<close>

lemma read_slice_pos: "read_slice scr pos n = Inr (sl, pos') \<Longrightarrow> pos \<le> pos' \<and> pos' \<le> length scr"
  by (auto simp: read_slice_def split: if_splits)

lemma read_byte_pos: "read_byte scr pos = Inr (b, pos') \<Longrightarrow> pos < pos' \<and> pos' \<le> length scr"
  by (auto simp: read_byte_def split: if_splits)

lemma read_args_pos:
  "read_args n scr pos = Inr (args, pos') \<Longrightarrow> pos \<le> length scr \<Longrightarrow> pos \<le> pos' \<and> pos' \<le> length scr"
proof (induction n arbitrary: pos args)
  case 0
  then show ?case by simp
next
  case (Suc n)
  from Suc.prems obtain b p args' where "read_byte scr pos = Inr (b, p)"
    and r: "read_args n scr p = Inr (args', pos')"
    by (auto simp: and_then_Inr_iff)
  then have "pos < p" "p \<le> length scr" using read_byte_pos by blast+
  with Suc.IH [OF r] show ?case by simp
qed

lemma decode_op_pos:
  assumes "decode_op scr byte pos = Inr (op, pos')" "pos \<le> length scr"
  shows "pos \<le> pos' \<and> pos' \<le> length scr"
  using assms unfolding decode_op_def
  by (auto simp: and_then_Inr_iff split: if_splits
      dest!: read_slice_pos read_byte_pos dest: read_args_pos)

lemma consume_op_pos:
  assumes "consume_op scr pos = Inr (Some op, pos')"
  shows "pos < pos' \<and> pos' \<le> length scr"
  using assms decode_op_pos [of scr "scr ! pos" "pos + 1" op pos']
  by (auto simp: consume_op_def and_then_Inr_iff split: if_splits)

lemma consume_op_None: "consume_op scr pos = Inr (None, pos') \<longleftrightarrow> pos = length scr \<and> pos' = pos"
  by (auto simp: consume_op_def and_then_Inr_iff)

lemma consume_op_Panic:
  assumes "consume_op scr pos = Inl Panic"
  shows "length scr < pos"
proof (rule ccontr)
  assume "\<not> length scr < pos"
  moreover have "read_args n scr p \<noteq> Inl Panic" for n p
    by (induction n arbitrary: p)
      (auto simp: and_then_Inl_iff read_byte_def new_err_def ok_or_def split: option.splits)
  ultimately show False
    using assms
    by (auto simp: consume_op_def decode_op_def and_then_Inl_iff read_byte_def read_slice_def
        new_err_def split: if_splits)
qed

section \<open>Decoding what the builder wrote\<close>

lemma read_slice_append: "length sl = n \<Longrightarrow> length pre = p \<Longrightarrow>
    read_slice (pre @ sl @ post) p n = Inr (sl, p + n)"
  by (simp add: read_slice_def)

lemma read_byte_append: "length pre = p \<Longrightarrow> read_byte (pre @ b # post) p = Inr (b, p + 1)"
  by (auto simp: read_byte_def nth_append)

lemma read_args_append:
  "length pre = p \<Longrightarrow> read_args (length args) (pre @ map arg_byte args @ post) p = Inr (args, p + length args)"
proof (induction args arbitrary: pre p)
  case Nil
  then show ?case by simp
next
  case (Cons a args)
  have "read_args (length args) ((pre @ [arg_byte a]) @ map arg_byte args @ post) (p + 1) =
      Inr (args, p + 1 + length args)"
    by (rule Cons.IH) (simp add: Cons.prems)
  then show ?case using Cons.prems by (simp add: read_byte_append)
qed

text \<open>A function definition as \<open>FnBuilder::new\<close> writes it.\<close>

definition define_code :: "arg list \<Rightarrow> bytes" where
  "define_code args = [operand_byte operand.OpDefine, of_nat (length args)] @ map arg_byte args"

lemma consume_op_at:
  assumes "length pre = p"
  shows "consume_op (pre @ b # post) p =
    and_then (decode_op (pre @ b # post) b (p + 1)) (\<lambda>(op, pos). Inr (Some op, pos))"
  using assms by (auto simp: consume_op_def nth_append)

lemma read_slice_operand: "length sl = n \<Longrightarrow> length pre = p \<Longrightarrow>
    read_slice (pre @ b # sl @ post) (Suc p) n = Inr (sl, Suc p + n)"
  by (simp add: read_slice_def)

lemma read_byte_operand: "length pre = p \<Longrightarrow> read_byte (pre @ b # c # post) (Suc p) = Inr (c, Suc (Suc p))"
  "length pre = p \<Longrightarrow> read_byte (pre @ b # c # d # post) (Suc (Suc p)) = Inr (d, Suc (Suc (Suc p)))"
  by (auto simp: read_byte_def nth_append)

lemma consume_op_frame_code:
  assumes "frame_code f = Inr code"
  shows "consume_op (pre @ code @ post) (length pre) = Inr (Some f, length pre + length code)"
  using assms
  by (cases f)
    (auto simp: consume_op_at decode_op_def read_slice_operand read_byte_operand push_u64_def)

lemma consume_op_define_code:
  assumes "length args \<le> 255"
  shows "consume_op (pre @ define_code args @ post) (length pre) =
    Inr (Some (OpDefine args), length pre + length (define_code args))"
proof -
  let ?n = "of_nat (length args) :: u8"
  have n: "unat ?n = length args" using assms by (simp add: unat_of_nat)
  have "read_args (length args) ((pre @ [0, ?n]) @ map arg_byte args @ post) (length pre + 2) =
      Inr (args, length pre + 2 + length args)"
    by (rule read_args_append) simp
  then show ?thesis
    by (simp add: define_code_def consume_op_at decode_op_def read_byte_operand n)
qed

end
