(* ===== verification/Accounts.thy ===== *)
theory Accounts
  imports Script_Decode
begin

text \<open>
  \<open>account.rs\<close>: accounts, their permissions (a threshold of signatures over a set of keys), the
  verification of a list of signatures against them, and their serialization.
\<close>

section \<open>Permissions\<close>

record permissions =
  threshold :: u8
  keys :: "public_key list"

datatype perms_sig_verify_err = InsufficientThreshold | NoMatchingSigs | InvalidSig

definition MAX_PERM_KEYS :: u8 where "MAX_PERM_KEYS = 8"

definition IMMUTABLE_ACCOUNT_THRESHOLD :: u8 where "IMMUTABLE_ACCOUNT_THRESHOLD = 0xFF"

text \<open>The inner loop over the keys: whether a key matched (and verified) the pair.\<close>

primrec verify_pair :: "'db ext \<Rightarrow> bytes \<Rightarrow> sig_pair \<Rightarrow> public_key list \<Rightarrow> perms_sig_verify_err + bool" where
  "verify_pair X data pair [] = Inr False"
| "verify_pair X data pair (k # ks) =
     (if k = pub_key pair then
        if PublicKey_verify X k data (sp_signature pair) then Inr True else Inl InvalidSig
      else verify_pair X data pair ks)"

text \<open>The outer loop, labelled \<open>'sig_loop\<close>, counting in a \<open>u8\<close>.\<close>

primrec verify_sigs :: "'db ext \<Rightarrow> bytes \<Rightarrow> public_key list \<Rightarrow> u8 \<Rightarrow> sig_pair list \<Rightarrow> perms_sig_verify_err + u8" where
  "verify_sigs X data ks valid_threshold [] = Inr valid_threshold"
| "verify_sigs X data ks valid_threshold (pair # sigs) =
     and_then (verify_pair X data pair ks) (\<lambda>matched.
       verify_sigs X data ks (if matched then valid_threshold + 1 else valid_threshold) sigs)"

definition Permissions_verify :: "'db ext \<Rightarrow> permissions \<Rightarrow> bytes \<Rightarrow> sig_pair list \<Rightarrow> perms_sig_verify_err + unit" where
  "Permissions_verify X self data sigs =
     (if threshold self = 0 then Inr ()
      else if unat (threshold self) > length sigs then Inl InsufficientThreshold
      else and_then (verify_sigs X data (keys self) 0 sigs) (\<lambda>valid_threshold.
        if valid_threshold > 0 then
          if valid_threshold \<ge> threshold self then Inr () else Inl InsufficientThreshold
        else Inl NoMatchingSigs))"

definition Permissions_is_valid :: "permissions \<Rightarrow> bool" where
  "Permissions_is_valid self =
     (if threshold self = IMMUTABLE_ACCOUNT_THRESHOLD then keys self = []
      else \<not> (length (keys self) > unat MAX_PERM_KEYS \<or>
               unat (threshold self) > length (keys self)))"

definition Permissions_serialize :: "permissions \<Rightarrow> bytes" where
  "Permissions_serialize self =
     [threshold self, of_nat (length (keys self))] @ concat (map push_pub_key (keys self))"

definition Permissions_deserialize :: "permissions reader" where
  "Permissions_deserialize cur =
     and_then (take_u8 cur) (\<lambda>(threshold, cur).
     and_then (take_u8 cur) (\<lambda>(key_len, cur).
     and_then (take_many take_pub_key (unat key_len) cur) (\<lambda>(keys, cur).
       Inr (\<lparr>threshold = threshold, keys = keys\<rparr>, cur))))"

section \<open>Accounts\<close>

record account =
  acc_id :: account_id
  balance :: asset
  acc_script :: script
  permissions :: permissions
  destroyed :: bool

definition u8_of_bool :: "bool \<Rightarrow> u8" where
  "u8_of_bool b = (if b then 1 else 0)"

text \<open>\<open>create_default\<close>: the standard transfer script, whose \<open>build().unwrap()\<close> could panic.\<close>

definition Account_create_default :: "account_id \<Rightarrow> permissions \<Rightarrow> 'e fail + account" where
  "Account_create_default aid perms =
     and_then (FnBuilder_new 0x00 (OpDefine [ArgAccountId, ArgAsset])) (\<lambda>fb.
     and_then (FnBuilder_push_all fb [FrameAccountId aid, OpCheckPermsFastFail, OpTransfer, FrameTrue]) (\<lambda>fb.
     and_then (Builder_push Builder_new fb) (\<lambda>b.
     and_then (unwrap (ok (build b))) (\<lambda>scr.
       Inr \<lparr>acc_id = aid, balance = Asset_default, acc_script = scr, permissions = perms,
            destroyed = False\<rparr>))))"

definition Account_serialize :: "account \<Rightarrow> bytes" where
  "Account_serialize self =
     push_u64 (acc_id self) @ push_asset (balance self) @ push_bytes (acc_script self) @
     Permissions_serialize (permissions self) @ push_u8 (u8_of_bool (destroyed self))"

definition Account_deserialize :: "account reader" where
  "Account_deserialize cur =
     and_then (take_u64 cur) (\<lambda>(aid, cur).
     and_then (take_asset cur) (\<lambda>(bal, cur).
     and_then (take_bytes cur) (\<lambda>(scr, cur).
     and_then (Permissions_deserialize cur) (\<lambda>(perms, cur).
     and_then (take_u8 cur) (\<lambda>(d, cur).
       Inr (\<lparr>acc_id = aid, balance = bal, acc_script = scr, permissions = perms,
             destroyed = (d \<noteq> 0)\<rparr>, cur))))))"

section \<open>Serialization\<close>

definition wf_permissions :: "permissions \<Rightarrow> bool" where
  "wf_permissions p \<longleftrightarrow> length (keys p) < 256 \<and> list_all wf_public_key (keys p)"

definition wf_account :: "account \<Rightarrow> bool" where
  "wf_account a \<longleftrightarrow> wf_bytes (acc_script a) \<and> wf_permissions (permissions a)"

interpretation permissions_codec: io_parser Permissions_serialize Permissions_deserialize wf_permissions
proof
  fix p :: permissions and rest
  assume wf: "wf_permissions p"
  then have "unat (of_nat (length (keys p)) :: u8) = length (keys p)"
    by (simp add: wf_permissions_def unat_of_nat)
  moreover have "take_many take_pub_key (length (keys p)) (concat (map push_pub_key (keys p)) @ rest)
      = Inr (keys p, rest)"
    using wf by (intro pub_key_codec.take_many_roundtrip) (simp add: wf_permissions_def)
  ultimately show "Permissions_deserialize (Permissions_serialize p @ rest) = Inr (p, rest)"
    by (simp add: Permissions_serialize_def Permissions_deserialize_def)
next
  fix cur p cur'
  assume "Permissions_deserialize cur = Inr (p, cur')"
  then obtain len :: u8 and c where "take_many take_pub_key (unat len) c = Inr (keys p, cur')"
    by (auto simp: Permissions_deserialize_def fallible_iffs)
  then show "wf_permissions p"
    using unsigned_less [of len, where 'a = nat]
    by (auto simp: wf_permissions_def dest!: pub_key_codec.take_many_wf)
qed

interpretation account_codec: io_parser Account_serialize Account_deserialize wf_account
  by unfold_locales
    (auto simp: Account_serialize_def Account_deserialize_def wf_account_def
      permissions_codec.io_roundtrip u8_of_bool_def fallible_iffs
      dest: permissions_codec.io_dec_wf bytes_codec.io_dec_wf)

lemmas account_roundtrips [simp, codec_simps] =
  permissions_codec.io_roundtrip account_codec.io_roundtrip

section \<open>What verification accepts\<close>

text \<open>The signatures by one of the account's keys.\<close>

definition matching :: "permissions \<Rightarrow> sig_pair list \<Rightarrow> sig_pair list" where
  "matching p sigs = filter (\<lambda>s. pub_key s \<in> set (keys p)) sigs"

lemma verify_pair_eq:
  "verify_pair X data s ks =
     (if pub_key s \<in> set ks then
        if SigPair_verify X s data then Inr True else Inl InvalidSig
      else Inr False)"
  by (induction ks) (auto simp: SigPair_verify_PublicKey)

lemma verify_sigs_eq:
  "verify_sigs X data (keys p) n sigs =
     (if list_all (\<lambda>s. SigPair_verify X s data) (matching p sigs)
      then Inr (n + of_nat (length (matching p sigs))) else Inl InvalidSig)"
  by (induction sigs arbitrary: n) (auto simp: matching_def verify_pair_eq)

text \<open>Every branch of \<open>verify\<close>, for a signature list whose length fits the counter.\<close>

lemma Permissions_verify_eq:
  assumes "length sigs < 256"
  shows "Permissions_verify X p data sigs =
    (let m = matching p sigs; t = unat (threshold p) in
     if t = 0 then Inr ()
     else if length sigs < t then Inl InsufficientThreshold
     else if \<not> list_all (\<lambda>s. SigPair_verify X s data) m then Inl InvalidSig
     else if m = [] then Inl NoMatchingSigs
     else if length m < t then Inl InsufficientThreshold
     else Inr ())"
proof -
  let ?m = "matching p sigs"
  have "length ?m < 256" using assms by (simp add: matching_def le_less_trans [OF length_filter_le])
  then have u: "unat (of_nat (length ?m) :: u8) = length ?m" by (simp add: unat_of_nat)
  have pos: "(0 :: u8) < of_nat (length ?m) \<longleftrightarrow> ?m \<noteq> []"
    by (simp only: word_less_nat_alt u unat_0 length_greater_0_conv)
  have ge: "threshold p \<le> of_nat (length ?m) \<longleftrightarrow> unat (threshold p) \<le> length ?m"
    by (simp only: word_le_nat_alt u)
  show ?thesis
    by (simp add: Permissions_verify_def verify_sigs_eq pos ge unat_eq_0 Let_def not_less)
qed

end
