(* ===== verification/Wif.thy ===== *)
theory Wif
  imports Accounts Rust_Text
begin

text \<open>
  Addresses and private keys as text, \<open>crypto/wif.rs\<close>: a prefix byte, the payload and four bytes of
  checksum in Base58, behind \<open>GOD\<close> for the public forms.  Reading a public form slices the first three
  bytes of the text, which panics inside a multibyte character.
\<close>

section \<open>Encoding and decoding\<close>

definition PUB_ADDRESS_PREFIX :: string where "PUB_ADDRESS_PREFIX = ''GOD''"
definition PRIV_BUF_PREFIX :: u8 where "PRIV_BUF_PREFIX = 0x01"
definition PUB_BUF_PREFIX :: u8 where "PUB_BUF_PREFIX = 0x02"
definition ACCOUNT_ID_BUF_PREFIX :: u8 where "ACCOUNT_ID_BUF_PREFIX = 0x03"

datatype wif_error_kind = InvalidLen | InvalidPrefix | InvalidChecksum | InvalidBs58Encoding

text \<open>The checksum of a buffer: \<open>&double_sha256(buf)[0..4]\<close>.\<close>

definition wif_checksum :: "'db ext \<Rightarrow> bytes \<Rightarrow> bytes" where
  "wif_checksum X buf = take 4 (digest_bytes (double_sha256 X buf))"

definition AccountId_from_wif :: "'db ext \<Rightarrow> string \<Rightarrow> wif_error_kind fail + account_id" where
  "AccountId_from_wif X s =
     and_then (if length s < 3 then Inr True
               else and_then (str_take 3 s) (\<lambda>p. Inr (p \<noteq> PUB_ADDRESS_PREFIX))) (\<lambda>bad.
      if bad then Inl (Err InvalidPrefix)
      else
        and_then (ok_or (bs58_decode X (drop 3 s)) (Err InvalidBs58Encoding)) (\<lambda>raw.
          if length raw \<noteq> 13 then Inl (Err InvalidLen)
          else if raw ! 0 \<noteq> ACCOUNT_ID_BUF_PREFIX then Inl (Err InvalidPrefix)
          else
            let prefixed_id = take (length raw - 4) raw
            in if drop (length raw - 4) raw \<noteq> wif_checksum X prefixed_id then Inl (Err InvalidChecksum)
               else Inr (from_be (drop 1 prefixed_id))))"

definition AccountId_to_wif :: "'db ext \<Rightarrow> account_id \<Rightarrow> string" where
  "AccountId_to_wif X self =
     (let buf = ACCOUNT_ID_BUF_PREFIX # be_bytes 8 self
      in PUB_ADDRESS_PREFIX @ bs58_encode X (buf @ wif_checksum X buf))"

definition PublicKey_from_wif :: "'db ext \<Rightarrow> string \<Rightarrow> wif_error_kind fail + public_key" where
  "PublicKey_from_wif X s =
     and_then (if length s < 3 then Inr True
               else and_then (str_take 3 s) (\<lambda>p. Inr (p \<noteq> PUB_ADDRESS_PREFIX))) (\<lambda>bad.
      if bad then Inl (Err InvalidPrefix)
      else
        and_then (ok_or (bs58_decode X (drop 3 s)) (Err InvalidBs58Encoding)) (\<lambda>raw.
          if length raw \<noteq> 37 then Inl (Err InvalidLen)
          else if raw ! 0 \<noteq> PUB_BUF_PREFIX then Inl (Err InvalidPrefix)
          else
            let prefixed_key = take (length raw - 4) raw
            in if drop (length raw - 4) raw \<noteq> wif_checksum X prefixed_key then Inl (Err InvalidChecksum)
               else Inr (PublicKey (drop 1 prefixed_key))))"

definition PublicKey_to_wif :: "'db ext \<Rightarrow> public_key \<Rightarrow> string" where
  "PublicKey_to_wif X self =
     (let buf = PUB_BUF_PREFIX # pk_bytes self
      in PUB_ADDRESS_PREFIX @ bs58_encode X (buf @ wif_checksum X buf))"

definition PrivateKey_from_wif :: "'db ext \<Rightarrow> string \<Rightarrow> wif_error_kind fail + key_pair" where
  "PrivateKey_from_wif X s =
     and_then (ok_or (bs58_decode X s) (Err InvalidBs58Encoding)) (\<lambda>raw.
       if length raw \<noteq> 37 then Inl (Err InvalidLen)
       else if raw ! 0 \<noteq> PRIV_BUF_PREFIX then Inl (Err InvalidPrefix)
       else
         let k = take (length raw - 4) raw
         in if drop (length raw - 4) raw \<noteq> wif_checksum X k then Inl (Err InvalidChecksum)
            else
              let sd = drop 1 k
              in case keypair_from_seed X sd of (pk, sk) \<Rightarrow>
                   Inr (KeyPair (PublicKey pk) \<lparr>seed = sd, key = sk\<rparr>))"

definition PrivateKey_to_wif :: "'db ext \<Rightarrow> private_key \<Rightarrow> string" where
  "PrivateKey_to_wif X self =
     (let buf = PRIV_BUF_PREFIX # seed self
      in bs58_encode X (buf @ wif_checksum X buf))"

section \<open>The interface\<close>

text \<open>
  What the users of the trait \<open>Wif\<close> rely on: what \<open>to_wif\<close> writes is read back, and what is
  read carries a payload that \<open>to_wif\<close> would write, so an accepted text is the canonical one up to
  the freedom Base58 leaves; \<open>libs\<close> is what this asks of the hash and the Base58 codec.
\<close>

locale wif_format =
  fixes from_wif :: "string \<Rightarrow> wif_error_kind fail + 'a"
    and to_wif :: "'a \<Rightarrow> string"
    and payload :: "string \<Rightarrow> bytes option"
    and wf :: "'a \<Rightarrow> bool"
    and libs :: bool
  assumes from_to: "libs \<Longrightarrow> wf a \<Longrightarrow> from_wif (to_wif a) = Inr a"
    and from_payload: "libs \<Longrightarrow> from_wif s = Inr a \<Longrightarrow> wf a \<and> payload s = payload (to_wif a)"
begin

lemma to_wif_inject: "libs \<Longrightarrow> wf a \<Longrightarrow> wf b \<Longrightarrow> to_wif a = to_wif b \<Longrightarrow> a = b"
  by (metis from_to sum.inject(2))

text \<open>Reading is idempotent: rewriting an accepted text and reading it again changes nothing.\<close>

lemma reread: "libs \<Longrightarrow> from_wif s = Inr a \<Longrightarrow> from_wif (to_wif a) = Inr a"
  by (blast intro: from_to dest: from_payload)

end

lemma checksum_length: "sha256_ok X \<Longrightarrow> length (wif_checksum X buf) = 4"
  by (simp add: wif_checksum_def double_sha256_def sha256_ok_def)

lemma bs58_raw: "bs58_ok X \<Longrightarrow> bs58_decode X (bs58_encode X bs) = Some bs"
  by (simp add: bs58_ok_def)

lemma prefix_simps [simp]: "length PUB_ADDRESS_PREFIX = 3" "drop 3 (PUB_ADDRESS_PREFIX @ t) = t"
  by (simp_all add: PUB_ADDRESS_PREFIX_def)

lemma bs58_prefixed: "bs58_ok X \<Longrightarrow> str_take 3 (PUB_ADDRESS_PREFIX @ bs58_encode X bs) = Inr PUB_ADDRESS_PREFIX"
  using str_take_append [of "bs58_encode X bs" PUB_ADDRESS_PREFIX] by (simp add: bs58_ok_def)

text \<open>A buffer of the expected length, prefix and checksum, taken apart.\<close>

lemma raw_split:
  assumes "length raw = Suc n + 4" "raw ! 0 = p" "drop (length raw - 4) raw = c"
  shows "raw = (p # drop 1 (take (length raw - 4) raw)) @ c"
    and "length (drop 1 (take (length raw - 4) raw)) = n"
proof -
  obtain r raw' where r: "raw = r # raw'" using assms(1) by (cases raw) auto
  show "raw = (p # drop 1 (take (length raw - 4) raw)) @ c"
    using assms by (simp add: r flip: assms(3))
  show "length (drop 1 (take (length raw - 4) raw)) = n"
    using assms(1) by simp
qed

text \<open>The bytes of the number a byte string denotes are that byte string.\<close>

lemma bit_from_be: "bit (from_be bs :: 'a::len word) k \<Longrightarrow> k < 8 * length bs"
proof (induction bs arbitrary: k rule: rev_induct)
  case (snoc b bs)
  have u: "bit (ucast b :: 'a word) j \<Longrightarrow> j < 8" for j
    by (auto simp: bit_simps dest: bit_imp_le_length)
  show ?case
  proof (cases "8 \<le> k \<and> bit (from_be bs :: 'a word) (k - 8)")
    case True
    then show ?thesis using snoc.IH [of "k - 8"] by simp
  next
    case False
    then have "bit (ucast b :: 'a word) k"
      using snoc.prems by (auto simp: from_be_snoc bit_or_iff bit_push_bit_iff)
    from u [OF this] show ?thesis by simp
  qed
next
  case Nil
  then show ?case by (simp add: from_be_def)
qed

lemma be_bytes_from_be:
  "8 * length bs \<le> LENGTH('a) \<Longrightarrow> be_bytes (length bs) (from_be bs :: 'a::len word) = bs"
proof (induction bs rule: rev_induct)
  case (snoc b bs)
  let ?f = "from_be bs :: 'a word"
  have len: "8 * length bs + 8 \<le> LENGTH('a)" using snoc.prems by simp
  have "drop_bit 8 (or (push_bit 8 ?f) (ucast b)) = ?f"
    by (rule bit_word_eqI) (use len in \<open>auto simp: bit_simps dest: bit_from_be bit_imp_le_length\<close>)
  moreover have "ucast (or (push_bit 8 ?f) (ucast b)) = b"
    by (rule bit_word_eqI) (use len in \<open>auto simp: bit_simps dest: bit_imp_le_length\<close>)
  ultimately show ?case
    using snoc.IH len by (simp add: from_be_snoc)
qed simp

section \<open>The three texts\<close>

definition account_payload :: "'db ext \<Rightarrow> string \<Rightarrow> bytes option" where
  "account_payload X s = bs58_decode X (drop 3 s)"

definition private_payload :: "'db ext \<Rightarrow> string \<Rightarrow> bytes option" where
  "private_payload X s = bs58_decode X s"

definition wif_libs :: "'db ext \<Rightarrow> bool" where
  "wif_libs X \<longleftrightarrow> sha256_ok X \<and> bs58_ok X"

lemma wif_libs_simps:
  "wif_libs X \<Longrightarrow> length (wif_checksum X buf) = 4"
  "wif_libs X \<Longrightarrow> bs58_decode X (bs58_encode X bs) = Some bs"
  "wif_libs X \<Longrightarrow> str_take 3 (PUB_ADDRESS_PREFIX @ bs58_encode X bs) = Inr PUB_ADDRESS_PREFIX"
  by (simp_all add: wif_libs_def checksum_length bs58_raw bs58_prefixed)

interpretation account_wif:
  wif_format "AccountId_from_wif X" "AccountId_to_wif X" "account_payload X" any "wif_libs X" for X
proof
  assume libs: "wif_libs X"
  fix i :: account_id and s
  show "AccountId_from_wif X (AccountId_to_wif X i) = Inr i"
    by (simp add: AccountId_from_wif_def AccountId_to_wif_def Let_def
        wif_libs_simps [OF libs] ok_or_def and_then_def del: be_bytes.simps)
  assume "AccountId_from_wif X s = Inr i"
  then obtain raw where raw: "bs58_decode X (drop 3 s) = Some raw" "length raw = Suc 8 + 4"
    "raw ! 0 = ACCOUNT_ID_BUF_PREFIX" "drop (length raw - 4) raw = wif_checksum X (take (length raw - 4) raw)"
    "i = from_be (drop 1 (take (length raw - 4) raw))"
    by (auto simp: AccountId_from_wif_def Let_def fallible_iffs split: if_splits)
  note sp = raw_split [OF raw(2-4)]
  have "be_bytes 8 i = drop 1 (take (length raw - 4) raw)"
    using be_bytes_from_be [where 'a = 64, of "drop 1 (take (length raw - 4) raw)"] sp(2) by (simp add: raw(5))
  moreover have "take (length raw - 4) raw = ACCOUNT_ID_BUF_PREFIX # drop 1 (take (length raw - 4) raw)"
    using raw(2,3) by (cases raw) simp_all
  ultimately show "any i \<and> account_payload X s = account_payload X (AccountId_to_wif X i)"
    using sp(1) by (simp add: account_payload_def AccountId_to_wif_def Let_def
        wif_libs_simps [OF libs] raw(1) del: be_bytes.simps)
qed

interpretation public_key_wif:
  wif_format "PublicKey_from_wif X" "PublicKey_to_wif X" "account_payload X" wf_public_key "wif_libs X" for X
proof
  assume libs: "wif_libs X"
  fix k :: public_key and s
  show "PublicKey_from_wif X (PublicKey_to_wif X k) = Inr k" if "wf_public_key k"
    using that by (simp add: PublicKey_from_wif_def PublicKey_to_wif_def Let_def
        wif_libs_simps [OF libs] ok_or_def and_then_def wf_public_key_def PUBLICKEYBYTES_def)
  assume "PublicKey_from_wif X s = Inr k"
  then obtain raw where raw: "bs58_decode X (drop 3 s) = Some raw" "length raw = Suc 32 + 4"
    "raw ! 0 = PUB_BUF_PREFIX" "drop (length raw - 4) raw = wif_checksum X (take (length raw - 4) raw)"
    "k = PublicKey (drop 1 (take (length raw - 4) raw))"
    by (auto simp: PublicKey_from_wif_def Let_def fallible_iffs split: if_splits)
  note sp = raw_split [OF raw(2-4)]
  moreover have "take (length raw - 4) raw = PUB_BUF_PREFIX # drop 1 (take (length raw - 4) raw)"
    using raw(2,3) by (cases raw) simp_all
  ultimately show "wf_public_key k \<and> account_payload X s = account_payload X (PublicKey_to_wif X k)"
    by (simp add: account_payload_def PublicKey_to_wif_def Let_def
        wif_libs_simps [OF libs] raw(1,5) wf_public_key_def PUBLICKEYBYTES_def flip: raw(4))
qed

text \<open>A private key's text gives back the whole key pair its seed makes.\<close>

interpretation private_key_wif:
  wif_format "PrivateKey_from_wif X" "\<lambda>kp. PrivateKey_to_wif X (kp_private kp)" "private_payload X"
    "wf_key_pair X" "wif_libs X" for X
proof
  assume libs: "wif_libs X"
  fix kp :: key_pair and s
  show "PrivateKey_from_wif X (PrivateKey_to_wif X (kp_private kp)) = Inr kp" if "wf_key_pair X kp"
    using that by (cases kp) (auto simp: PrivateKey_from_wif_def PrivateKey_to_wif_def Let_def
        wif_libs_simps [OF libs] ok_or_def and_then_def wf_key_pair_def SEEDBYTES_def)
  assume "PrivateKey_from_wif X s = Inr kp"
  then obtain raw pk sk where raw: "bs58_decode X s = Some raw" "length raw = Suc 32 + 4"
    "raw ! 0 = PRIV_BUF_PREFIX" "drop (length raw - 4) raw = wif_checksum X (take (length raw - 4) raw)"
    "keypair_from_seed X (drop 1 (take (length raw - 4) raw)) = (pk, sk)"
    "kp = KeyPair (PublicKey pk) \<lparr>seed = drop 1 (take (length raw - 4) raw), key = sk\<rparr>"
    by (auto simp: PrivateKey_from_wif_def Let_def fallible_iffs split: if_splits prod.splits)
  note sp = raw_split [OF raw(2-4)]
  moreover have "take (length raw - 4) raw = PRIV_BUF_PREFIX # drop 1 (take (length raw - 4) raw)"
    using raw(2,3) by (cases raw) simp_all
  ultimately show "wf_key_pair X kp \<and>
      private_payload X s = private_payload X (PrivateKey_to_wif X (kp_private kp))"
    using raw(5) by (simp add: private_payload_def PrivateKey_to_wif_def Let_def
        wif_libs_simps [OF libs] raw(1,6) wf_key_pair_def SEEDBYTES_def flip: raw(4))
qed

end
