(* ===== verification/Transactions.thy ===== *)
theory Transactions
  imports Accounts "HOL-Library.Monad_Syntax"
begin

text \<open>
  \<open>tx/mod.rs\<close>: the five kinds of transaction, their serialization with and without signatures,
  the transaction id and signing.  A decoder that returns \<open>Option\<close> is written in the option
  monad, one line per \<open>?\<close> of the source.
\<close>

section \<open>Transactions\<close>

datatype tx_type = TxOwner | TxMint | TxCreateAccount | TxUpdateAccount | TxTransfer

fun tx_type_byte :: "tx_type \<Rightarrow> u8" where
  "tx_type_byte TxOwner = 0x00"
| "tx_type_byte TxMint = 0x01"
| "tx_type_byte TxCreateAccount = 0x02"
| "tx_type_byte TxUpdateAccount = 0x03"
| "tx_type_byte TxTransfer = 0x04"

record tx =
  nonce :: u32
  expiry :: u64
  fee :: asset
  signature_pairs :: "sig_pair list"

record owner_tx =
  own_base :: tx
  minter :: public_key
  wallet :: account_id

record mint_tx =
  mint_base :: tx
  mint_to :: account_id
  mint_amount :: asset
  attachment :: bytes
  attachment_name :: bytes

record create_account_tx =
  ca_base :: tx
  creator :: account_id
  ca_account :: account

record update_account_tx =
  ua_base :: tx
  ua_account_id :: account_id
  new_script :: "script option"
  new_permissions :: "permissions option"

record transfer_tx =
  tr_base :: tx
  tr_from :: account_id
  call_fn :: u8
  tr_args :: bytes
  tr_amount :: asset
  memo :: bytes

datatype tx_variant_v0 =
    OwnerTx owner_tx
  | MintTx mint_tx
  | CreateAccountTx create_account_tx
  | UpdateAccountTx update_account_tx
  | TransferTx transfer_tx

datatype tx_variant = TxV0 tx_variant_v0

text \<open>\<open>Deref\<close> and \<open>DerefMut\<close> of a variant: its base, and the variant with another base.\<close>

fun tx_base :: "tx_variant_v0 \<Rightarrow> tx" where
  "tx_base (OwnerTx t) = own_base t"
| "tx_base (MintTx t) = mint_base t"
| "tx_base (CreateAccountTx t) = ca_base t"
| "tx_base (UpdateAccountTx t) = ua_base t"
| "tx_base (TransferTx t) = tr_base t"

fun with_base :: "tx_variant_v0 \<Rightarrow> tx \<Rightarrow> tx_variant_v0" where
  "with_base (OwnerTx t) b = OwnerTx (t\<lparr>own_base := b\<rparr>)"
| "with_base (MintTx t) b = MintTx (t\<lparr>mint_base := b\<rparr>)"
| "with_base (CreateAccountTx t) b = CreateAccountTx (t\<lparr>ca_base := b\<rparr>)"
| "with_base (UpdateAccountTx t) b = UpdateAccountTx (t\<lparr>ua_base := b\<rparr>)"
| "with_base (TransferTx t) b = TransferTx (t\<lparr>tr_base := b\<rparr>)"

fun tx_expiry :: "tx_variant \<Rightarrow> u64" where
  "tx_expiry (TxV0 t) = expiry (tx_base t)"

fun tx_sigs :: "tx_variant \<Rightarrow> sig_pair list" where
  "tx_sigs (TxV0 t) = signature_pairs (tx_base t)"

text \<open>Assigning through \<open>sigs_mut\<close>.\<close>

fun with_sigs :: "tx_variant \<Rightarrow> sig_pair list \<Rightarrow> tx_variant" where
  "with_sigs (TxV0 t) sigs = TxV0 (with_base t ((tx_base t)\<lparr>signature_pairs := sigs\<rparr>))"

section \<open>UTF-8\<close>

text \<open>The byte sequences \<open>String::from_utf8\<close> accepts.\<close>

definition is_cont :: "u8 \<Rightarrow> bool" where
  "is_cont b \<longleftrightarrow> 0x80 \<le> b \<and> b \<le> 0xBF"

fun utf8_valid :: "bytes \<Rightarrow> bool" where
  "utf8_valid [] = True"
| "utf8_valid (a # bs) =
     (if a \<le> 0x7F then utf8_valid bs
      else if 0xC2 \<le> a \<and> a \<le> 0xDF then
        (case bs of b # bs \<Rightarrow> is_cont b \<and> utf8_valid bs | _ \<Rightarrow> False)
      else if 0xE0 \<le> a \<and> a \<le> 0xEF then
        (case bs of
           b # c # bs \<Rightarrow> is_cont b \<and> is_cont c \<and> (a = 0xE0 \<longrightarrow> 0xA0 \<le> b) \<and>
             (a = 0xED \<longrightarrow> b \<le> 0x9F) \<and> utf8_valid bs
         | _ \<Rightarrow> False)
      else if 0xF0 \<le> a \<and> a \<le> 0xF4 then
        (case bs of
           b # c # d # bs \<Rightarrow> is_cont b \<and> is_cont c \<and> is_cont d \<and> (a = 0xF0 \<longrightarrow> 0x90 \<le> b) \<and>
             (a = 0xF4 \<longrightarrow> b \<le> 0x8F) \<and> utf8_valid bs
         | _ \<Rightarrow> False)
      else False)"

section \<open>Serializing\<close>

definition serialize_header :: "tx \<Rightarrow> bytes" where
  "serialize_header t = push_u32 (nonce t) @ push_u64 (expiry t) @ push_asset (fee t)"

definition OwnerTx_serialize :: "owner_tx \<Rightarrow> bytes" where
  "OwnerTx_serialize t =
     push_u8 (tx_type_byte TxOwner) @ serialize_header (own_base t) @
     push_pub_key (minter t) @ push_u64 (wallet t)"

definition MintTx_serialize :: "mint_tx \<Rightarrow> bytes" where
  "MintTx_serialize t =
     push_u8 (tx_type_byte TxMint) @ serialize_header (mint_base t) @
     push_u64 (mint_to t) @ push_asset (mint_amount t) @ push_bytes (attachment t) @
     push_bytes (attachment_name t)"

definition CreateAccountTx_serialize :: "create_account_tx \<Rightarrow> bytes" where
  "CreateAccountTx_serialize t =
     push_u8 (tx_type_byte TxCreateAccount) @ serialize_header (ca_base t) @
     push_u64 (creator t) @ Account_serialize (ca_account t)"

definition UpdateAccountTx_serialize :: "update_account_tx \<Rightarrow> bytes" where
  "UpdateAccountTx_serialize t =
     push_u8 (tx_type_byte TxUpdateAccount) @ serialize_header (ua_base t) @
     push_u64 (ua_account_id t) @
     (case new_script t of Some scr \<Rightarrow> push_u8 0x01 @ push_bytes scr | None \<Rightarrow> push_u8 0x00) @
     (case new_permissions t of
        Some perms \<Rightarrow> push_u8 0x01 @ Permissions_serialize perms | None \<Rightarrow> push_u8 0x00)"

definition TransferTx_serialize :: "transfer_tx \<Rightarrow> bytes" where
  "TransferTx_serialize t =
     push_u8 (tx_type_byte TxTransfer) @ serialize_header (tr_base t) @
     push_u64 (tr_from t) @ push_u8 (call_fn t) @ push_bytes (tr_args t) @
     push_asset (tr_amount t) @ push_bytes (memo t)"

fun serialize_without_sigs :: "tx_variant \<Rightarrow> bytes" where
  "serialize_without_sigs (TxV0 var) =
     push_u16 0x00 @
     (case var of
        OwnerTx t \<Rightarrow> OwnerTx_serialize t
      | MintTx t \<Rightarrow> MintTx_serialize t
      | CreateAccountTx t \<Rightarrow> CreateAccountTx_serialize t
      | UpdateAccountTx t \<Rightarrow> UpdateAccountTx_serialize t
      | TransferTx t \<Rightarrow> TransferTx_serialize t)"

definition serialize_sigs :: "sig_pair list \<Rightarrow> bytes" where
  "serialize_sigs sigs = push_u8 (of_nat (length sigs)) @ concat (map push_sig_pair sigs)"

definition TxVariant_serialize :: "tx_variant \<Rightarrow> bytes" where
  "TxVariant_serialize t = serialize_without_sigs t @ serialize_sigs (tx_sigs t)"

section \<open>Deserializing\<close>

definition tx_type_of_byte :: "u8 \<Rightarrow> tx_type option" where
  "tx_type_of_byte t =
     (if t = tx_type_byte TxOwner then Some TxOwner
      else if t = tx_type_byte TxMint then Some TxMint
      else if t = tx_type_byte TxCreateAccount then Some TxCreateAccount
      else if t = tx_type_byte TxUpdateAccount then Some TxUpdateAccount
      else if t = tx_type_byte TxTransfer then Some TxTransfer
      else None)"

definition deserialize_header :: "bytes \<Rightarrow> ((tx \<times> tx_type) \<times> bytes) option" where
  "deserialize_header cur = do {
     (t, cur) \<leftarrow> ok (take_u8 cur);
     tx_type \<leftarrow> tx_type_of_byte t;
     (n, cur) \<leftarrow> ok (take_u32 cur);
     (e, cur) \<leftarrow> ok (take_u64 cur);
     (f, cur) \<leftarrow> ok (take_asset cur);
     Some ((\<lparr>nonce = n, expiry = e, fee = f, signature_pairs = []\<rparr>, tx_type), cur)
   }"

definition OwnerTx_deserialize :: "bytes \<Rightarrow> tx \<Rightarrow> (owner_tx \<times> bytes) option" where
  "OwnerTx_deserialize cur base = do {
     (m, cur) \<leftarrow> ok (take_pub_key cur);
     (w, cur) \<leftarrow> ok (take_u64 cur);
     Some (\<lparr>own_base = base, minter = m, wallet = w\<rparr>, cur)
   }"

definition MintTx_deserialize :: "bytes \<Rightarrow> tx \<Rightarrow> (mint_tx \<times> bytes) option" where
  "MintTx_deserialize cur base = do {
     (to, cur) \<leftarrow> ok (take_u64 cur);
     (a, cur) \<leftarrow> ok (take_asset cur);
     (att, cur) \<leftarrow> ok (take_bytes cur);
     (name, cur) \<leftarrow> ok (take_bytes cur);
     (if utf8_valid name then
        Some (\<lparr>mint_base = base, mint_to = to, mint_amount = a, attachment = att,
               attachment_name = name\<rparr>, cur)
      else None)
   }"

definition CreateAccountTx_deserialize :: "bytes \<Rightarrow> tx \<Rightarrow> (create_account_tx \<times> bytes) option" where
  "CreateAccountTx_deserialize cur base = do {
     (c, cur) \<leftarrow> ok (take_u64 cur);
     (a, cur) \<leftarrow> ok (Account_deserialize cur);
     Some (\<lparr>ca_base = base, creator = c, ca_account = a\<rparr>, cur)
   }"

text \<open>An optional field: a tag byte, then the value.\<close>

definition take_optional :: "(bytes \<Rightarrow> ('a \<times> bytes) option) \<Rightarrow> bytes \<Rightarrow> ('a option \<times> bytes) option" where
  "take_optional dec cur = do {
     (tag, cur) \<leftarrow> ok (take_u8 cur);
     (if tag = 0x01 then map_option (\<lambda>(x, cur). (Some x, cur)) (dec cur)
      else if tag = 0x00 then Some (None, cur)
      else None)
   }"

definition UpdateAccountTx_deserialize :: "bytes \<Rightarrow> tx \<Rightarrow> (update_account_tx \<times> bytes) option" where
  "UpdateAccountTx_deserialize cur base = do {
     (aid, cur) \<leftarrow> ok (take_u64 cur);
     (scr, cur) \<leftarrow> take_optional (\<lambda>cur. ok (take_bytes cur)) cur;
     (perms, cur) \<leftarrow> take_optional (\<lambda>cur. ok (Permissions_deserialize cur)) cur;
     Some (\<lparr>ua_base = base, ua_account_id = aid, new_script = scr, new_permissions = perms\<rparr>, cur)
   }"

definition TransferTx_deserialize :: "bytes \<Rightarrow> tx \<Rightarrow> (transfer_tx \<times> bytes) option" where
  "TransferTx_deserialize cur base = do {
     (from', cur) \<leftarrow> ok (take_u64 cur);
     (f, cur) \<leftarrow> ok (take_u8 cur);
     (as, cur) \<leftarrow> ok (take_bytes cur);
     (a, cur) \<leftarrow> ok (take_asset cur);
     (m, cur) \<leftarrow> ok (take_bytes cur);
     Some (\<lparr>tr_base = base, tr_from = from', call_fn = f, tr_args = as, tr_amount = a, memo = m\<rparr>, cur)
   }"

definition deserialize_body :: "tx_type \<Rightarrow> bytes \<Rightarrow> tx \<Rightarrow> (tx_variant_v0 \<times> bytes) option" where
  "deserialize_body tx_type cur base =
     (case tx_type of
        TxOwner \<Rightarrow> map_option (map_prod OwnerTx id) (OwnerTx_deserialize cur base)
      | TxMint \<Rightarrow> map_option (map_prod MintTx id) (MintTx_deserialize cur base)
      | TxCreateAccount \<Rightarrow> map_option (map_prod CreateAccountTx id) (CreateAccountTx_deserialize cur base)
      | TxUpdateAccount \<Rightarrow> map_option (map_prod UpdateAccountTx id) (UpdateAccountTx_deserialize cur base)
      | TxTransfer \<Rightarrow> map_option (map_prod TransferTx id) (TransferTx_deserialize cur base))"

definition TxVariant_deserialize :: "bytes \<Rightarrow> (tx_variant \<times> bytes) option" where
  "TxVariant_deserialize cur = do {
     (tx_ver, cur) \<leftarrow> ok (take_u16 cur);
     (if tx_ver = 0x00 then do {
        ((base, tx_type), cur) \<leftarrow> deserialize_header cur;
        (t, cur) \<leftarrow> deserialize_body tx_type cur base;
        (len, cur) \<leftarrow> ok (take_u8 cur);
        (sigs, cur) \<leftarrow> ok (take_many take_sig_pair (unat len) cur);
        Some (TxV0 (with_base t ((tx_base t)\<lparr>signature_pairs := sigs\<rparr>)), cur)
      } else None)
   }"

section \<open>Transaction ids and signing\<close>

definition CHAIN_ID :: "'db ext \<Rightarrow> bytes" where
  "CHAIN_ID X = (if testnet X then [0x00, 0x01] else [0x00, 0x00])"

datatype tx_id = TxId (txid_digest: digest)

definition txid_bytes :: "tx_id \<Rightarrow> bytes" where
  "txid_bytes i = digest_bytes (txid_digest i)"

definition calc_txid :: "'db ext \<Rightarrow> tx_variant \<Rightarrow> tx_id" where
  "calc_txid X t =
     (let buf = serialize_without_sigs t;
          hasher = DoubleSha256_new X;
          hasher = DoubleSha256_update X hasher (CHAIN_ID X);
          hasher = DoubleSha256_update X hasher buf
      in TxId (DoubleSha256_finalize X hasher))"

record tx_precomp_data =
  pd_tx :: tx_variant
  pd_txid :: tx_id

definition TxPrecompData_from_tx :: "'db ext \<Rightarrow> tx_variant \<Rightarrow> tx_precomp_data" where
  "TxPrecompData_from_tx X t = \<lparr>pd_tx = t, pd_txid = calc_txid X t\<rparr>"

definition TxVariant_sign :: "'db ext \<Rightarrow> tx_variant \<Rightarrow> key_pair \<Rightarrow> sig_pair" where
  "TxVariant_sign X t kp = KeyPair_sign X kp (txid_bytes (calc_txid X t))"

definition append_sign :: "'db ext \<Rightarrow> tx_variant \<Rightarrow> key_pair \<Rightarrow> tx_variant" where
  "append_sign X t kp = with_sigs t (tx_sigs t @ [TxVariant_sign X t kp])"

section \<open>The round trip\<close>

definition wf_body :: "tx_variant_v0 \<Rightarrow> bool" where
  "wf_body var =
     (case var of
        OwnerTx t \<Rightarrow> wf_public_key (minter t)
      | MintTx t \<Rightarrow> wf_bytes (attachment t) \<and> wf_bytes (attachment_name t) \<and> utf8_valid (attachment_name t)
      | CreateAccountTx t \<Rightarrow> wf_account (ca_account t)
      | UpdateAccountTx t \<Rightarrow> pred_option wf_bytes (new_script t) \<and> pred_option wf_permissions (new_permissions t)
      | TransferTx t \<Rightarrow> wf_bytes (tr_args t) \<and> wf_bytes (memo t))"

definition wf_sigs :: "sig_pair list \<Rightarrow> bool" where
  "wf_sigs sigs \<longleftrightarrow> length sigs < 256 \<and> list_all wf_sig_pair sigs"

fun wf_tx :: "tx_variant \<Rightarrow> bool" where
  "wf_tx (TxV0 t) \<longleftrightarrow> wf_body t \<and> wf_sigs (signature_pairs (tx_base t))"

lemma tx_base_with_base [simp]: "tx_base (with_base t b) = b"
  by (cases t) simp_all

lemma with_base_with_base [simp]: "with_base (with_base t b) c = with_base t c"
  by (cases t) simp_all

lemma with_base_id [simp]: "with_base t (tx_base t) = t"
  by (cases t) simp_all

lemma wf_body_with_base [simp]: "wf_body (with_base t b) = wf_body t"
  by (cases t) (simp_all add: wf_body_def)

lemma tx_type_roundtrip [simp]: "tx_type_of_byte (tx_type_byte t) = Some t"
  by (cases t) (simp_all add: tx_type_of_byte_def)

lemma tx_type_of_byte_simps [simp]:
  "tx_type_of_byte 0 = Some TxOwner" "tx_type_of_byte 1 = Some TxMint"
  "tx_type_of_byte 2 = Some TxCreateAccount" "tx_type_of_byte 3 = Some TxUpdateAccount"
  "tx_type_of_byte 4 = Some TxTransfer"
  by (simp_all add: tx_type_of_byte_def)

lemma take_sigs_roundtrip:
  assumes "wf_sigs sigs"
  shows "ok (take_u8 (serialize_sigs sigs @ rest)) =
      Some (of_nat (length sigs), concat (map push_sig_pair sigs) @ rest)"
    and "ok (take_many take_sig_pair (unat (of_nat (length sigs) :: u8))
      (concat (map push_sig_pair sigs) @ rest)) = Some (sigs, rest)"
proof -
  have "unat (of_nat (length sigs) :: u8) = length sigs"
    using assms by (simp add: wf_sigs_def unat_of_nat)
  then show "ok (take_many take_sig_pair (unat (of_nat (length sigs) :: u8))
      (concat (map push_sig_pair sigs) @ rest)) = Some (sigs, rest)"
    using assms by (simp add: wf_sigs_def sig_pair_codec.take_many_roundtrip)
qed (simp add: serialize_sigs_def)

text \<open>Header and body, read back up to the signatures.\<close>

lemma deserialize_without_sigs:
  assumes "wf_body var"
  shows "\<exists>cur. serialize_without_sigs (TxV0 var) @ rest = push_u16 0x00 @ cur \<and>
    (do { ((base, tx_type), cur) \<leftarrow> deserialize_header cur; deserialize_body tx_type cur base }) =
      Some (with_base var ((tx_base var)\<lparr>signature_pairs := []\<rparr>), rest)"
  using assms
  by (cases var)
    (auto simp: wf_body_def deserialize_header_def deserialize_body_def serialize_header_def
      OwnerTx_serialize_def OwnerTx_deserialize_def MintTx_serialize_def MintTx_deserialize_def
      CreateAccountTx_serialize_def CreateAccountTx_deserialize_def UpdateAccountTx_serialize_def
      UpdateAccountTx_deserialize_def TransferTx_serialize_def TransferTx_deserialize_def
      take_optional_def split: option.splits)

text \<open>The encoding without signatures determines the transaction up to its signatures, even with more
  bytes behind it.\<close>

lemma without_sigs_prefix_free:
  assumes wf: "wf_body a" "wf_body b"
    and eq: "serialize_without_sigs (TxV0 a) @ xs = serialize_without_sigs (TxV0 b) @ ys"
  shows "with_sigs (TxV0 a) [] = with_sigs (TxV0 b) [] \<and> xs = ys"
proof -
  obtain c where c: "serialize_without_sigs (TxV0 a) @ xs = push_u16 0x00 @ c"
    "(do { ((base, tx_type), cur) \<leftarrow> deserialize_header c; deserialize_body tx_type cur base }) =
      Some (with_base a ((tx_base a)\<lparr>signature_pairs := []\<rparr>), xs)"
    using deserialize_without_sigs [OF wf(1)] by blast
  obtain d where d: "serialize_without_sigs (TxV0 b) @ ys = push_u16 0x00 @ d"
    "(do { ((base, tx_type), cur) \<leftarrow> deserialize_header d; deserialize_body tx_type cur base }) =
      Some (with_base b ((tx_base b)\<lparr>signature_pairs := []\<rparr>), ys)"
    using deserialize_without_sigs [OF wf(2)] by blast
  have "c = d" using c(1) d(1) eq by simp
  then show ?thesis using c(2) d(2) by simp
qed

lemma tx_deserialize_serialize:
  assumes "wf_tx t"
  shows "TxVariant_deserialize (TxVariant_serialize t @ rest) = Some (t, rest)"
proof -
  obtain var where t: "t = TxV0 var" by (cases t)
  let ?sigs = "signature_pairs (tx_base var)"
  have wf: "wf_body var" "wf_sigs ?sigs" using assms by (simp_all add: t)
  obtain cur where c: "serialize_without_sigs (TxV0 var) @ serialize_sigs ?sigs @ rest = push_u16 0x00 @ cur"
    "(do { ((base, tx_type), cur) \<leftarrow> deserialize_header cur; deserialize_body tx_type cur base }) =
      Some (with_base var ((tx_base var)\<lparr>signature_pairs := []\<rparr>), serialize_sigs ?sigs @ rest)"
    using deserialize_without_sigs [OF wf(1)] by blast
  obtain base tx_type cur' where d: "deserialize_header cur = Some ((base, tx_type), cur')"
    "deserialize_body tx_type cur' base =
      Some (with_base var ((tx_base var)\<lparr>signature_pairs := []\<rparr>), serialize_sigs ?sigs @ rest)"
    using c(2) by (auto simp: bind_eq_Some_conv)
  have "TxVariant_deserialize (push_u16 0x00 @ cur) = Some (t, rest)"
    by (simp add: TxVariant_deserialize_def d take_sigs_roundtrip [OF wf(2)] t)
  then show ?thesis
    using c(1) by (simp add: TxVariant_serialize_def t)
qed

lemma deserialize_body_wf: "deserialize_body ty cur base = Some (t, cur') \<Longrightarrow> wf_body t"
  by (cases ty)
    (auto simp: deserialize_body_def wf_body_def OwnerTx_deserialize_def MintTx_deserialize_def
      CreateAccountTx_deserialize_def UpdateAccountTx_deserialize_def TransferTx_deserialize_def
      take_optional_def bind_eq_Some_conv fallible_iffs
      dest: pub_key_codec.io_dec_wf bytes_codec.io_dec_wf account_codec.io_dec_wf
        permissions_codec.io_dec_wf
      split: if_splits)

lemma tx_deserialize_wf:
  assumes "TxVariant_deserialize cur = Some (t, cur')"
  shows "wf_tx t"
proof -
  obtain var sigs ty c base d e and len :: u8 where
    t: "t = TxV0 (with_base var ((tx_base var)\<lparr>signature_pairs := sigs\<rparr>))"
    and d: "deserialize_body ty c base = Some (var, d)"
    and s: "take_many take_sig_pair (unat len) e = Inr (sigs, cur')"
    using assms
    by (auto simp: TxVariant_deserialize_def bind_eq_Some_conv fallible_iffs split: if_splits)
  show ?thesis
    using deserialize_body_wf [OF d] sig_pair_codec.take_many_wf [OF s] unsigned_less [of len, where 'a = nat]
    by (simp add: t wf_sigs_def)
qed

interpretation tx_codec: opt_parser TxVariant_serialize TxVariant_deserialize wf_tx
  by unfold_locales (rule tx_deserialize_serialize, assumption, rule tx_deserialize_wf)

text \<open>Signatures do not enter the id.\<close>

lemma serialize_without_sigs_with_sigs [simp]:
  "serialize_without_sigs (with_sigs t sigs) = serialize_without_sigs t"
  by (cases t; cases "case t of TxV0 v \<Rightarrow> v")
    (simp_all add: OwnerTx_serialize_def MintTx_serialize_def CreateAccountTx_serialize_def
      UpdateAccountTx_serialize_def TransferTx_serialize_def serialize_header_def)

lemma calc_txid_with_sigs [simp]: "calc_txid X (with_sigs t sigs) = calc_txid X t"
  by (simp add: calc_txid_def)

lemma tx_sigs_with_sigs [simp]: "tx_sigs (with_sigs t sigs) = sigs"
  by (cases t) simp

lemma calc_txid_eq:
  assumes "sha256_ok X"
  shows "calc_txid X t = TxId (double_sha256 X (CHAIN_ID X @ serialize_without_sigs t))"
  using double_sha256_streaming [OF assms, of "[CHAIN_ID X, serialize_without_sigs t]"]
  by (simp add: calc_txid_def Let_def)

end
