(* ===== verification/Blocks.thy ===== *)
theory Blocks
  imports Transactions
begin

text \<open>
  \<open>blockchain/error.rs\<close>, the receipts and log entries of \<open>blockchain/receipt.rs\<close>, and
  \<open>blockchain/block.rs\<close>: blocks, their headers, hashing, signing and serialization.  The receipt
  pool of \<open>receipt.rs\<close> is in the theory of the pool.
\<close>

section \<open>Errors\<close>

datatype tx_err =
    ScriptEval eval_err
  | AccountNotFound
  | AccountAlreadyExists
  | InvalidAccountPermissions
  | Arithmetic
  | InvalidAmount
  | InvalidFeeAmount
  | TooManySignatures
  | TxTooLarge
  | TxProhibited
  | TxExpired
  | TxDupe

datatype block_err =
    InvalidBlockHeight
  | InvalidReceiptRoot
  | InvalidSignature
  | InvalidPrevHash
  | BlockTxErr tx_err

fun TxErr_serialize :: "tx_err \<Rightarrow> bytes" where
  "TxErr_serialize (ScriptEval err) =
     push_u8 0x00 @ push_u32 (ee_pos err) @ push_u8 (eval_err_kind_byte (ee_err err))"
| "TxErr_serialize AccountNotFound = push_u8 0x01"
| "TxErr_serialize AccountAlreadyExists = push_u8 0x02"
| "TxErr_serialize InvalidAccountPermissions = push_u8 0x03"
| "TxErr_serialize Arithmetic = push_u8 0x04"
| "TxErr_serialize InvalidAmount = push_u8 0x05"
| "TxErr_serialize InvalidFeeAmount = push_u8 0x06"
| "TxErr_serialize TooManySignatures = push_u8 0x07"
| "TxErr_serialize TxTooLarge = push_u8 0x08"
| "TxErr_serialize TxProhibited = push_u8 0x09"
| "TxErr_serialize TxExpired = push_u8 0x0A"
| "TxErr_serialize TxDupe = push_u8 0x0B"

definition TxErr_deserialize :: "tx_err reader" where
  "TxErr_deserialize cur =
     and_then (take_u8 cur) (\<lambda>(tag, cur).
       if tag = 0x00 then
         and_then (take_u32 cur) (\<lambda>(pos, cur).
         and_then (take_u8 cur) (\<lambda>(k, cur).
         and_then (ok_or (eval_err_kind_try_from k) (InvalidData ''failed to deserialize EvalErrType''))
           (\<lambda>kind. Inr (ScriptEval (EvalErr_new pos kind), cur))))
       else if tag = 0x01 then Inr (AccountNotFound, cur)
       else if tag = 0x02 then Inr (AccountAlreadyExists, cur)
       else if tag = 0x03 then Inr (InvalidAccountPermissions, cur)
       else if tag = 0x04 then Inr (Arithmetic, cur)
       else if tag = 0x05 then Inr (InvalidAmount, cur)
       else if tag = 0x06 then Inr (InvalidFeeAmount, cur)
       else if tag = 0x07 then Inr (TooManySignatures, cur)
       else if tag = 0x08 then Inr (TxTooLarge, cur)
       else if tag = 0x09 then Inr (TxProhibited, cur)
       else if tag = 0x0A then Inr (TxExpired, cur)
       else if tag = 0x0B then Inr (TxDupe, cur)
       else Inl (InvalidData ''failed to deserialize TxErr''))"

interpretation tx_err_codec: io_parser TxErr_serialize TxErr_deserialize any
proof
  fix a rest
  show "TxErr_deserialize (TxErr_serialize a @ rest) = Inr (a, rest)"
    by (cases a) (simp_all add: TxErr_deserialize_def EvalErr_new_def)
qed simp

section \<open>Receipts\<close>

datatype log_entry =
    LogTransfer account_id asset
  | LogDestroy account_id

record receipt =
  rc_tx :: tx_variant
  rc_log :: "log_entry list"

fun LogEntry_serialize :: "log_entry \<Rightarrow> bytes" where
  "LogEntry_serialize (LogTransfer acc a) = push_u8 0x00 @ push_u64 acc @ push_asset a"
| "LogEntry_serialize (LogDestroy acc) = push_u8 0x01 @ push_u64 acc"

definition LogEntry_deserialize :: "bytes \<Rightarrow> (log_entry \<times> bytes) option" where
  "LogEntry_deserialize cur = do {
     (tag, cur) \<leftarrow> ok (take_u8 cur);
     (if tag = 0x00 then do {
        (acc, cur) \<leftarrow> ok (take_u64 cur);
        (amt, cur) \<leftarrow> ok (take_asset cur);
        Some (LogTransfer acc amt, cur)
      } else if tag = 0x01 then do {
        (acc, cur) \<leftarrow> ok (take_u64 cur);
        Some (LogDestroy acc, cur)
      } else None)
   }"

definition Receipt_serialize :: "receipt \<Rightarrow> bytes" where
  "Receipt_serialize self =
     TxVariant_serialize (rc_tx self) @ push_u16 (of_nat (length (rc_log self))) @
     concat (map LogEntry_serialize (rc_log self))"

definition Receipt_deserialize :: "bytes \<Rightarrow> (receipt \<times> bytes) option" where
  "Receipt_deserialize cur = do {
     (t, cur) \<leftarrow> TxVariant_deserialize cur;
     (log_len, cur) \<leftarrow> ok (take_u16 cur);
     (log, cur) \<leftarrow> take_many_opt LogEntry_deserialize (unat log_len) cur;
     Some (\<lparr>rc_tx = t, rc_log = log\<rparr>, cur)
   }"

definition wf_receipt :: "receipt \<Rightarrow> bool" where
  "wf_receipt r \<longleftrightarrow> wf_tx (rc_tx r) \<and> length (rc_log r) < 2 ^ 16"

interpretation log_codec: opt_parser LogEntry_serialize LogEntry_deserialize any
proof
  fix a rest
  show "LogEntry_deserialize (LogEntry_serialize a @ rest) = Some (a, rest)"
    by (cases a) (simp_all add: LogEntry_deserialize_def)
qed simp

lemma list_all_any [simp]: "list_all any xs"
  by (simp add: list_all_iff)

interpretation receipt_codec: opt_parser Receipt_serialize Receipt_deserialize wf_receipt
proof
  fix r rest
  assume r: "wf_receipt r"
  then have u: "unat (of_nat (length (rc_log r)) :: u16) = length (rc_log r)"
    by (simp add: wf_receipt_def unat_of_nat)
  show "Receipt_deserialize (Receipt_serialize r @ rest) = Some (r, rest)"
    using r by (simp add: Receipt_deserialize_def Receipt_serialize_def wf_receipt_def
        tx_codec.roundtrip u log_codec.take_many_opt_roundtrip)
next
  fix cur r cur'
  assume "Receipt_deserialize cur = Some (r, cur')"
  then obtain len :: u16 and c d where "TxVariant_deserialize c = Some (rc_tx r, d)"
    and "\<exists>c. take_many_opt LogEntry_deserialize (unat len) c = Some (rc_log r, cur')"
    by (auto simp: Receipt_deserialize_def Option.bind_eq_Some_conv fallible_iffs) blast
  then show "wf_receipt r"
    using unsigned_less [of len, where 'a = nat]
    by (auto simp: wf_receipt_def dest!: log_codec.take_many_opt_wf tx_codec.dec_wf)
qed

section \<open>Blocks\<close>

record block_header_v0 =
  previous_hash :: digest
  height :: u64
  timestamp :: u64
  receipt_root :: digest

datatype block_header = HeaderV0 block_header_v0

record block_v0 =
  header :: block_header_v0
  signer :: "sig_pair option"
  rewards :: asset
  receipts :: "receipt list"

datatype block = BlockV0 (block_v0: block_v0)

datatype filtered_block = FilteredHeader block_header sig_pair | FilteredBlock block

definition Block_header :: "block \<Rightarrow> block_header" where
  "Block_header b = HeaderV0 (header (block_v0 b))"

definition Block_height :: "block \<Rightarrow> u64" where
  "Block_height b = height (header (block_v0 b))"

definition Block_timestamp :: "block \<Rightarrow> u64" where
  "Block_timestamp b = timestamp (header (block_v0 b))"

definition Block_rewards :: "block \<Rightarrow> asset" where
  "Block_rewards b = rewards (block_v0 b)"

definition Block_receipts :: "block \<Rightarrow> receipt list" where
  "Block_receipts b = receipts (block_v0 b)"

definition Block_signer :: "block \<Rightarrow> sig_pair option" where
  "Block_signer b = signer (block_v0 b)"

definition BlockHeaderV0_serialize :: "block_header_v0 \<Rightarrow> bytes" where
  "BlockHeaderV0_serialize self =
     push_u16 0x00 @ push_digest (previous_hash self) @ push_u64 (height self) @
     push_u64 (timestamp self) @ push_digest (receipt_root self)"

definition BlockHeaderV0_deserialize :: "bytes \<Rightarrow> (block_header_v0 \<times> bytes) option" where
  "BlockHeaderV0_deserialize cur = do {
     (ph, cur) \<leftarrow> ok (take_digest cur);
     (h, cur) \<leftarrow> ok (take_u64 cur);
     (ts, cur) \<leftarrow> ok (take_u64 cur);
     (rr, cur) \<leftarrow> ok (take_digest cur);
     Some (\<lparr>previous_hash = ph, height = h, timestamp = ts, receipt_root = rr\<rparr>, cur)
   }"

fun BlockHeader_serialize :: "block_header \<Rightarrow> bytes" where
  "BlockHeader_serialize (HeaderV0 h) = BlockHeaderV0_serialize h"

definition BlockHeader_deserialize :: "bytes \<Rightarrow> (block_header \<times> bytes) option" where
  "BlockHeader_deserialize cur = do {
     (header_ver, cur) \<leftarrow> ok (take_u16 cur);
     (if header_ver = 0x00
      then map_option (map_prod HeaderV0 id) (BlockHeaderV0_deserialize cur)
      else None)
   }"

text \<open>Serializing an unsigned block panics (\<open>expect\<close>).\<close>

fun Block_serialize :: "block \<Rightarrow> 'e fail + bytes" where
  "Block_serialize (BlockV0 b) =
     and_then (unwrap (signer b)) (\<lambda>sp.
       Inr (BlockHeaderV0_serialize (header b) @ push_sig_pair sp @ push_asset (rewards b) @
            push_u32 (of_nat (length (receipts b))) @ concat (map Receipt_serialize (receipts b))))"

definition Block_deserialize :: "bytes \<Rightarrow> (block \<times> bytes) option" where
  "Block_deserialize cur = do {
     (h, cur) \<leftarrow> BlockHeader_deserialize cur;
     (case h of HeaderV0 h \<Rightarrow> do {
        (sp, cur) \<leftarrow> ok (take_sig_pair cur);
        (rew, cur) \<leftarrow> ok (take_asset cur);
        (len, cur) \<leftarrow> ok (take_u32 cur);
        (rcs, cur) \<leftarrow> take_many_opt Receipt_deserialize (unat len) cur;
        Some (BlockV0 \<lparr>header = h, signer = Some sp, rewards = rew, receipts = rcs\<rparr>, cur)
      })
   }"

definition BlockV0_calc_header_hash :: "'db ext \<Rightarrow> block_v0 \<Rightarrow> digest" where
  "BlockV0_calc_header_hash X b = double_sha256 X (BlockHeaderV0_serialize (header b))"

definition calc_header_hash :: "'db ext \<Rightarrow> block \<Rightarrow> digest" where
  "calc_header_hash X b = BlockV0_calc_header_hash X (block_v0 b)"

definition calc_receipt_root :: "'db ext \<Rightarrow> receipt list \<Rightarrow> digest" where
  "calc_receipt_root X rcs =
     (let hasher = foldl (\<lambda>hasher r. DoubleSha256_update X hasher (Receipt_serialize r))
                     (DoubleSha256_new X) rcs
      in DoubleSha256_finalize X hasher)"

definition Block_sign :: "'db ext \<Rightarrow> block \<Rightarrow> key_pair \<Rightarrow> block" where
  "Block_sign X b kp =
     (let buf = calc_header_hash X b
      in BlockV0 ((block_v0 b)\<lparr>signer := Some (KeyPair_sign X kp (digest_bytes buf))\<rparr>))"

definition verify_previous_hash :: "'db ext \<Rightarrow> block \<Rightarrow> block \<Rightarrow> bool" where
  "verify_previous_hash X self prev_block \<longleftrightarrow>
     previous_hash (header (block_v0 self)) = calc_header_hash X prev_block"

definition verify_receipt_root :: "'db ext \<Rightarrow> block \<Rightarrow> bool" where
  "verify_receipt_root X self \<longleftrightarrow>
     receipt_root (header (block_v0 self)) = calc_receipt_root X (receipts (block_v0 self))"

text \<open>\<open>new_child\<close> at the time \<open>now\<close>; a sum of fees that leaves the range panics.\<close>

definition sum_fees :: "asset \<Rightarrow> receipt list \<Rightarrow> 'e fail + asset" where
  "sum_fees acc rcs = foldl (\<lambda>acc r. and_then acc (\<lambda>acc.
     case rc_tx r of TxV0 t \<Rightarrow> unwrap (Asset_checked_add acc (fee (tx_base t))))) (Inr acc) rcs"

definition new_child :: "'db ext \<Rightarrow> u64 \<Rightarrow> block_v0 \<Rightarrow> receipt list \<Rightarrow> 'e fail + block" where
  "new_child X now self rcs =
     and_then (sum_fees Asset_default rcs) (\<lambda>rew.
       Inr (BlockV0 \<lparr>header = \<lparr>previous_hash = BlockV0_calc_header_hash X self,
                               height = height (header self) + 1,
                               timestamp = now,
                               receipt_root = calc_receipt_root X rcs\<rparr>,
                     signer = None,
                     rewards = rew,
                     receipts = rcs\<rparr>))"

section \<open>The block codecs and hashes\<close>

fun wf_header :: "block_header \<Rightarrow> bool" where
  "wf_header (HeaderV0 h) \<longleftrightarrow> wf_digest (previous_hash h) \<and> wf_digest (receipt_root h)"

definition wf_block :: "block \<Rightarrow> bool" where
  "wf_block b \<longleftrightarrow> wf_header (Block_header b) \<and> (\<exists>sp. Block_signer b = Some sp \<and> wf_sig_pair sp) \<and>
     length (Block_receipts b) < 2 ^ 32 \<and> list_all wf_receipt (Block_receipts b)"

lemmas block_accessors =
  Block_header_def Block_height_def Block_timestamp_def Block_rewards_def Block_receipts_def
  Block_signer_def

interpretation header_codec: opt_parser BlockHeader_serialize BlockHeader_deserialize wf_header
proof
  fix h rest
  assume "wf_header h"
  then show "BlockHeader_deserialize (BlockHeader_serialize h @ rest) = Some (h, rest)"
    by (cases h) (simp add: BlockHeader_deserialize_def BlockHeaderV0_serialize_def
        BlockHeaderV0_deserialize_def)
next
  fix cur h cur'
  assume "BlockHeader_deserialize cur = Some (h, cur')"
  then show "wf_header h"
    by (auto simp: BlockHeader_deserialize_def BlockHeaderV0_deserialize_def Option.bind_eq_Some_conv
        fallible_iffs dest: digest_codec.io_dec_wf split: if_splits)
qed

lemma BlockHeader_deserialize_V0:
  assumes "wf_header (HeaderV0 h)"
  shows "BlockHeader_deserialize (BlockHeaderV0_serialize h @ rest) = Some (HeaderV0 h, rest)"
  using header_codec.roundtrip [OF assms] by simp

text \<open>The bytes of a signed block.\<close>

definition block_bytes :: "block \<Rightarrow> bytes" where
  "block_bytes b = projr (Block_serialize b :: unit fail + bytes)"

lemma Block_serialize_eq:
  "Block_serialize b = (if Block_signer b = None then Inl Panic else Inr (block_bytes b))"
  by (cases b) (auto simp: block_bytes_def block_accessors)

interpretation block_codec: opt_parser block_bytes Block_deserialize wf_block
proof
  fix b rest
  assume wf: "wf_block b"
  obtain v where b: "b = BlockV0 v" by (cases b)
  have u: "unat (of_nat (length (receipts v)) :: u32) = length (receipts v)"
    using wf by (simp add: b wf_block_def block_accessors unat_of_nat)
  show "Block_deserialize (block_bytes b @ rest) = Some (b, rest)"
    using wf by (auto simp: b wf_block_def block_accessors block_bytes_def Block_deserialize_def
        BlockHeader_deserialize_V0 u receipt_codec.take_many_opt_roundtrip)
next
  fix cur b cur'
  assume "Block_deserialize cur = Some (b, cur')"
  moreover obtain h c where h: "BlockHeader_deserialize cur = Some (HeaderV0 h, c)"
    using calculation
    by (auto simp: Block_deserialize_def Option.bind_eq_Some_conv) (metis block_header.exhaust)
  ultimately obtain sp rew rcs d e and len :: u32 where
    "b = BlockV0 \<lparr>header = h, signer = Some sp, rewards = rew, receipts = rcs\<rparr>"
    "take_sig_pair c = Inr (sp, d)" "take_many_opt Receipt_deserialize (unat len) e = Some (rcs, cur')"
    by (auto simp: Block_deserialize_def Option.bind_eq_Some_conv fallible_iffs)
  with h show "wf_block b"
    using unsigned_less [of len, where 'a = nat]
    by (auto simp: wf_block_def block_accessors simp del: wf_header.simps
        dest!: receipt_codec.take_many_opt_wf header_codec.dec_wf sig_pair_codec.io_dec_wf)
qed

lemma calc_receipt_root_eq:
  assumes "sha256_ok X"
  shows "calc_receipt_root X rcs = double_sha256 X (concat (map Receipt_serialize rcs))"
proof -
  have "foldl (\<lambda>h r. DoubleSha256_update X h (Receipt_serialize r)) st rcs =
      foldl (DoubleSha256_update X) st (map Receipt_serialize rcs)" for st
    by (induction rcs arbitrary: st) simp_all
  then show ?thesis
    by (simp add: calc_receipt_root_def double_sha256_streaming [OF assms])
qed

lemma calc_header_hash_sign [simp]: "calc_header_hash X (Block_sign X b kp) = calc_header_hash X b"
  by (simp add: calc_header_hash_def Block_sign_def BlockV0_calc_header_hash_def)

lemma Block_sign_accessors [simp]:
  "Block_header (Block_sign X b kp) = Block_header b"
  "Block_height (Block_sign X b kp) = Block_height b"
  "Block_timestamp (Block_sign X b kp) = Block_timestamp b"
  "Block_rewards (Block_sign X b kp) = Block_rewards b"
  "Block_receipts (Block_sign X b kp) = Block_receipts b"
  "Block_signer (Block_sign X b kp) = Some (KeyPair_sign X kp (digest_bytes (calc_header_hash X b)))"
  by (simp_all add: block_accessors Block_sign_def)

text \<open>The fees of a list of receipts.\<close>

definition receipt_fee :: "receipt \<Rightarrow> int" where
  "receipt_fee r = (case rc_tx r of TxV0 t \<Rightarrow> amt (fee (tx_base t)))"

lemma sum_fees_Inl: "foldl (\<lambda>acc r. and_then acc (f r)) (Inl e) rcs = Inl e"
  by (induction rcs) simp_all

lemma sum_fees_simps [simp]:
  "sum_fees acc [] = Inr acc"
  "sum_fees acc (r # rcs) =
     (case Asset_checked_add acc (fee (tx_base (case rc_tx r of TxV0 t \<Rightarrow> t))) of
        None \<Rightarrow> Inl Panic | Some acc \<Rightarrow> sum_fees acc rcs)"
   apply (simp add: sum_fees_def)
  apply (simp add: sum_fees_def sum_fees_Inl split: option.splits tx_variant.splits)
  done

lemma sum_fees_Inr: "sum_fees acc rcs = Inr a \<Longrightarrow> amt a = amt acc + sum_list (map receipt_fee rcs)"
  by (induction rcs arbitrary: acc)
    (auto simp: Asset_checked_add_iff receipt_fee_def split: option.splits tx_variant.splits)

text \<open>What was signed by a key is well-formed when its parts are.\<close>

lemma wf_Block_sign:
  assumes "sign_ok X" "wf_key_pair X kp" "wf_header (Block_header b)" "length (Block_receipts b) < 2 ^ 32"
    and "list_all wf_receipt (Block_receipts b)"
  shows "wf_block (Block_sign X b kp)"
  using assms wf_KeyPair_sign [OF assms(1,2)] by (simp add: wf_block_def)

end
