(* ===== verification/Indexes.thy ===== *)
theory Indexes
  imports Blocks "HOL-Library.AList"
begin

text \<open>
  \<open>blockchain/index.rs\<close>: the indexer, which keeps the chain's derived state as bytes in the
  column families of the key-value store, and the write batch, which buffers changes in typed
  form and commits them at once.  A \<open>HashMap\<close> that is iterated is an association list with
  distinct keys.  \<open>db\<close> is the state of the store behind the \<open>Arc<Indexer>\<close>.
\<close>

section \<open>The indexer\<close>

definition ascii :: "string \<Rightarrow> bytes" where
  "ascii s = map of_char s"

definition CF_DEFAULT :: string where "CF_DEFAULT = ''default''"
definition CF_BLOCK_BYTE_POS :: string where "CF_BLOCK_BYTE_POS = ''block_byte_pos''"
definition CF_ACCOUNT :: string where "CF_ACCOUNT = ''account''"
definition CF_TX_EXPIRY :: string where "CF_TX_EXPIRY = ''tx_expiry''"

definition KEY_NET_OWNER :: bytes where "KEY_NET_OWNER = ascii ''network_owner''"
definition KEY_CHAIN_HEIGHT :: bytes where "KEY_CHAIN_HEIGHT = ascii ''chain_height''"
definition KEY_TOKEN_SUPPLY :: bytes where "KEY_TOKEN_SUPPLY = ascii ''token_supply''"
definition KEY_INDEX_STATUS :: bytes where "KEY_INDEX_STATUS = ascii ''index_status''"

definition TX_EXPIRY_ADJUSTMENT :: u64 where "TX_EXPIRY_ADJUSTMENT = 30"

datatype index_status = StatusNone | StatusPartial | StatusComplete

text \<open>\<open>u64::from_be_bytes(buf.try_into().unwrap())\<close>.\<close>

definition u64_from_slice :: "bytes \<Rightarrow> 'e fail + u64" where
  "u64_from_slice buf = (if length buf = 8 then Inr (from_be buf) else Inl Panic)"

definition get_index_status :: "'db ext \<Rightarrow> 'db \<Rightarrow> 'e fail + index_status" where
  "get_index_status X db =
     (case db_get X db CF_DEFAULT KEY_INDEX_STATUS of
        Some buf_status \<Rightarrow>
          (case buf_status of
             [] \<Rightarrow> Inl Panic
           | b # _ \<Rightarrow>
               if b = 0 then Inr StatusNone
               else if b = 1 then Inr StatusPartial
               else if b = 2 then Inr StatusComplete
               else Inl Panic)
      | None \<Rightarrow> Inr StatusNone)"

definition set_index_status :: "'db ext \<Rightarrow> 'db \<Rightarrow> index_status \<Rightarrow> 'db" where
  "set_index_status X db status =
     (let status_byte = (case status of StatusNone \<Rightarrow> 0 | StatusPartial \<Rightarrow> 1 | StatusComplete \<Rightarrow> 2)
      in db_write X db [PutCf CF_DEFAULT KEY_INDEX_STATUS [status_byte]])"

definition get_block_byte_pos :: "'db ext \<Rightarrow> 'db \<Rightarrow> u64 \<Rightarrow> 'e fail + u64 option" where
  "get_block_byte_pos X db h =
     (case db_get X db CF_BLOCK_BYTE_POS (be_bytes 8 h) of
        None \<Rightarrow> Inr None
      | Some buf \<Rightarrow> and_then (u64_from_slice buf) (\<lambda>pos. Inr (Some pos)))"

definition get_chain_height :: "'db ext \<Rightarrow> 'db \<Rightarrow> 'e fail + u64" where
  "get_chain_height X db =
     (case db_get X db CF_DEFAULT KEY_CHAIN_HEIGHT of
        Some buf \<Rightarrow> u64_from_slice buf
      | None \<Rightarrow> Inr 0)"

fun is_owner_tx :: "tx_variant \<Rightarrow> bool" where
  "is_owner_tx (TxV0 (OwnerTx _)) = True"
| "is_owner_tx _ = False"

definition get_owner :: "'db ext \<Rightarrow> 'db \<Rightarrow> 'e fail + tx_variant option" where
  "get_owner X db =
     (case db_get X db CF_DEFAULT KEY_NET_OWNER of
        None \<Rightarrow> Inr None
      | Some tx_buf \<Rightarrow>
          and_then (unwrap (TxVariant_deserialize tx_buf)) (\<lambda>(t, cur).
            if is_owner_tx t then Inr (Some t) else Inl Panic))"

definition idx_get_account :: "'db ext \<Rightarrow> 'db \<Rightarrow> account_id \<Rightarrow> 'e fail + account option" where
  "idx_get_account X db i =
     (case db_get X db CF_ACCOUNT (be_bytes 8 i) of
        None \<Rightarrow> Inr None
      | Some buf \<Rightarrow>
          and_then (unwrap (ok (Account_deserialize buf))) (\<lambda>(acc, cur). Inr (Some acc)))"

definition account_exists :: "'db ext \<Rightarrow> 'db \<Rightarrow> account_id \<Rightarrow> bool" where
  "account_exists X db i \<longleftrightarrow> db_get X db CF_ACCOUNT (be_bytes 8 i) \<noteq> None"

definition get_token_supply :: "'db ext \<Rightarrow> 'db \<Rightarrow> 'e fail + asset" where
  "get_token_supply X db =
     (case db_get X db CF_DEFAULT KEY_TOKEN_SUPPLY of
        Some supply_buf \<Rightarrow> and_then (unwrap (ok (take_asset supply_buf))) (\<lambda>(a, cur). Inr a)
      | None \<Rightarrow> Inr Asset_default)"

definition has_txid :: "'db ext \<Rightarrow> 'db \<Rightarrow> tx_id \<Rightarrow> bool" where
  "has_txid X db i \<longleftrightarrow> db_get X db CF_TX_EXPIRY (txid_bytes i) \<noteq> None"

definition insert_txid :: "'db ext \<Rightarrow> 'db \<Rightarrow> tx_id \<Rightarrow> u64 \<Rightarrow> 'db" where
  "insert_txid X db i e = db_write X db [PutCf CF_TX_EXPIRY (txid_bytes i) (be_bytes 8 e)]"

text \<open>\<open>now\<close> is \<open>get_epoch_time\<close>; the subtraction wraps below 30 seconds.\<close>

primrec purge_batch :: "u64 \<Rightarrow> (bytes \<times> bytes) list \<Rightarrow> 'e fail + db_op list" where
  "purge_batch current_time [] = Inr []"
| "purge_batch current_time (kv # kvs) =
     and_then (u64_from_slice (snd kv)) (\<lambda>e.
     and_then (purge_batch current_time kvs) (\<lambda>batch.
       Inr (if e < current_time then DeleteCf CF_TX_EXPIRY (fst kv) # batch else batch)))"

definition purge_expired_txids :: "'db ext \<Rightarrow> u64 \<Rightarrow> 'db \<Rightarrow> 'e fail + 'db" where
  "purge_expired_txids X now db =
     (let current_time = now - TX_EXPIRY_ADJUSTMENT
      in and_then (purge_batch current_time (db_iter X db CF_TX_EXPIRY)) (\<lambda>batch.
           Inr (db_write X db batch)))"

section \<open>Write batches\<close>

record write_batch =
  wb_block_byte_pos :: "(u64 \<times> u64) list"
  wb_chain_height :: "u64 option"
  wb_owner :: "tx_variant option"
  wb_accounts :: "(account_id \<times> account) list"
  wb_token_supply :: "asset option"

definition WriteBatch_new :: write_batch where
  "WriteBatch_new = \<lparr>wb_block_byte_pos = [], wb_chain_height = None, wb_owner = None,
     wb_accounts = [], wb_token_supply = None\<rparr>"

text \<open>The operations of \<open>commit\<close>: block positions, the keys of the default family, accounts.\<close>

definition commit_default_ops :: "write_batch \<Rightarrow> db_op list" where
  "commit_default_ops self =
     (case wb_chain_height self of
        Some h \<Rightarrow> [PutCf CF_DEFAULT KEY_CHAIN_HEIGHT (be_bytes 8 h)] | None \<Rightarrow> []) @
     (case wb_owner self of
        Some owner \<Rightarrow> [PutCf CF_DEFAULT KEY_NET_OWNER (TxVariant_serialize owner)] | None \<Rightarrow> []) @
     (case wb_token_supply self of
        Some supply \<Rightarrow> [PutCf CF_DEFAULT KEY_TOKEN_SUPPLY (push_asset supply)] | None \<Rightarrow> [])"

definition commit_ops :: "write_batch \<Rightarrow> db_op list" where
  "commit_ops self =
     map (\<lambda>(h, pos). PutCf CF_BLOCK_BYTE_POS (be_bytes 8 h) (be_bytes 8 pos)) (wb_block_byte_pos self) @
     commit_default_ops self @
     map (\<lambda>(i, acc). PutCf CF_ACCOUNT (be_bytes 8 i) (Account_serialize acc)) (wb_accounts self)"

definition commit :: "'db ext \<Rightarrow> 'db \<Rightarrow> write_batch \<Rightarrow> 'db" where
  "commit X db self = db_write X db (commit_ops self)"

definition set_block_byte_pos :: "write_batch \<Rightarrow> u64 \<Rightarrow> u64 \<Rightarrow> write_batch" where
  "set_block_byte_pos self h pos =
     self\<lparr>wb_block_byte_pos := AList.update h pos (wb_block_byte_pos self)\<rparr>"

definition set_chain_height :: "write_batch \<Rightarrow> u64 \<Rightarrow> write_batch" where
  "set_chain_height self h = self\<lparr>wb_chain_height := Some h\<rparr>"

definition set_owner :: "write_batch \<Rightarrow> tx_variant \<Rightarrow> 'e fail + write_batch" where
  "set_owner self owner = (if is_owner_tx owner then Inr (self\<lparr>wb_owner := Some owner\<rparr>) else Inl Panic)"

definition add_token_supply :: "'db ext \<Rightarrow> 'db \<Rightarrow> write_batch \<Rightarrow> asset \<Rightarrow> 'e fail + write_batch" where
  "add_token_supply X db self a =
     (case wb_token_supply self of
        Some token_supply \<Rightarrow>
          and_then (unwrap (Asset_checked_add token_supply a)) (\<lambda>s. Inr (self\<lparr>wb_token_supply := Some s\<rparr>))
      | None \<Rightarrow>
          and_then (get_token_supply X db) (\<lambda>supply.
          and_then (unwrap (Asset_checked_add supply a)) (\<lambda>s. Inr (self\<lparr>wb_token_supply := Some s\<rparr>))))"

text \<open>\<open>get_account_mut\<close> returns the account and the batch that holds it; a write through the
  reference is \<open>put_account_mut\<close>.\<close>

definition get_account_mut :: "'db ext \<Rightarrow> 'db \<Rightarrow> write_batch \<Rightarrow> account_id \<Rightarrow> 'e fail + (account \<times> write_batch)" where
  "get_account_mut X db self i =
     (case map_of (wb_accounts self) i of
        Some acc \<Rightarrow> Inr (acc, self)
      | None \<Rightarrow>
          and_then (idx_get_account X db i) (\<lambda>r.
          and_then (unwrap r) (\<lambda>acc.
            Inr (acc, self\<lparr>wb_accounts := AList.update i acc (wb_accounts self)\<rparr>))))"

definition put_account_mut :: "write_batch \<Rightarrow> account_id \<Rightarrow> account \<Rightarrow> write_batch" where
  "put_account_mut self i acc = self\<lparr>wb_accounts := AList.update i acc (wb_accounts self)\<rparr>"

definition add_bal :: "'db ext \<Rightarrow> 'db \<Rightarrow> write_batch \<Rightarrow> account_id \<Rightarrow> asset \<Rightarrow> 'e fail + write_batch" where
  "add_bal X db self i a =
     and_then (get_account_mut X db self i) (\<lambda>(acc, self).
     and_then (unwrap (Asset_checked_add (balance acc) a)) (\<lambda>b.
       Inr (put_account_mut self i (acc\<lparr>balance := b\<rparr>))))"

definition sub_bal :: "'db ext \<Rightarrow> 'db \<Rightarrow> write_batch \<Rightarrow> account_id \<Rightarrow> asset \<Rightarrow> 'e fail + write_batch" where
  "sub_bal X db self i a =
     and_then (get_account_mut X db self i) (\<lambda>(acc, self).
     and_then (unwrap (Asset_checked_sub (balance acc) a)) (\<lambda>b.
       Inr (put_account_mut self i (acc\<lparr>balance := b\<rparr>))))"

definition insert_or_update_account :: "write_batch \<Rightarrow> account \<Rightarrow> write_batch" where
  "insert_or_update_account self acc =
     self\<lparr>wb_accounts := AList.update (acc_id acc) acc (wb_accounts self)\<rparr>"

section \<open>Reading what a batch wrote\<close>

lemmas cf_defs = CF_DEFAULT_def CF_BLOCK_BYTE_POS_def CF_ACCOUNT_def CF_TX_EXPIRY_def

lemma cf_distinct [simp]:
  "CF_DEFAULT \<noteq> CF_BLOCK_BYTE_POS" "CF_DEFAULT \<noteq> CF_ACCOUNT" "CF_DEFAULT \<noteq> CF_TX_EXPIRY"
  "CF_BLOCK_BYTE_POS \<noteq> CF_DEFAULT" "CF_BLOCK_BYTE_POS \<noteq> CF_ACCOUNT" "CF_BLOCK_BYTE_POS \<noteq> CF_TX_EXPIRY"
  "CF_ACCOUNT \<noteq> CF_DEFAULT" "CF_ACCOUNT \<noteq> CF_BLOCK_BYTE_POS" "CF_ACCOUNT \<noteq> CF_TX_EXPIRY"
  "CF_TX_EXPIRY \<noteq> CF_DEFAULT" "CF_TX_EXPIRY \<noteq> CF_BLOCK_BYTE_POS" "CF_TX_EXPIRY \<noteq> CF_ACCOUNT"
  by (simp_all add: cf_defs)

lemma key_distinct [simp]:
  "KEY_NET_OWNER \<noteq> KEY_CHAIN_HEIGHT" "KEY_NET_OWNER \<noteq> KEY_TOKEN_SUPPLY" "KEY_NET_OWNER \<noteq> KEY_INDEX_STATUS"
  "KEY_CHAIN_HEIGHT \<noteq> KEY_NET_OWNER" "KEY_CHAIN_HEIGHT \<noteq> KEY_TOKEN_SUPPLY" "KEY_CHAIN_HEIGHT \<noteq> KEY_INDEX_STATUS"
  "KEY_TOKEN_SUPPLY \<noteq> KEY_NET_OWNER" "KEY_TOKEN_SUPPLY \<noteq> KEY_CHAIN_HEIGHT" "KEY_TOKEN_SUPPLY \<noteq> KEY_INDEX_STATUS"
  "KEY_INDEX_STATUS \<noteq> KEY_NET_OWNER" "KEY_INDEX_STATUS \<noteq> KEY_CHAIN_HEIGHT" "KEY_INDEX_STATUS \<noteq> KEY_TOKEN_SUPPLY"
  by (simp_all add: KEY_NET_OWNER_def KEY_CHAIN_HEIGHT_def KEY_TOKEN_SUPPLY_def KEY_INDEX_STATUS_def
      ascii_def)

lemma be_bytes_8_inject [simp]: "be_bytes 8 a = be_bytes 8 b \<longleftrightarrow> a = (b :: u64)"
  by (simp add: be_bytes_inject)

fun op_target :: "db_op \<Rightarrow> string \<times> bytes" where
  "op_target (PutCf cf k v) = (cf, k)"
| "op_target (DeleteCf cf k) = (cf, k)"

lemma foldl_db_apply_other:
  "(cf, k) \<notin> op_target ` set ops \<Longrightarrow> foldl db_apply view ops cf k = view cf k"
proof (induction ops arbitrary: view)
  case (Cons p ops)
  then show ?case by (cases p) (auto simp: fun_upd_def)
qed simp

lemma foldl_db_apply_puts:
  assumes "inj f" "distinct (map fst al)"
  shows "foldl db_apply view (map (\<lambda>(a, b). PutCf cf (f a) (g b)) al) cf (f a) =
    (case map_of al a of Some b \<Rightarrow> Some (g b) | None \<Rightarrow> view cf (f a))"
  using assms(2)
proof (induction al arbitrary: view)
  case (Cons p al)
  show ?case
  proof (cases "fst p = a")
    case True
    then have "map_of al a = None"
      using Cons.prems by (simp add: map_of_eq_None_iff)
    then show ?thesis
      using True Cons by (cases p) simp
  next
    case False
    then show ?thesis
      using Cons assms(1) by (cases p) (simp add: inj_eq split: option.splits)
  qed
qed simp

definition wf_batch :: "write_batch \<Rightarrow> bool" where
  "wf_batch b \<longleftrightarrow> distinct (map fst (wb_block_byte_pos b)) \<and> distinct (map fst (wb_accounts b)) \<and>
     (\<forall>i acc. map_of (wb_accounts b) i = Some acc \<longrightarrow> wf_account acc) \<and>
     (\<forall>t. wb_owner b = Some t \<longrightarrow> wf_tx t \<and> is_owner_tx t)"

text \<open>What the batch and the store behind it hold together.\<close>

definition batch_account :: "'db ext \<Rightarrow> 'db \<Rightarrow> write_batch \<Rightarrow> account_id \<Rightarrow> 'e fail + account option" where
  "batch_account X db b i =
     (case map_of (wb_accounts b) i of Some acc \<Rightarrow> Inr (Some acc) | None \<Rightarrow> idx_get_account X db i)"

definition batch_supply :: "'db ext \<Rightarrow> 'db \<Rightarrow> write_batch \<Rightarrow> 'e fail + asset" where
  "batch_supply X db b = (case wb_token_supply b of Some s \<Rightarrow> Inr s | None \<Rightarrow> get_token_supply X db)"

lemma inj_be_bytes_8: "inj (be_bytes 8 :: u64 \<Rightarrow> bytes)"
  by (rule injI) simp

text \<open>The commit, family by family.\<close>

lemma foldl_default_ops:
  "cf \<noteq> CF_DEFAULT \<Longrightarrow> foldl db_apply view (commit_default_ops b) cf k = view cf k"
  by (rule foldl_db_apply_other) (auto simp: commit_default_ops_def split: option.splits)

lemma commit_accounts:
  assumes "db_ok X" "distinct (map fst (wb_accounts b))"
  shows "db_get X (commit X db b) CF_ACCOUNT (be_bytes 8 i) =
    (case map_of (wb_accounts b) i of Some acc \<Rightarrow> Some (Account_serialize acc)
     | None \<Rightarrow> db_get X db CF_ACCOUNT (be_bytes 8 i))"
proof -
  have "foldl db_apply view (map (\<lambda>(h, pos). PutCf CF_BLOCK_BYTE_POS (be_bytes 8 h) (be_bytes 8 pos))
      (wb_block_byte_pos b)) CF_ACCOUNT k = view CF_ACCOUNT k" for view k
    by (rule foldl_db_apply_other) auto
  then show ?thesis
    unfolding commit_def db_get_write [OF assms(1)] commit_ops_def foldl_append
    by (simp add: foldl_db_apply_puts [OF inj_be_bytes_8 assms(2)] foldl_default_ops split: option.splits)
qed

lemma commit_positions:
  assumes "db_ok X" "distinct (map fst (wb_block_byte_pos b))"
  shows "db_get X (commit X db b) CF_BLOCK_BYTE_POS (be_bytes 8 h) =
    (case map_of (wb_block_byte_pos b) h of Some pos \<Rightarrow> Some (be_bytes 8 pos)
     | None \<Rightarrow> db_get X db CF_BLOCK_BYTE_POS (be_bytes 8 h))"
proof -
  have "foldl db_apply view (map (\<lambda>(i, acc). PutCf CF_ACCOUNT (be_bytes 8 i) (Account_serialize acc))
      (wb_accounts b)) CF_BLOCK_BYTE_POS k = view CF_BLOCK_BYTE_POS k" for view k
    by (rule foldl_db_apply_other) auto
  then show ?thesis
    unfolding commit_def db_get_write [OF assms(1)] commit_ops_def foldl_append
    by (simp add: foldl_db_apply_puts [OF inj_be_bytes_8 assms(2)] foldl_default_ops split: option.splits)
qed

lemma commit_default:
  assumes "db_ok X"
  shows "db_get X (commit X db b) CF_DEFAULT k =
    (if k = KEY_CHAIN_HEIGHT \<and> wb_chain_height b \<noteq> None then Some (be_bytes 8 (the (wb_chain_height b)))
     else if k = KEY_NET_OWNER \<and> wb_owner b \<noteq> None then Some (TxVariant_serialize (the (wb_owner b)))
     else if k = KEY_TOKEN_SUPPLY \<and> wb_token_supply b \<noteq> None then Some (push_asset (the (wb_token_supply b)))
     else db_get X db CF_DEFAULT k)"
proof -
  have other: "foldl db_apply view (map (\<lambda>(i, acc). PutCf CF_ACCOUNT (be_bytes 8 i) (Account_serialize acc))
      (wb_accounts b)) CF_DEFAULT k = view CF_DEFAULT k"
    "foldl db_apply view (map (\<lambda>(h, pos). PutCf CF_BLOCK_BYTE_POS (be_bytes 8 h) (be_bytes 8 pos))
      (wb_block_byte_pos b)) CF_DEFAULT k = view CF_DEFAULT k" for view
    by (rule foldl_db_apply_other, auto)+
  show ?thesis
    by (auto simp: commit_def db_get_write [OF assms] commit_ops_def commit_default_ops_def other split: option.splits)
qed

lemma commit_tx_expiry:
  assumes "db_ok X"
  shows "db_get X (commit X db b) CF_TX_EXPIRY k = db_get X db CF_TX_EXPIRY k"
  unfolding commit_def db_get_write [OF assms]
  by (rule foldl_db_apply_other) (auto simp: commit_ops_def commit_default_ops_def split: option.splits)

lemma idx_get_account_commit:
  assumes "db_ok X" "wf_batch b"
  shows "idx_get_account X (commit X db b) i = batch_account X db b i"
  using assms by (auto simp: idx_get_account_def batch_account_def wf_batch_def commit_accounts
      account_codec.roundtrip_all split: option.splits)

lemma get_block_byte_pos_commit:
  assumes "db_ok X" "wf_batch b"
  shows "get_block_byte_pos X (commit X db b) h =
    (case map_of (wb_block_byte_pos b) h of Some pos \<Rightarrow> Inr (Some pos) | None \<Rightarrow> get_block_byte_pos X db h)"
  using assms by (auto simp: get_block_byte_pos_def wf_batch_def commit_positions u64_from_slice_def
      split: option.splits)

lemma get_token_supply_commit:
  assumes "db_ok X"
  shows "get_token_supply X (commit X db b) = batch_supply X db b"
  using assms asset_codec.roundtrip_all [OF any_simp]
  by (auto simp: get_token_supply_def batch_supply_def commit_default split: option.splits)

lemma get_owner_commit:
  assumes "db_ok X" "wf_batch b"
  shows "get_owner X (commit X db b) = (case wb_owner b of Some t \<Rightarrow> Inr (Some t) | None \<Rightarrow> get_owner X db)"
  using assms by (auto simp: get_owner_def wf_batch_def commit_default tx_codec.roundtrip_all
      split: option.splits)

lemma get_chain_height_commit:
  assumes "db_ok X"
  shows "get_chain_height X (commit X db b) =
    (case wb_chain_height b of Some h \<Rightarrow> Inr h | None \<Rightarrow> get_chain_height X db)"
  using assms by (auto simp: get_chain_height_def commit_default u64_from_slice_def split: option.splits)

lemma index_status_commit [simp]:
  assumes "db_ok X"
  shows "get_index_status X (commit X db b) = get_index_status X db"
  using assms by (simp add: get_index_status_def commit_default)

lemma has_txid_commit [simp]: "db_ok X \<Longrightarrow> has_txid X (commit X db b) i = has_txid X db i"
  by (simp add: has_txid_def commit_tx_expiry)

section \<open>The operations of a batch, seen through its view\<close>

lemma wf_batch_new [simp]: "wf_batch WriteBatch_new"
  by (simp add: wf_batch_def WriteBatch_new_def)

lemma batch_new_views [simp]:
  "batch_account X db WriteBatch_new = idx_get_account X db"
  "batch_supply X db WriteBatch_new = get_token_supply X db"
  by (auto simp: batch_account_def batch_supply_def WriteBatch_new_def)

lemma set_block_byte_pos_simps [simp]:
  "wf_batch b \<Longrightarrow> wf_batch (set_block_byte_pos b h pos)"
  "batch_account X db (set_block_byte_pos b h pos) = batch_account X db b"
  "batch_supply X db (set_block_byte_pos b h pos) = batch_supply X db b"
  "wb_chain_height (set_block_byte_pos b h pos) = wb_chain_height b"
  "wb_owner (set_block_byte_pos b h pos) = wb_owner b"
  "map_of (wb_block_byte_pos (set_block_byte_pos b h pos)) = (map_of (wb_block_byte_pos b))(h \<mapsto> pos)"
  by (auto simp: wf_batch_def set_block_byte_pos_def batch_account_def batch_supply_def distinct_update
      update_conv')

lemma set_chain_height_simps [simp]:
  "wf_batch (set_chain_height b h) = wf_batch b"
  "batch_account X db (set_chain_height b h) = batch_account X db b"
  "batch_supply X db (set_chain_height b h) = batch_supply X db b"
  "wb_chain_height (set_chain_height b h) = Some h"
  "wb_owner (set_chain_height b h) = wb_owner b"
  "wb_block_byte_pos (set_chain_height b h) = wb_block_byte_pos b"
  by (auto simp: wf_batch_def set_chain_height_def batch_account_def batch_supply_def)

lemma put_account_mut_simps [simp]:
  "wf_batch b \<Longrightarrow> wf_account acc \<Longrightarrow> wf_batch (put_account_mut b i acc)"
  "batch_account X db (put_account_mut b i acc) = (batch_account X db b)(i := Inr (Some acc))"
  "batch_supply X db (put_account_mut b i acc) = batch_supply X db b"
  "wb_chain_height (put_account_mut b i acc) = wb_chain_height b"
  "wb_owner (put_account_mut b i acc) = wb_owner b"
  "wb_block_byte_pos (put_account_mut b i acc) = wb_block_byte_pos b"
  by (auto simp: wf_batch_def put_account_mut_def batch_account_def batch_supply_def update_conv'
      distinct_update fun_eq_iff)

lemma insert_account_eq: "insert_or_update_account b acc = put_account_mut b (acc_id acc) acc"
  by (simp add: insert_or_update_account_def put_account_mut_def)

text \<open>\<open>get_account_mut\<close> panics exactly when there is no such account (or its bytes do not decode);
  it changes nothing of the view.\<close>

lemma idx_get_account_wf: "idx_get_account X db i = Inr (Some acc) \<Longrightarrow> wf_account acc"
  by (auto simp: idx_get_account_def fallible_iffs dest: account_codec.io_dec_wf split: option.splits)

lemma get_account_mut_eq:
  "get_account_mut X db b i =
    (case batch_account X db b i of
       Inl e \<Rightarrow> Inl e
     | Inr None \<Rightarrow> Inl Panic
     | Inr (Some acc) \<Rightarrow> Inr (acc, if map_of (wb_accounts b) i = None then put_account_mut b i acc else b))"
  by (auto simp: get_account_mut_def batch_account_def put_account_mut_def and_then_def
      split: option.splits sum.splits)

lemma batch_account_wf:
  "batch_account X db b i = Inr (Some acc) \<Longrightarrow> wf_batch b \<Longrightarrow> wf_account acc"
  by (auto simp: batch_account_def wf_batch_def dest: idx_get_account_wf split: option.splits)

text \<open>A write through the reference of \<open>get_account_mut\<close> is an update of the view at that account.\<close>

lemma update_update: "AList.update k v (AList.update k w al) = AList.update k v al"
  by (induction al) auto

lemma put_after_get [simp]:
  "put_account_mut (put_account_mut b i acc) i acc' = put_account_mut b i acc'"
  by (simp add: put_account_mut_def update_update)

lemma add_bal_eq:
  "add_bal X db b i a =
    (case batch_account X db b i of
       Inl e \<Rightarrow> Inl e
     | Inr None \<Rightarrow> Inl Panic
     | Inr (Some acc) \<Rightarrow>
         (case Asset_checked_add (balance acc) a of
            None \<Rightarrow> Inl Panic
          | Some bal \<Rightarrow> Inr (put_account_mut b i (acc\<lparr>balance := bal\<rparr>))))"
  by (auto simp: add_bal_def get_account_mut_eq split: option.splits sum.splits)

lemma sub_bal_eq:
  "sub_bal X db b i a =
    (case batch_account X db b i of
       Inl e \<Rightarrow> Inl e
     | Inr None \<Rightarrow> Inl Panic
     | Inr (Some acc) \<Rightarrow>
         (case Asset_checked_sub (balance acc) a of
            None \<Rightarrow> Inl Panic
          | Some bal \<Rightarrow> Inr (put_account_mut b i (acc\<lparr>balance := bal\<rparr>))))"
  by (auto simp: sub_bal_def get_account_mut_eq split: option.splits sum.splits)

lemma add_token_supply_eq:
  "add_token_supply X db b a =
    and_then (batch_supply X db b) (\<lambda>s.
    and_then (unwrap (Asset_checked_add s a)) (\<lambda>s. Inr (b\<lparr>wb_token_supply := Some s\<rparr>)))"
  by (simp add: add_token_supply_def batch_supply_def split: option.splits)

lemma wf_balance_update [simp]: "wf_account (acc\<lparr>balance := a\<rparr>) = wf_account acc"
  by (simp add: wf_account_def)

lemma set_supply_simps [simp]:
  "wf_batch (b\<lparr>wb_token_supply := s\<rparr>) = wf_batch b"
  "batch_account X db (b\<lparr>wb_token_supply := s\<rparr>) = batch_account X db b"
  "batch_supply X db (b\<lparr>wb_token_supply := Some t\<rparr>) = Inr t"
  by (auto simp: wf_batch_def batch_account_def batch_supply_def)

lemma set_owner_Inr:
  assumes "set_owner b t = Inr b'"
  shows "is_owner_tx t" "b' = b\<lparr>wb_owner := Some t\<rparr>"
  using assms by (auto simp: set_owner_def split: if_splits)

lemma set_owner_simps [simp]:
  "wf_batch (b\<lparr>wb_owner := Some t\<rparr>) \<longleftrightarrow> wf_batch (b\<lparr>wb_owner := None\<rparr>) \<and> wf_tx t \<and> is_owner_tx t"
  "batch_account X db (b\<lparr>wb_owner := t'\<rparr>) = batch_account X db b"
  "batch_supply X db (b\<lparr>wb_owner := t'\<rparr>) = batch_supply X db b"
  by (auto simp: wf_batch_def batch_account_def batch_supply_def)

section \<open>Transaction ids\<close>

lemma has_txid_insert:
  assumes "db_ok X"
  shows "has_txid X (insert_txid X db i e) j \<longleftrightarrow> txid_bytes j = txid_bytes i \<or> has_txid X db j"
  by (auto simp: has_txid_def insert_txid_def db_get_write [OF assms])

lemma insert_txid_other [simp]:
  assumes "db_ok X"
  shows "idx_get_account X (insert_txid X db i e) = idx_get_account X db"
    "get_token_supply X (insert_txid X db i e) = get_token_supply X db"
    "get_owner X (insert_txid X db i e) = get_owner X db"
    "get_chain_height X (insert_txid X db i e) = get_chain_height X db"
    "get_block_byte_pos X (insert_txid X db i e) = get_block_byte_pos X db"
    "account_exists X (insert_txid X db i e) = account_exists X db"
    "get_index_status X (insert_txid X db i e) = get_index_status X db"
  by (simp_all add: fun_eq_iff insert_txid_def db_get_write [OF assms] idx_get_account_def
      get_token_supply_def get_owner_def get_chain_height_def get_block_byte_pos_def account_exists_def
      get_index_status_def)

text \<open>Purging removes exactly the entries that expired more than the adjustment ago.\<close>

lemma purge_batch_Inr:
  assumes "purge_batch t kvs = Inr ops"
  shows "foldl db_apply view ops CF_TX_EXPIRY k =
    (if \<exists>v. (k, v) \<in> set kvs \<and> from_be v < t then None else view CF_TX_EXPIRY k)"
    "cf \<noteq> CF_TX_EXPIRY \<Longrightarrow> foldl db_apply view ops cf k = view cf k"
proof -
  have ops: "ops = map (\<lambda>(k, v). DeleteCf CF_TX_EXPIRY k) (filter (\<lambda>(k, v). from_be v < t) kvs)"
    using assms(1)
    by (induction kvs arbitrary: ops) (auto simp: fallible_iffs u64_from_slice_def split: if_splits)
  have del: "foldl db_apply view (map (\<lambda>(k, v). DeleteCf CF_TX_EXPIRY k) al) CF_TX_EXPIRY k =
      (if k \<in> fst ` set al then None else view CF_TX_EXPIRY k)" for al :: "(bytes \<times> bytes) list" and view
    by (induction al arbitrary: view) auto
  show "foldl db_apply view ops CF_TX_EXPIRY k =
      (if \<exists>v. (k, v) \<in> set kvs \<and> from_be v < t then None else view CF_TX_EXPIRY k)"
    unfolding ops del by (auto simp: image_iff)
  show "cf \<noteq> CF_TX_EXPIRY \<Longrightarrow> foldl db_apply view ops cf k = view cf k"
    by (rule foldl_db_apply_other) (auto simp: ops)
qed

text \<open>The ids that remain after a purge.\<close>

lemma has_txid_purge:
  assumes "db_ok X" "purge_expired_txids X now db = (Inr db' :: 'e fail + 'db)"
  shows "has_txid X db' i \<longleftrightarrow>
    (\<exists>v. db_get X db CF_TX_EXPIRY (txid_bytes i) = Some v \<and> now - TX_EXPIRY_ADJUSTMENT \<le> from_be v)"
proof -
  obtain ops where ops: "purge_batch (now - TX_EXPIRY_ADJUSTMENT) (db_iter X db CF_TX_EXPIRY) = (Inr ops :: 'e fail + _)"
    "db' = db_write X db ops"
    using assms(2) by (auto simp: purge_expired_txids_def fallible_iffs)
  show ?thesis
    unfolding has_txid_def ops(2) db_get_write [OF assms(1)] purge_batch_Inr(1) [OF ops(1)]
    by (auto simp: db_iter_iff [OF assms(1)] not_less)
qed

end
