(* ===== verification/Store.thy ===== *)
theory Store
  imports Indexes
begin

text \<open>
  \<open>blockchain/store.rs\<close>: the append-only block log on disk, its cache and its reindexing.  The
  file is the list of its bytes; an offset in it is a natural number, and a \<open>u64\<close> where it is
  stored.  A read returns the position behind what it read.
\<close>

definition MAX_CACHE_SIZE :: u64 where "MAX_CACHE_SIZE = 100"

datatype read_error = ReadEof | CorruptBlock

record block_store =
  st_height :: u64
  st_blocks :: "(u64 \<times> block) list"
  st_genesis :: "block option"
  st_file :: bytes
  st_byte_pos_tail :: u64

definition raw_read_from_disk :: "'db ext \<Rightarrow> bytes \<Rightarrow> nat \<Rightarrow> read_error fail + (block \<times> nat)" where
  "raw_read_from_disk X file pos =
     (let meta = take 8 (drop pos file)
      in if length meta < 8 then Inl (Err ReadEof)
         else
           let block_len = unat (from_be (take 4 meta) :: u32);
               crc = (from_be (drop 4 meta) :: u32);
               buf = take block_len (drop (pos + 8) file)
           in if length buf < block_len then Inl (Err CorruptBlock)
              else if crc \<noteq> crc32c X buf then Inl Panic
              else (case Block_deserialize buf of
                      None \<Rightarrow> Inl (Err CorruptBlock)
                    | Some (block, cursor) \<Rightarrow> Inr (block, pos + 8 + block_len)))"

definition read_from_disk :: "'db ext \<Rightarrow> 'db \<Rightarrow> block_store \<Rightarrow> u64 \<Rightarrow> 'e fail + block option" where
  "read_from_disk X db self h =
     (if h > st_height self then Inr None
      else and_then (get_block_byte_pos X db h) (\<lambda>r.
        case r of
          None \<Rightarrow> Inr None
        | Some pos \<Rightarrow>
            (case raw_read_from_disk X (st_file self) (unat pos) of
               Inr (block, _) \<Rightarrow> Inr (Some block)
             | Inl (Err _) \<Rightarrow> Inr None
             | Inl Panic \<Rightarrow> Inl Panic)))"

definition store_get :: "'db ext \<Rightarrow> 'db \<Rightarrow> block_store \<Rightarrow> u64 \<Rightarrow> 'e fail + block option" where
  "store_get X db self h =
     (if h > st_height self then Inr None
      else if h = 0 \<and> st_genesis self \<noteq> None then Inr (st_genesis self)
      else (case map_of (st_blocks self) h of
              Some block \<Rightarrow> Inr (Some block)
            | None \<Rightarrow> read_from_disk X db self h))"

definition store_is_empty :: "block_store \<Rightarrow> bool" where
  "store_is_empty self \<longleftrightarrow> length (st_file self) = 0"

text \<open>The eight bytes in front of a block, written out shift by shift.\<close>

definition disk_meta :: "u32 \<Rightarrow> u32 \<Rightarrow> bytes" where
  "disk_meta len crc =
     [ucast (drop_bit 24 len), ucast (drop_bit 16 len), ucast (drop_bit 8 len), ucast len,
      ucast (drop_bit 24 crc), ucast (drop_bit 16 crc), ucast (drop_bit 8 crc), ucast crc]"

definition write_to_disk :: "'db ext \<Rightarrow> block_store \<Rightarrow> block \<Rightarrow> 'e fail + block_store" where
  "write_to_disk X self block =
     and_then (Block_serialize block) (\<lambda>vec.
       let len = of_nat (length vec) :: u32;
           crc = crc32c X vec
       in Inr (self\<lparr>st_file := st_file self @ disk_meta len crc @ vec,
                    st_byte_pos_tail := st_byte_pos_tail self + (ucast len + 8)\<rparr>))"

definition store_insert :: "'db ext \<Rightarrow> block_store \<Rightarrow> write_batch \<Rightarrow> block \<Rightarrow> 'e fail + (block_store \<times> write_batch)" where
  "store_insert X self batch block =
     (if st_height self + 1 \<noteq> Block_height block then Inl Panic
      else
        let byte_pos = st_byte_pos_tail self
        in and_then (write_to_disk X self block) (\<lambda>self.
          let h = Block_height block;
              self = self\<lparr>st_height := h\<rparr>;
              batch = set_block_byte_pos batch h byte_pos;
              batch = set_chain_height batch h;
              self = self\<lparr>st_blocks := AList.update h block (st_blocks self)\<rparr>;
              self = (if length (st_blocks self) > unat MAX_CACHE_SIZE
                      then self\<lparr>st_blocks := AList.delete (h - MAX_CACHE_SIZE) (st_blocks self)\<rparr>
                      else self)
          in Inr (self, batch)))"

definition insert_genesis :: "'db ext \<Rightarrow> block_store \<Rightarrow> write_batch \<Rightarrow> block \<Rightarrow> 'e fail + (block_store \<times> write_batch)" where
  "insert_genesis X self batch block =
     (if Block_height block \<noteq> 0 then Inl Panic
      else if st_genesis self \<noteq> None then Inl Panic
      else if \<not> store_is_empty self then Inl Panic
      else and_then (write_to_disk X self block) (\<lambda>self.
        Inr (self\<lparr>st_genesis := Some block\<rparr>, set_block_byte_pos batch 0 0)))"

text \<open>The cache is loaded from the log for the heights \<open>min..=max\<close>.\<close>

primrec load_cache :: "'db ext \<Rightarrow> 'db \<Rightarrow> u64 list \<Rightarrow> block_store \<Rightarrow> 'e fail + block_store" where
  "load_cache X db [] self = Inr self"
| "load_cache X db (h # hs) self =
     and_then (read_from_disk X db self h) (\<lambda>r.
     and_then (unwrap r) (\<lambda>block.
       load_cache X db hs (self\<lparr>st_blocks := AList.update h block (st_blocks self)\<rparr>)))"

definition saturating_sub :: "u64 \<Rightarrow> u64 \<Rightarrow> u64" where
  "saturating_sub a b = (if b \<le> a then a - b else 0)"

definition heights_between :: "u64 \<Rightarrow> u64 \<Rightarrow> u64 list" where
  "heights_between lo hi = map of_nat [unat lo ..< Suc (unat hi)]"

definition init_state :: "'db ext \<Rightarrow> 'db \<Rightarrow> block_store \<Rightarrow> 'e fail + block_store" where
  "init_state X db self =
     and_then (get_chain_height X db) (\<lambda>h.
     let self = self\<lparr>st_height := h\<rparr>
     in and_then (store_get X db self 0) (\<lambda>g.
     let self = self\<lparr>st_genesis := g\<rparr>
     in if store_is_empty self then Inr self
        else and_then (get_index_status X db) (\<lambda>status.
          if status = StatusComplete then
            let self = self\<lparr>st_blocks := []\<rparr>;
                hi = st_height self;
                lo = saturating_sub hi MAX_CACHE_SIZE
            in load_cache X db (heights_between lo hi) self
          else Inr self)))"

definition BlockStore_new :: "'db ext \<Rightarrow> 'db \<Rightarrow> bytes \<Rightarrow> 'e fail + block_store" where
  "BlockStore_new X db file =
     init_state X db \<lparr>st_height = 0, st_blocks = [], st_genesis = None, st_file = file,
                      st_byte_pos_tail = of_nat (length file)\<rparr>"

section \<open>Reindexing\<close>

lemma raw_read_from_disk_pos:
  assumes "raw_read_from_disk X file pos = Inr (b, pos')"
  shows "pos < pos'" "pos' \<le> length file"
  using assms
  by (auto simp: raw_read_from_disk_def Let_def split: if_splits option.splits)

text \<open>The loop of \<open>reindex_blocks\<close> from the offset \<open>pos\<close>: the batch it fills and, when it trims the
  log, the offset of the cut.\<close>

function reindex_loop :: "'db ext \<Rightarrow> bool \<Rightarrow> (write_batch \<Rightarrow> block \<Rightarrow> 'e fail + write_batch) \<Rightarrow> bytes \<Rightarrow>
    write_batch \<Rightarrow> u64 \<Rightarrow> nat \<Rightarrow> 'e fail + (write_batch \<times> nat option)" where
  "reindex_loop X auto_trim index_fn file batch last_known_good_height pos =
     (case raw_read_from_disk X file pos of
        Inr (block, new_pos) \<Rightarrow>
          let h = Block_height block
          in if \<not> (last_known_good_height = 0 \<or> h = last_known_good_height + 1) then
               if auto_trim then Inr (batch, Some pos) else Inl Panic
             else
               let batch = set_block_byte_pos batch h (of_nat pos);
                   batch = set_chain_height batch h
               in and_then (index_fn batch block) (\<lambda>batch.
                    reindex_loop X auto_trim index_fn file batch h new_pos)
      | Inl Panic \<Rightarrow> Inl Panic
      | Inl (Err ReadEof) \<Rightarrow> Inr (batch, None)
      | Inl (Err CorruptBlock) \<Rightarrow> if auto_trim then Inr (batch, Some pos) else Inl Panic)"
  by pat_completeness auto
termination
proof (relation "measure (\<lambda>(X, auto_trim, index_fn, file, batch, last, pos). length file - pos)",
    goal_cases)
  case (2 X auto_trim index_fn log batch last_known_good_height pos r block new_pos)
  then show ?case
    using raw_read_from_disk_pos [of X log pos block new_pos] by auto
qed simp

declare reindex_loop.simps [simp del]

definition set_len :: "bytes \<Rightarrow> nat \<Rightarrow> bytes" where
  "set_len file n = take n file @ replicate (n - length file) 0"

definition reindex_blocks :: "'db ext \<Rightarrow> bool \<Rightarrow> (write_batch \<Rightarrow> block \<Rightarrow> 'e fail + write_batch) \<Rightarrow>
    'db \<Rightarrow> block_store \<Rightarrow> 'e fail + ('db \<times> block_store)" where
  "reindex_blocks X auto_trim index_fn db self =
     and_then (reindex_loop X auto_trim index_fn (st_file self) WriteBatch_new 0 0) (\<lambda>(batch, trim).
       let self = (case trim of
                     None \<Rightarrow> self
                   | Some pos \<Rightarrow> self\<lparr>st_file := set_len (st_file self) pos, st_byte_pos_tail := of_nat pos\<rparr>);
           db = commit X db batch;
           db = set_index_status X db StatusComplete
       in and_then (init_state X db self) (\<lambda>self. Inr (db, self)))"

section \<open>The log as a list of blocks\<close>

text \<open>What one block occupies, and the blocks that fit.\<close>

definition disk_record :: "'db ext \<Rightarrow> block \<Rightarrow> bytes" where
  "disk_record X b =
     disk_meta (of_nat (length (block_bytes b))) (crc32c X (block_bytes b)) @ block_bytes b"

definition storable :: "block \<Rightarrow> bool" where
  "storable b \<longleftrightarrow> wf_block b \<and> length (block_bytes b) < 2 ^ 32"

definition log_bytes :: "'db ext \<Rightarrow> block list \<Rightarrow> bytes" where
  "log_bytes X bs = concat (map (disk_record X) bs)"

definition offset :: "'db ext \<Rightarrow> block list \<Rightarrow> nat \<Rightarrow> nat" where
  "offset X bs i = length (log_bytes X (take i bs))"

lemma disk_meta_eq: "disk_meta len crc = push_u32 len @ push_u32 crc"
  by (simp add: disk_meta_def push_u32_def eval_nat_numeral)

lemma length_disk_meta [simp]: "length (disk_meta len crc) = 8"
  by (simp add: disk_meta_def)

lemma length_disk_record: "length (disk_record X b) = 8 + length (block_bytes b)"
  by (simp add: disk_record_def)

lemma log_bytes_simps [simp]:
  "log_bytes X [] = []" "log_bytes X (b # bs) = disk_record X b @ log_bytes X bs"
  "log_bytes X (bs @ cs) = log_bytes X bs @ log_bytes X cs"
  by (simp_all add: log_bytes_def)

lemma block_bytes_signed: "wf_block b \<Longrightarrow> Block_serialize b = Inr (block_bytes b)"
  by (auto simp: Block_serialize_eq wf_block_def)

lemma raw_read_written:
  assumes "storable b"
  shows "raw_read_from_disk X (pre @ disk_record X b @ post) (length pre) =
    Inr (b, length pre + length (disk_record X b))"
proof -
  let ?v = "block_bytes b"
  have wf: "wf_block b" and len: "unat (of_nat (length ?v) :: u32) = length ?v"
    using assms by (simp_all add: storable_def unat_of_nat)
  have "take 8 (drop (length pre) (pre @ disk_record X b @ post)) =
      push_u32 (of_nat (length ?v)) @ push_u32 (crc32c X ?v)"
    by (simp add: disk_record_def disk_meta_eq)
  moreover have "take (length ?v) (drop (length pre + 8) (pre @ disk_record X b @ post)) = ?v"
    by (simp add: disk_record_def)
  ultimately show ?thesis
    by (simp add: raw_read_from_disk_def Let_def len block_codec.roundtrip_all [OF wf]
        length_disk_record push_u32_def)
qed

text \<open>A torn record: cut inside the header it reads as the end of the log, cut inside the body as a
  corrupt block.\<close>

lemma raw_read_torn:
  assumes "storable b" "n < length (disk_record X b)"
  shows "raw_read_from_disk X (pre @ take n (disk_record X b)) (length pre) =
    Inl (Err (if n < 8 then ReadEof else CorruptBlock))"
proof -
  let ?v = "block_bytes b"
  have len: "unat (of_nat (length ?v) :: u32) = length ?v"
    using assms by (simp add: storable_def unat_of_nat)
  show ?thesis
  proof (cases "n < 8")
    case True
    then show ?thesis
      using assms(2) by (simp add: raw_read_from_disk_def Let_def)
  next
    case False
    then have "take n (disk_record X b) =
        push_u32 (of_nat (length ?v)) @ push_u32 (crc32c X ?v) @ take (n - 8) ?v"
      by (simp add: disk_record_def disk_meta_eq)
    moreover have "n - 8 < length ?v"
      using False assms(2) by (simp add: length_disk_record)
    ultimately show ?thesis
      using False by (simp add: raw_read_from_disk_def Let_def len push_u32_def)
  qed
qed

lemma raw_read_end: "raw_read_from_disk X file (length file) = Inl (Err ReadEof)"
  by (simp add: raw_read_from_disk_def)

lemma offset_Suc: "i < length bs \<Longrightarrow> offset X bs (Suc i) = offset X bs i + length (disk_record X (bs ! i))"
  by (simp add: offset_def take_Suc_conv_app_nth)

lemma offset_le: "offset X bs i \<le> length (log_bytes X bs)"
  by (metis append_take_drop_id le_add1 length_append log_bytes_simps(3) offset_def)

lemma offset_append: "i \<le> length bs \<Longrightarrow> offset X (bs @ cs) i = offset X bs i"
  by (simp add: offset_def)

lemma raw_read_nth:
  assumes "list_all storable bs" "i < length bs"
  shows "raw_read_from_disk X (log_bytes X bs @ post) (offset X bs i) = Inr (bs ! i, offset X bs (Suc i))"
proof -
  have "log_bytes X bs = log_bytes X (take i bs) @ disk_record X (bs ! i) @ log_bytes X (drop (Suc i) bs)"
    by (metis append_take_drop_id assms(2) id_take_nth_drop log_bytes_simps(2,3))
  moreover have "storable (bs ! i)"
    using assms by (simp add: list_all_length)
  ultimately show ?thesis
    using raw_read_written [of "bs ! i" X "log_bytes X (take i bs)"]
    unfolding offset_Suc [OF assms(2)] unfolding offset_def by simp
qed

section \<open>The store implements a list of blocks\<close>

text \<open>
  \<open>store_repr X db st bs\<close>: the store \<open>st\<close> and the index \<open>db\<close> hold the chain \<open>bs\<close>, block \<open>i\<close> at
  height \<open>i\<close>.  The log is short enough for its offsets to fit a \<open>u64\<close>.
\<close>

definition cache_ok :: "(u64 \<times> block) list \<Rightarrow> block list \<Rightarrow> bool" where
  "cache_ok cache bs \<longleftrightarrow> (\<forall>h b. map_of cache h = Some b \<longrightarrow> unat h < length bs \<and> bs ! unat h = b)"

definition positions_ok :: "'db ext \<Rightarrow> 'db \<Rightarrow> block list \<Rightarrow> bool" where
  "positions_ok X db bs \<longleftrightarrow> (\<forall>i < length bs.
     db_get X db CF_BLOCK_BYTE_POS (be_bytes 8 (of_nat i :: u64)) =
       Some (be_bytes 8 (of_nat (offset X bs i) :: u64)))"

definition chain_ok :: "'db ext \<Rightarrow> block list \<Rightarrow> bool" where
  "chain_ok X bs \<longleftrightarrow> list_all storable bs \<and> length (log_bytes X bs) < 2 ^ 64 \<and> length bs < 2 ^ 64 \<and>
     (\<forall>i < length bs. Block_height (bs ! i) = of_nat i)"

definition store_repr :: "'db ext \<Rightarrow> 'db \<Rightarrow> block_store \<Rightarrow> block list \<Rightarrow> bool" where
  "store_repr X db st bs \<longleftrightarrow> bs \<noteq> [] \<and> chain_ok X bs \<and> st_file st = log_bytes X bs \<and>
     st_byte_pos_tail st = of_nat (length (log_bytes X bs)) \<and>
     st_height st = of_nat (length bs - 1) \<and> st_genesis st = Some (bs ! 0) \<and>
     cache_ok (st_blocks st) bs \<and> positions_ok X db bs"

lemma unat_height: "n < 2 ^ 64 \<Longrightarrow> unat (of_nat n :: u64) = n"
  by (simp add: unat_of_nat)

lemma chain_ok_nth: "chain_ok X bs \<Longrightarrow> i < length bs \<Longrightarrow> storable (bs ! i) \<and> Block_height (bs ! i) = of_nat i"
  by (simp add: chain_ok_def list_all_length)

lemma read_from_disk_repr:
  assumes "chain_ok X bs" "positions_ok X db bs" "st_file st = log_bytes X bs"
    "unat (st_height st) < length bs"
  shows "read_from_disk X db st h = (Inr (if h \<le> st_height st then Some (bs ! unat h) else None) :: 'e fail + _)"
proof (cases "h \<le> st_height st")
  case True
  then have i: "unat h < length bs"
    using assms(4) by (simp add: word_le_nat_alt)
  have "offset X bs (unat h) < 2 ^ 64"
    using offset_le [of X bs "unat h"] assms(1) by (simp add: chain_ok_def)
  moreover have "get_block_byte_pos X db h = (Inr (Some (of_nat (offset X bs (unat h)))) :: 'e fail + u64 option)"
    using assms(2) i by (auto simp: positions_ok_def get_block_byte_pos_def u64_from_slice_def)
  ultimately show ?thesis
    using raw_read_nth [of bs "unat h" X "[]"] assms(1,3) i True
    by (simp add: read_from_disk_def chain_ok_def unat_height)
qed (simp add: read_from_disk_def not_le)

lemma store_repr_height:
  assumes "store_repr X db st bs"
  shows "unat (st_height st) = length bs - 1"
  using assms by (auto simp: store_repr_def chain_ok_def unat_height)

lemma store_get_repr:
  assumes "store_repr X db st bs"
  shows "store_get X db st h = (Inr (if unat h < length bs then Some (bs ! unat h) else None) :: 'e fail + _)"
proof -
  have "0 < length bs" using assms by (simp add: store_repr_def)
  then have h: "h \<le> st_height st \<longleftrightarrow> unat h < length bs"
    unfolding word_le_nat_alt store_repr_height [OF assms] by linarith
  have "read_from_disk X db st h = (Inr (if h \<le> st_height st then Some (bs ! unat h) else None) :: 'e fail + _)"
    using assms store_repr_height [OF assms]
    by (intro read_from_disk_repr) (auto simp: store_repr_def)
  then show ?thesis
    using assms h by (auto simp: store_get_def store_repr_def cache_ok_def not_le split: option.splits)
qed

section \<open>Appending a block\<close>

lemma write_to_disk_storable:
  assumes "storable b"
  shows "write_to_disk X st b = Inr (st\<lparr>st_file := st_file st @ disk_record X b,
    st_byte_pos_tail := st_byte_pos_tail st + of_nat (length (disk_record X b))\<rparr>)"
proof -
  have "(ucast (of_nat (length (block_bytes b)) :: u32) :: u64) = of_nat (length (block_bytes b))"
    using assms by (simp add: storable_def word_unat_eq_iff unat_of_nat unsigned_ucast_eq take_bit_nat_eq_self)
  then show ?thesis
    using assms by (simp add: write_to_disk_def storable_def block_bytes_signed disk_record_def Let_def
        add.commute)
qed

lemma cache_ok_insert:
  assumes "cache_ok cache bs" "length bs < 2 ^ 64"
  shows "cache_ok (AList.update (of_nat (length bs)) b cache) (bs @ [b])"
  using assms
  by (fastforce simp: cache_ok_def update_conv' unat_height nth_append less_Suc_eq split: if_splits)

lemma cache_ok_delete: "cache_ok cache bs \<Longrightarrow> cache_ok (AList.delete k cache) bs"
  by (auto simp: cache_ok_def delete_conv' split: if_splits)

definition record_block :: "write_batch \<Rightarrow> u64 \<Rightarrow> u64 \<Rightarrow> write_batch" where
  "record_block batch h pos = set_chain_height (set_block_byte_pos batch h pos) h"

lemma record_block_simps [simp]:
  "wf_batch batch \<Longrightarrow> wf_batch (record_block batch h pos)"
  "batch_account X db (record_block batch h pos) = batch_account X db batch"
  "batch_supply X db (record_block batch h pos) = batch_supply X db batch"
  "wb_chain_height (record_block batch h pos) = Some h"
  "wb_owner (record_block batch h pos) = wb_owner batch"
  "map_of (wb_block_byte_pos (record_block batch h pos)) = (map_of (wb_block_byte_pos batch))(h \<mapsto> pos)"
  by (simp_all add: record_block_def)

lemma store_insert_eq:
  assumes "store_repr X db st bs" "storable b" "Block_height b = of_nat (length bs)" "length bs < 2 ^ 64"
  obtains st' where
    "store_insert X st batch b = Inr (st', record_block batch (of_nat (length bs)) (of_nat (length (log_bytes X bs))))"
    "st_file st' = log_bytes X (bs @ [b])" "st_byte_pos_tail st' = of_nat (length (log_bytes X (bs @ [b])))"
    "st_height st' = of_nat (length bs)" "st_genesis st' = Some (bs ! 0)"
    "cache_ok (st_blocks st') (bs @ [b])"
proof -
  let ?h = "of_nat (length bs) :: u64"
  have "st_height st + 1 = ?h"
    using assms(1) by (cases bs) (simp_all add: store_repr_def)
  moreover have "cache_ok (st_blocks st) bs" "st_file st = log_bytes X bs" "st_genesis st = Some (bs ! 0)"
    "st_byte_pos_tail st = of_nat (length (log_bytes X bs))"
    using assms(1) by (simp_all add: store_repr_def)
  ultimately show ?thesis
    using that cache_ok_insert [of "st_blocks st" bs b] assms(4)
    by (auto simp: store_insert_def write_to_disk_storable [OF assms(2)] assms(3) Let_def record_block_def
        cache_ok_delete)
qed

lemma positions_ok_commit:
  assumes "db_ok X" "wf_batch batch" "positions_ok X db bs" "length bs < 2 ^ 64"
    "map_of (wb_block_byte_pos batch) = [of_nat (length bs) \<mapsto> of_nat (length (log_bytes X bs))]"
  shows "positions_ok X (commit X db batch) (bs @ [b])"
proof -
  have "(of_nat i :: u64) = of_nat (length bs) \<longleftrightarrow> i = length bs" if "i < Suc (length bs)" for i
    using that assms(4) unat_height [of i] unat_height [of "length bs"] by (metis less_Suc_eq less_trans)
  then show ?thesis
    using assms by (auto simp: positions_ok_def wf_batch_def commit_positions offset_append less_Suc_eq)
      (simp_all add: offset_def)
qed

lemma store_insert_repr:
  assumes "store_repr X db st bs" "storable b" "Block_height b = of_nat (length bs)"
    and "length bs + 1 < 2 ^ 64" "length (log_bytes X (bs @ [b])) < 2 ^ 64"
    and "db_ok X" "wf_batch batch" "wb_block_byte_pos batch = []"
  obtains st' batch' where "store_insert X st batch b = (Inr (st', batch') :: 'e fail + _)"
    "batch' = record_block batch (of_nat (length bs)) (of_nat (length (log_bytes X bs)))"
    "store_repr X (commit X db batch') st' (bs @ [b])"
proof -
  let ?batch = "record_block batch (of_nat (length bs)) (of_nat (length (log_bytes X bs)))"
  have len: "length bs < 2 ^ 64" using assms(4) by simp
  obtain st' where st': "store_insert X st batch b = (Inr (st', ?batch) :: 'e fail + _)"
    "st_file st' = log_bytes X (bs @ [b])" "st_byte_pos_tail st' = of_nat (length (log_bytes X (bs @ [b])))"
    "st_height st' = of_nat (length bs)" "st_genesis st' = Some (bs ! 0)"
    "cache_ok (st_blocks st') (bs @ [b])"
    using store_insert_eq [OF assms(1-3) len] by metis
  have "positions_ok X (commit X db ?batch) (bs @ [b])"
    using assms(1,6-8) len by (intro positions_ok_commit) (auto simp: store_repr_def)
  moreover have "chain_ok X (bs @ [b])"
    using assms(1-5) by (auto simp: chain_ok_def store_repr_def nth_append less_Suc_eq)
  ultimately have "store_repr X (commit X db ?batch) st' (bs @ [b])"
    using st' assms(1) by (auto simp: store_repr_def nth_append)
  with that st'(1) show ?thesis by (metis (no_types))
qed

section \<open>Genesis and opening a log\<close>

lemma insert_genesis_repr:
  assumes "storable b" "Block_height b = 0" "db_ok X" "wf_batch batch" "wb_block_byte_pos batch = []"
    and "length (disk_record X b) < 2 ^ 64"
    and "st_file st = []" "st_genesis st = None" "st_height st = 0" "st_blocks st = []"
      "st_byte_pos_tail st = 0"
  obtains st' where "insert_genesis X st batch b = (Inr (st', set_block_byte_pos batch 0 0) :: 'e fail + _)"
    "store_repr X (commit X db (set_block_byte_pos batch 0 0)) st' [b]"
proof -
  let ?st = "st\<lparr>st_file := st_file st @ disk_record X b,
    st_byte_pos_tail := st_byte_pos_tail st + of_nat (length (disk_record X b)), st_genesis := Some b\<rparr>"
  have "insert_genesis X st batch b = (Inr (?st, set_block_byte_pos batch 0 0) :: 'e fail + _)"
    using assms by (simp add: insert_genesis_def store_is_empty_def write_to_disk_storable)
  moreover have "positions_ok X (commit X db (set_block_byte_pos batch 0 0)) [b]"
    using positions_ok_commit [of X "set_block_byte_pos batch 0 0" db "[]" b] assms(3-5)
    by (simp add: positions_ok_def)
  then have "store_repr X (commit X db (set_block_byte_pos batch 0 0)) ?st [b]"
    using assms by (simp add: store_repr_def chain_ok_def cache_ok_def)
  ultimately show ?thesis using that by metis
qed

lemma cache_ok_add:
  "cache_ok cache bs \<Longrightarrow> unat h < length bs \<Longrightarrow> cache_ok (AList.update h (bs ! unat h) cache) bs"
  by (auto simp: cache_ok_def update_conv' split: if_splits)

lemma load_cache_repr:
  assumes "chain_ok X bs" "positions_ok X db bs"
  shows "st_file st = log_bytes X bs \<Longrightarrow> unat (st_height st) < length bs \<Longrightarrow> cache_ok (st_blocks st) bs \<Longrightarrow>
    list_all (\<lambda>h. h \<le> st_height st) hs \<Longrightarrow>
    \<exists>cache. load_cache X db hs st = (Inr (st\<lparr>st_blocks := cache\<rparr>) :: 'e fail + _) \<and> cache_ok cache bs"
proof (induction hs arbitrary: st)
  case (Cons h hs)
  let ?st = "st\<lparr>st_blocks := AList.update h (bs ! unat h) (st_blocks st)\<rparr>"
  have h: "unat h < length bs" "h \<le> st_height st"
    using Cons.prems(2,4) by (simp_all add: word_le_nat_alt)
  obtain cache where c: "load_cache X db hs ?st = (Inr (?st\<lparr>st_blocks := cache\<rparr>) :: 'e fail + _)"
    "cache_ok cache bs"
    using Cons.IH [of ?st] Cons.prems cache_ok_add [OF Cons.prems(3) h(1)] by auto
  have "read_from_disk X db st h = (Inr (Some (bs ! unat h)) :: 'e fail + _)"
    using read_from_disk_repr [OF assms Cons.prems(1,2), of h] h(2) by simp
  then show ?case using c by (intro exI [of _ cache]) simp
next
  case Nil
  then show ?case by (intro exI [of _ "st_blocks st"]) simp
qed

lemma heights_between_le: "list_all (\<lambda>h. h \<le> hi) (heights_between lo hi)"
proof -
  have "of_nat i \<le> hi" if "i \<le> unat hi" for i
  proof -
    have "i < 2 ^ 64"
      using that unsigned_less [of hi, where 'a = nat] by simp
    then show ?thesis
      using that by (simp add: word_le_nat_alt unat_height)
  qed
  then show ?thesis
    by (auto simp: heights_between_def list_all_iff less_Suc_eq_le)
qed

lemma init_state_repr:
  assumes "bs \<noteq> []" "chain_ok X bs" "positions_ok X db bs"
    and "get_chain_height X db = (Inr (of_nat (length bs - 1)) :: 'e fail + _)"
    and "st_file st = log_bytes X bs" "st_byte_pos_tail st = of_nat (length (log_bytes X bs))"
    and "st_genesis st = None \<or> st_genesis st = Some (bs ! 0)" "cache_ok (st_blocks st) bs"
    and "get_index_status X db = (Inr status :: 'e fail + _)"
  obtains st' where "init_state X db st = (Inr st' :: 'e fail + _)" "store_repr X db st' bs"
proof -
  define h :: u64 where "h = of_nat (length bs - 1)"
  let ?st = "st\<lparr>st_height := h\<rparr>"
  have h: "unat h < length bs"
    using assms(1,2) unfolding h_def by (cases bs) (simp_all add: chain_ok_def unat_height del: of_nat_Suc)
  have "read_from_disk X db ?st 0 = (Inr (Some (bs ! 0)) :: 'e fail + _)"
    using read_from_disk_repr [OF assms(2,3), of ?st 0, where 'e = 'e] assms(5) h by simp
  then have g: "store_get X db ?st 0 = (Inr (Some (bs ! 0)) :: 'e fail + _)"
    using assms(7,8)
    by (auto simp: store_get_def cache_ok_def split: option.splits) (metis unat_0)
  obtain cache where c: "load_cache X db (heights_between (saturating_sub h MAX_CACHE_SIZE) h)
      (?st\<lparr>st_genesis := Some (bs ! 0), st_blocks := []\<rparr>) =
      (Inr (?st\<lparr>st_genesis := Some (bs ! 0), st_blocks := cache\<rparr>) :: 'e fail + _)" "cache_ok cache bs"
    using load_cache_repr [OF assms(2,3), of "?st\<lparr>st_genesis := Some (bs ! 0), st_blocks := []\<rparr>"
        "heights_between (saturating_sub h MAX_CACHE_SIZE) h"] assms(5) h heights_between_le [of h]
    by (auto simp: cache_ok_def [of "[]"])
  have "\<not> store_is_empty st"
    using assms(1,5) by (cases bs) (simp_all add: store_is_empty_def disk_record_def disk_meta_def)
  then have "\<not> store_is_empty (?st\<lparr>st_genesis := Some (bs ! 0)\<rparr>)"
    by (simp add: store_is_empty_def)
  then have "init_state X db st = (Inr (if status = StatusComplete
      then ?st\<lparr>st_genesis := Some (bs ! 0), st_blocks := cache\<rparr>
      else ?st\<lparr>st_genesis := Some (bs ! 0)\<rparr>) :: 'e fail + _)"
    using c(1) by (simp add: init_state_def assms(4) [folded h_def] assms(9) g Let_def)
  moreover have "store_repr X db (if status = StatusComplete
      then ?st\<lparr>st_genesis := Some (bs ! 0), st_blocks := cache\<rparr>
      else ?st\<lparr>st_genesis := Some (bs ! 0)\<rparr>) bs"
    using assms c(2) by (simp add: store_repr_def h_def)
  ultimately show ?thesis using that by blast
qed

section \<open>Reindexing a log\<close>

text \<open>What the loop does on the blocks of a chain: record each, then index it.\<close>

primrec index_chain :: "'db ext \<Rightarrow> (write_batch \<Rightarrow> block \<Rightarrow> 'e fail + write_batch) \<Rightarrow> nat \<Rightarrow> block list \<Rightarrow>
    write_batch \<Rightarrow> 'e fail + write_batch" where
  "index_chain X f pos [] batch = Inr batch"
| "index_chain X f pos (b # bs) batch =
     and_then (f (record_block batch (Block_height b) (of_nat pos)) b)
       (index_chain X f (pos + length (disk_record X b)) bs)"

text \<open>The heights of \<open>bs\<close> follow \<open>last\<close>, as the loop checks them.\<close>

fun heights_follow :: "u64 \<Rightarrow> block list \<Rightarrow> bool" where
  "heights_follow lst [] = True"
| "heights_follow lst (b # bs) \<longleftrightarrow>
     (lst = 0 \<or> Block_height b = lst + 1) \<and> heights_follow (Block_height b) bs"

lemma reindex_loop_log:
  "list_all storable bs \<Longrightarrow> heights_follow lst bs \<Longrightarrow>
   reindex_loop X trim f (pre @ log_bytes X bs @ junk) batch lst (length pre) =
    and_then (index_chain X f (length pre) bs batch) (\<lambda>batch.
      reindex_loop X trim f (pre @ log_bytes X bs @ junk) batch
        (if bs = [] then lst else Block_height (last bs)) (length (pre @ log_bytes X bs)))"
proof (induction bs arbitrary: pre batch lst)
  case (Cons b bs)
  have "raw_read_from_disk X (pre @ log_bytes X (b # bs) @ junk) (length pre) =
      Inr (b, length (pre @ disk_record X b))"
    using raw_read_written [of b X pre "log_bytes X bs @ junk"] Cons.prems by simp
  moreover have "reindex_loop X trim f ((pre @ disk_record X b) @ log_bytes X bs @ junk) batch'
      (Block_height b) (length (pre @ disk_record X b)) =
      and_then (index_chain X f (length (pre @ disk_record X b)) bs batch') (\<lambda>batch.
        reindex_loop X trim f ((pre @ disk_record X b) @ log_bytes X bs @ junk) batch
          (if bs = [] then Block_height b else Block_height (last bs))
          (length ((pre @ disk_record X b) @ log_bytes X bs)))" for batch'
    by (rule Cons.IH) (use Cons.prems in simp_all)
  ultimately show ?case
    using Cons.prems
    by (subst reindex_loop.simps) (auto simp: Let_def record_block_def and_then_assoc)
qed simp

lemma reindex_loop_end:
  "reindex_loop X trim f file batch lst (length file) = Inr (batch, None)"
  by (subst reindex_loop.simps) (simp add: raw_read_end)

text \<open>A log cut inside its last record.\<close>

lemma reindex_loop_torn:
  assumes "storable b" "n < length (disk_record X b)"
  shows "reindex_loop X True f (pre @ take n (disk_record X b)) batch lst (length pre) =
    Inr (batch, if n < 8 then None else Some (length pre))"
  by (subst reindex_loop.simps) (simp add: raw_read_torn [OF assms])

lemma reindex_loop_whole:
  assumes "list_all storable bs" "heights_follow 0 bs"
  shows "reindex_loop X trim f (log_bytes X bs) batch 0 0 =
    and_then (index_chain X f 0 bs batch) (\<lambda>batch. Inr (batch, None))"
  using reindex_loop_log [OF assms, of X trim f "[]" "[]" batch] reindex_loop_end [of X trim f "log_bytes X bs"]
  by simp

lemma reindex_loop_recovers:
  assumes "list_all storable bs" "heights_follow 0 bs" "storable b" "n < length (disk_record X b)"
  shows "reindex_loop X True f (log_bytes X bs @ take n (disk_record X b)) batch 0 0 =
    and_then (index_chain X f 0 bs batch) (\<lambda>batch.
      Inr (batch, if n < 8 then None else Some (length (log_bytes X bs))))"
  using reindex_loop_log [OF assms(1,2), of X True f "[]" "take n (disk_record X b)" batch]
    reindex_loop_torn [OF assms(3,4), of f "log_bytes X bs"]
  by simp

lemma heights_follow_consecutive:
  "(\<forall>i < length bs. Block_height (bs ! i) = h + of_nat i) \<Longrightarrow> lst = 0 \<or> h = lst + 1 \<Longrightarrow> heights_follow lst bs"
proof (induction bs arbitrary: h lst)
  case (Cons b bs)
  have "Block_height b = h" using Cons.prems(1) by auto
  moreover have "\<forall>i < length bs. Block_height (bs ! i) = (h + 1) + of_nat i"
    using Cons.prems(1) by (auto simp: all_conj_distrib dest: spec [of _ "Suc _"])
  ultimately show ?case
    using Cons.IH [of "h + 1" h] Cons.prems(2) by simp
qed simp

lemma chain_ok_heights_follow: "chain_ok X bs \<Longrightarrow> heights_follow 0 bs"
  by (rule heights_follow_consecutive [of bs 0]) (simp_all add: chain_ok_def)

end
