(* ===== verification/Chain_View.thy ===== *)
theory Chain_View
  imports Store
begin

text \<open>
  The reading half of \<open>blockchain/mod.rs\<close>, with \<open>constants.rs\<close>: the chain's head and blocks, the
  filtered block, the account as pending receipts leave it, the account and network fees, and the
  chain's properties.  The state of a \<open>Blockchain\<close> is its index and its block store.
\<close>

section \<open>Constants\<close>

definition GRAEL_FEE_MIN :: asset where "GRAEL_FEE_MIN = Asset 25"
definition GRAEL_FEE_MULT :: asset where "GRAEL_FEE_MULT = Asset 200000"
definition GRAEL_FEE_NET_MULT :: asset where "GRAEL_FEE_NET_MULT = Asset 101500"
definition GRAEL_ACC_CREATE_FEE_MULT :: asset where "GRAEL_ACC_CREATE_FEE_MULT = Asset 200000"
definition GRAEL_ACC_CREATE_MIN_BAL_MULT :: asset where "GRAEL_ACC_CREATE_MIN_BAL_MULT = Asset 200000"

definition NETWORK_FEE_AVG_WINDOW :: u64 where "NETWORK_FEE_AVG_WINDOW = 10"
definition FEE_RESET_WINDOW :: nat where "FEE_RESET_WINDOW = 4"

definition TX_MAX_EXPIRY_TIME :: u64 where "TX_MAX_EXPIRY_TIME = 60 * 60 * 24 * 30"
definition BLOCK_PROD_TIME :: u64 where "BLOCK_PROD_TIME = 3"

definition MAX_MEMO_BYTE_SIZE :: nat where "MAX_MEMO_BYTE_SIZE = 1024"
definition MAX_TX_SIGNATURES :: nat where "MAX_TX_SIGNATURES = 8"

section \<open>State\<close>

record 'db blockchain =
  bc_db :: 'db
  bc_store :: block_store

record chain_properties =
  pr_height :: u64
  pr_owner :: tx_variant
  pr_network_fee :: asset
  pr_token_supply :: asset

record account_info =
  ai_account :: account
  ai_net_fee :: asset
  ai_account_fee :: asset

definition total_fee :: "account_info \<Rightarrow> asset option" where
  "total_fee self = Asset_checked_add (ai_net_fee self) (ai_account_fee self)"

section \<open>Blocks\<close>

definition chain_get_owner :: "'db ext \<Rightarrow> 'db blockchain \<Rightarrow> 'e fail + tx_variant" where
  "chain_get_owner X self = and_then (get_owner X (bc_db self)) unwrap"

definition chain_height :: "'db ext \<Rightarrow> 'db blockchain \<Rightarrow> 'e fail + u64" where
  "chain_height X self = get_chain_height X (bc_db self)"

definition get_chain_head :: "'db ext \<Rightarrow> 'db blockchain \<Rightarrow> 'e fail + block" where
  "get_chain_head X self =
     and_then (store_get X (bc_db self) (bc_store self) (st_height (bc_store self))) unwrap"

definition get_block :: "'db ext \<Rightarrow> 'db blockchain \<Rightarrow> u64 \<Rightarrow> 'e fail + block option" where
  "get_block X self h = store_get X (bc_db self) (bc_store self) h"

text \<open>Whether a receipt names an account of the filter.\<close>

definition log_names :: "account_id set \<Rightarrow> log_entry \<Rightarrow> bool" where
  "log_names f entry =
     (case entry of LogTransfer to_acc _ \<Rightarrow> to_acc \<in> f | LogDestroy to_acc \<Rightarrow> to_acc \<in> f)"

definition receipt_matches :: "account_id set \<Rightarrow> receipt \<Rightarrow> bool" where
  "receipt_matches f r =
     (case rc_tx r of TxV0 t \<Rightarrow>
       (case t of
          OwnerTx t \<Rightarrow> wallet t \<in> f
        | MintTx t \<Rightarrow> mint_to t \<in> f
        | CreateAccountTx t \<Rightarrow> creator t \<in> f \<or> acc_id (ca_account t) \<in> f
        | UpdateAccountTx t \<Rightarrow> ua_account_id t \<in> f
        | TransferTx t \<Rightarrow> if tr_from t \<in> f then True else list_ex (log_names f) (rc_log r)))"

definition get_filtered_block :: "'db ext \<Rightarrow> 'db blockchain \<Rightarrow> u64 \<Rightarrow> account_id set \<Rightarrow> 'e fail + filtered_block option" where
  "get_filtered_block X self h f =
     and_then_some (get_block X self h) (\<lambda>block.
       let has_match = (if f = {} then False else list_ex (receipt_matches f) (Block_receipts block))
       in if has_match then Inr (Some (FilteredBlock block))
          else and_then (unwrap (Block_signer block)) (\<lambda>sp.
            Inr (Some (FilteredHeader (Block_header block) sp))))"

section \<open>Accounts under pending receipts\<close>

fun apply_log_entry :: "account_id \<Rightarrow> account_id \<Rightarrow> log_entry \<Rightarrow> account \<Rightarrow> account option" where
  "apply_log_entry i sender (LogTransfer to_acc a) acc =
     (if to_acc = i then
        map_option (\<lambda>b. acc\<lparr>balance := b\<rparr>) (Asset_checked_add (balance acc) a)
      else Some acc)"
| "apply_log_entry i sender (LogDestroy to_acc) acc =
     (if sender = i then Some (acc\<lparr>destroyed := True, balance := Asset 0\<rparr>) else Some acc)"

primrec apply_log :: "account_id \<Rightarrow> account_id \<Rightarrow> log_entry list \<Rightarrow> account \<Rightarrow> account option" where
  "apply_log i sender [] acc = Some acc"
| "apply_log i sender (entry # entries) acc =
     Option.bind (apply_log_entry i sender entry acc) (apply_log i sender entries)"

definition sub_two :: "account \<Rightarrow> asset \<Rightarrow> asset \<Rightarrow> account option" where
  "sub_two acc a b = do {
     bal \<leftarrow> Asset_checked_sub (balance acc) a;
     bal \<leftarrow> Asset_checked_sub bal b;
     Some (acc\<lparr>balance := bal\<rparr>)
   }"

definition apply_receipt :: "account_id \<Rightarrow> receipt \<Rightarrow> account \<Rightarrow> account option" where
  "apply_receipt i r acc =
     (case rc_tx r of TxV0 t \<Rightarrow>
       (case t of
          OwnerTx _ \<Rightarrow> Some acc
        | MintTx t \<Rightarrow>
            if mint_to t = i then
              map_option (\<lambda>b. acc\<lparr>balance := b\<rparr>) (Asset_checked_add (balance acc) (mint_amount t))
            else Some acc
        | CreateAccountTx t \<Rightarrow>
            if creator t = i then sub_two acc (balance (ca_account t)) (fee (ca_base t)) else Some acc
        | UpdateAccountTx t \<Rightarrow> do {
            acc \<leftarrow> (if ua_account_id t = i then
                      map_option (\<lambda>b. acc\<lparr>balance := b\<rparr>) (Asset_checked_sub (balance acc) (fee (ua_base t)))
                    else Some acc);
            acc \<leftarrow> Some (case new_script t of Some scr \<Rightarrow> acc\<lparr>acc_script := scr\<rparr> | None \<Rightarrow> acc);
            Some (case new_permissions t of Some perms \<Rightarrow> acc\<lparr>permissions := perms\<rparr> | None \<Rightarrow> acc)
          }
        | TransferTx t \<Rightarrow> do {
            acc \<leftarrow> (if tr_from t = i then sub_two acc (fee (tr_base t)) (tr_amount t) else Some acc);
            apply_log i (tr_from t) (rc_log r) acc
          }))"

primrec apply_receipts :: "account_id \<Rightarrow> receipt list \<Rightarrow> account \<Rightarrow> account option" where
  "apply_receipts i [] acc = Some acc"
| "apply_receipts i (r # rs) acc = Option.bind (apply_receipt i r acc) (apply_receipts i rs)"

definition get_account :: "'db ext \<Rightarrow> 'db blockchain \<Rightarrow> account_id \<Rightarrow> receipt list \<Rightarrow> 'e fail + account option" where
  "get_account X self i additional_receipts =
     and_then_some (idx_get_account X (bc_db self) i) (\<lambda>acc.
       Inr (apply_receipts i additional_receipts acc))"

section \<open>Fees\<close>

definition charges :: "account_id \<Rightarrow> receipt \<Rightarrow> bool" where
  "charges i r =
     (case rc_tx r of TxV0 t \<Rightarrow>
       (case t of
          OwnerTx _ \<Rightarrow> False
        | MintTx _ \<Rightarrow> False
        | CreateAccountTx t \<Rightarrow> creator t = i
        | UpdateAccountTx t \<Rightarrow> ua_account_id t = i
        | TransferTx t \<Rightarrow> tr_from t = i))"

text \<open>The counters \<open>count\<close> (an \<open>i32\<close>) and \<open>delta\<close>.\<close>

type_synonym fee_state = "u32 \<times> nat"

definition handle_receipt_match :: "account_id \<Rightarrow> fee_state \<Rightarrow> receipt \<Rightarrow> fee_state" where
  "handle_receipt_match i st r =
     (case st of (count, delta) \<Rightarrow> if charges i r then (count + 1, 0) else (count, delta))"

definition fee_block :: "'db ext \<Rightarrow> 'db blockchain \<Rightarrow> account_id \<Rightarrow> u64 \<Rightarrow> fee_state \<Rightarrow> 'e fail + fee_state" where
  "fee_block X self i h st =
     (case st of (count, delta) \<Rightarrow>
       and_then (and_then (get_block X self h) unwrap) (\<lambda>block.
         Inr (foldl (handle_receipt_match i) (count, delta + 1) (Block_receipts block))))"

text \<open>The loop over the heights \<open>n, n - 1, ..., 0\<close>, left when \<open>delta\<close> reaches the window.\<close>

primrec fee_loop :: "'db ext \<Rightarrow> 'db blockchain \<Rightarrow> account_id \<Rightarrow> nat \<Rightarrow> fee_state \<Rightarrow> 'e fail + fee_state" where
  "fee_loop X self i 0 st = fee_block X self i 0 st"
| "fee_loop X self i (Suc n) st =
     and_then (fee_block X self i (of_nat (Suc n)) st) (\<lambda>st.
       if snd st = FEE_RESET_WINDOW then Inr st else fee_loop X self i n st)"

text \<open>The minimum fee times a power of \<open>mult\<close>.\<close>

definition scaled_fee :: "'db ext \<Rightarrow> asset \<Rightarrow> u16 \<Rightarrow> 'e fail + asset option" where
  "scaled_fee X mult count =
     and_then_some (Asset_checked_pow X mult count) (\<lambda>p. Asset_checked_mul GRAEL_FEE_MIN p)"

definition get_account_fee :: "'db ext \<Rightarrow> 'db blockchain \<Rightarrow> account_id \<Rightarrow> receipt list \<Rightarrow> 'e fail + asset option" where
  "get_account_fee X self i additional_receipts =
     (let st = foldl (handle_receipt_match i) (1, 0) additional_receipts
      in and_then (chain_height X self) (\<lambda>h.
         and_then (fee_loop X self i (unat h) st) (\<lambda>(count, delta).
           scaled_fee X GRAEL_FEE_MULT (ucast count))))"

primrec count_receipts :: "'db ext \<Rightarrow> 'db blockchain \<Rightarrow> u64 list \<Rightarrow> u64 \<Rightarrow> 'e fail + u64" where
  "count_receipts X self [] count = Inr count"
| "count_receipts X self (h # hs) count =
     and_then (and_then (get_block X self h) unwrap) (\<lambda>block.
       count_receipts X self hs (count + of_nat (length (Block_receipts block))))"

definition get_network_fee :: "'db ext \<Rightarrow> 'db blockchain \<Rightarrow> 'e fail + asset option" where
  "get_network_fee X self =
     and_then (chain_height X self) (\<lambda>max_height.
       let max_height = max_height - (max_height mod 5);
           min_height = (if max_height > NETWORK_FEE_AVG_WINDOW
                         then max_height - NETWORK_FEE_AVG_WINDOW else 0)
       in and_then (count_receipts X self (heights_between min_height max_height) 1) (\<lambda>count.
         let count = count div NETWORK_FEE_AVG_WINDOW
         in if count > 65535 then Inr None
            else scaled_fee X GRAEL_FEE_NET_MULT (ucast count)))"

definition get_account_info :: "'db ext \<Rightarrow> 'db blockchain \<Rightarrow> account_id \<Rightarrow> receipt list \<Rightarrow> 'e fail + account_info option" where
  "get_account_info X self i additional_receipts =
     and_then_some (get_account X self i additional_receipts) (\<lambda>acc.
     and_then_some (get_network_fee X self) (\<lambda>net_fee.
     and_then_some (get_account_fee X self i additional_receipts) (\<lambda>account_fee.
       Inr (Some \<lparr>ai_account = acc, ai_net_fee = net_fee, ai_account_fee = account_fee\<rparr>))))"

definition get_properties :: "'db ext \<Rightarrow> 'db blockchain \<Rightarrow> 'e fail + chain_properties" where
  "get_properties X self =
     and_then (chain_height X self) (\<lambda>h.
     and_then (chain_get_owner X self) (\<lambda>owner.
     and_then (get_token_supply X (bc_db self)) (\<lambda>supply.
     and_then (and_then (get_network_fee X self) unwrap) (\<lambda>net_fee.
       Inr \<lparr>pr_height = h, pr_owner = owner, pr_network_fee = net_fee, pr_token_supply = supply\<rparr>))))"

section \<open>The chain behind the state\<close>

text \<open>\<open>chain_repr X c bs\<close>: the store and the index of \<open>c\<close> hold the blocks \<open>bs\<close>, and the index knows
  the height (which it does not store before the first block after genesis).\<close>

definition height_stored :: "'db ext \<Rightarrow> 'db \<Rightarrow> nat \<Rightarrow> bool" where
  "height_stored X db n \<longleftrightarrow>
     (case db_get X db CF_DEFAULT KEY_CHAIN_HEIGHT of
        Some buf \<Rightarrow> buf = be_bytes 8 (of_nat n :: u64)
      | None \<Rightarrow> n = 0)"

definition chain_repr :: "'db ext \<Rightarrow> 'db blockchain \<Rightarrow> block list \<Rightarrow> bool" where
  "chain_repr X c bs \<longleftrightarrow>
     store_repr X (bc_db c) (bc_store c) bs \<and> height_stored X (bc_db c) (length bs - 1)"

lemma height_stored_get: "height_stored X db n \<Longrightarrow> get_chain_height X db = Inr (of_nat n)"
  by (auto simp: height_stored_def get_chain_height_def u64_from_slice_def split: option.splits)

lemma chain_repr_length: "chain_repr X c bs \<Longrightarrow> 0 < length bs \<and> length bs < 2 ^ 64"
  by (simp add: chain_repr_def store_repr_def chain_ok_def)

lemma chain_height_repr: "chain_repr X c bs \<Longrightarrow> chain_height X c = Inr (of_nat (length bs - 1))"
  unfolding chain_height_def by (rule height_stored_get) (simp add: chain_repr_def)

lemma get_block_repr:
  "chain_repr X c bs \<Longrightarrow> get_block X c h = Inr (if unat h < length bs then Some (bs ! unat h) else None)"
  by (simp add: get_block_def chain_repr_def store_get_repr)

lemma get_chain_head_repr:
  assumes "chain_repr X c bs"
  shows "get_chain_head X c = Inr (last bs)"
proof -
  have r: "store_repr X (bc_db c) (bc_store c) bs" and ne: "bs \<noteq> []"
    using assms by (auto simp: chain_repr_def store_repr_def)
  have "unat (st_height (bc_store c)) = length bs - 1"
    by (rule store_repr_height [OF r])
  then show ?thesis
    using ne by (simp add: get_chain_head_def store_get_repr [OF r] last_conv_nth)
qed

section \<open>The filter\<close>

text \<open>The accounts a receipt involves, as far as the filter looks.\<close>

fun log_target :: "log_entry \<Rightarrow> account_id" where
  "log_target (LogTransfer to_acc _) = to_acc"
| "log_target (LogDestroy to_acc) = to_acc"

definition involved :: "receipt \<Rightarrow> account_id set" where
  "involved r =
     (case rc_tx r of TxV0 t \<Rightarrow>
       (case t of
          OwnerTx t \<Rightarrow> {wallet t}
        | MintTx t \<Rightarrow> {mint_to t}
        | CreateAccountTx t \<Rightarrow> {creator t, acc_id (ca_account t)}
        | UpdateAccountTx t \<Rightarrow> {ua_account_id t}
        | TransferTx t \<Rightarrow> {tr_from t} \<union> log_target ` set (rc_log r)))"

lemma log_names_iff: "log_names f e \<longleftrightarrow> log_target e \<in> f"
  by (cases e) (simp_all add: log_names_def)

lemma receipt_matches_iff: "receipt_matches f r \<longleftrightarrow> involved r \<inter> f \<noteq> {}"
  by (auto simp: receipt_matches_def involved_def log_names_iff list_ex_iff
      split: tx_variant.splits tx_variant_v0.splits)

lemma get_filtered_block_repr:
  assumes "chain_repr X c bs"
  shows "get_filtered_block X c h f =
    Inr (if unat h < length bs then
           (let b = bs ! unat h
            in Some (if \<exists>r \<in> set (Block_receipts b). involved r \<inter> f \<noteq> {} then FilteredBlock b
                     else FilteredHeader (Block_header b) (the (Block_signer b))))
         else None)"
proof (cases "unat h < length bs")
  case True
  then obtain sp where "Block_signer (bs ! unat h) = Some sp"
    using assms chain_ok_nth [of X bs "unat h"]
    by (auto simp: chain_repr_def store_repr_def storable_def wf_block_def)
  then show ?thesis
    using True by (auto simp: get_filtered_block_def get_block_repr [OF assms] Let_def list_ex_iff
        receipt_matches_iff)
qed (simp add: get_filtered_block_def get_block_repr [OF assms])

section \<open>The account fee\<close>

definition charge_count :: "account_id \<Rightarrow> receipt list \<Rightarrow> nat" where
  "charge_count i rs = length (filter (charges i) rs)"

text \<open>The charges counted from the head of the chain backwards, until four blocks in a row have
  none.\<close>

fun window_charges :: "account_id \<Rightarrow> nat \<Rightarrow> block list \<Rightarrow> nat" where
  "window_charges i delta [] = 0"
| "window_charges i delta (b # bs) =
     (let k = charge_count i (Block_receipts b);
          delta = (if k = 0 then delta + 1 else 0)
      in k + (if delta = FEE_RESET_WINDOW then 0 else window_charges i delta bs))"

lemma foldl_handle:
  "foldl (handle_receipt_match i) (count, delta) rs =
    (count + of_nat (charge_count i rs), if charge_count i rs = 0 then delta else 0)"
  by (induction rs arbitrary: count delta) (auto simp: handle_receipt_match_def charge_count_def)

lemma fee_loop_repr:
  assumes "chain_repr X c bs"
  shows "n < length bs \<Longrightarrow> \<exists>d. fee_loop X c i n (count, delta) =
    (Inr (count + of_nat (window_charges i delta (rev (take (Suc n) bs))), d) :: 'e fail + _)"
proof (induction n arbitrary: count delta)
  case 0
  then have "take (Suc 0) bs = [bs ! 0]"
    by (cases bs) simp_all
  then show ?case
    using 0 by (auto simp: fee_block_def get_block_repr [OF assms] foldl_handle Let_def)
next
  case (Suc n)
  let ?b = "bs ! Suc n"
  have b: "fee_block X c i (of_nat (Suc n)) (count, delta) = (Inr (count + of_nat (charge_count i (Block_receipts ?b)),
      if charge_count i (Block_receipts ?b) = 0 then delta + 1 else 0) :: 'e fail + _)"
    using Suc.prems chain_repr_length [OF assms]
    by (simp add: fee_block_def get_block_repr [OF assms] foldl_handle unat_height del: of_nat_Suc)
  have t: "rev (take (Suc (Suc n)) bs) = ?b # rev (take (Suc n) bs)"
    using Suc.prems by (simp add: take_Suc_conv_app_nth [of "Suc n"])
  let ?k = "charge_count i (Block_receipts ?b)"
  show ?case
    unfolding t using Suc.prems
      Suc.IH [of "count + of_nat ?k" "if ?k = 0 then delta + 1 else 0"]
    by (cases "?k = 0") (auto simp: b Let_def add.assoc simp del: of_nat_Suc)
qed

lemma pow_spec_doubles: "pow_spec 200000 n = 2 ^ n * 100000"
proof (cases n)
  case (Suc m)
  have "(200000 :: int) ^ m = 2 ^ m * 100000 ^ m"
    by (simp flip: power_mult_distrib)
  then have "(200000 :: int) ^ n = (2 ^ n * 100000) * 10 ^ (5 * n - 5)"
    by (simp add: Suc power_mult)
  then show ?thesis
    by (simp add: pow_spec_def Suc trunc_div_sgn_pos)
qed (simp add: pow_spec_def)

lemma trunc_div_fee: "trunc_div (2500000 * 2 ^ n) 100000 = 25 * 2 ^ n"
  by (simp add: trunc_div_sgn_pos)

lemma fits_doubled: "fits 64 (2 ^ n * 100000) \<longleftrightarrow> n \<le> 46"
proof -
  have "(2 :: int) ^ n * 100000 < 2 ^ 63 \<longleftrightarrow> n \<le> 46"
  proof (cases "n \<le> 46")
    case True
    then have "(2 :: int) ^ n \<le> 2 ^ 46" by (simp only: power_increasing one_le_numeral)
    then show ?thesis using True by simp
  next
    case False
    then have "(2 :: int) ^ 47 \<le> 2 ^ n" by (intro power_increasing) simp_all
    then show ?thesis using False by simp
  qed
  moreover have "- (2 ^ 63) \<le> (2 :: int) ^ n * 100000"
    by (rule order_trans [of _ 0]) simp_all
  ultimately show ?thesis unfolding fits_def by simp
qed

lemma scaled_fee_doubles:
  assumes "bigint_ok X" "n < 2 ^ 16"
  shows "scaled_fee X GRAEL_FEE_MULT (of_nat n) =
    Inr (if n \<le> 46 then Some (Asset (25 * 2 ^ n)) else None)"
proof -
  have u: "unat (of_nat n :: u16) = n" using assms(2) by (simp add: unat_of_nat)
  have a: "amt GRAEL_FEE_MULT = 200000" "amt GRAEL_FEE_MIN = 25"
    by (simp_all add: amt_def GRAEL_FEE_MULT_def GRAEL_FEE_MIN_def)
  show ?thesis
  proof (cases "n \<le> 46")
    case True
    have le: "(2 :: int) ^ n \<le> 2 ^ 46" using True by (simp only: power_increasing one_le_numeral)
    have "amt (Asset (word_of_int (2 ^ n * 100000))) = 2 ^ n * 100000"
      using True by (intro amt_Asset_of_int) (simp add: fits_doubled)
    moreover have "(word_of_int (25 * 2 ^ n) :: u64) = 25 * 2 ^ n" by simp
    ultimately show ?thesis
      using True le unfolding scaled_fee_def Asset_checked_pow_eq [OF assms(1)] u a pow_spec_doubles
      by (simp add: checked_def fits_doubled Asset_checked_mul_eq a trunc_div_fee Let_def)
  next
    case False
    then show ?thesis
      unfolding scaled_fee_def Asset_checked_pow_eq [OF assms(1)] u a pow_spec_doubles
      by (simp add: checked_def fits_doubled)
  qed
qed

lemma ucast_of_nat_u16: "(ucast (of_nat n :: u32) :: u16) = of_nat n"
  by (simp only: unsigned_of_nat word_unat_eq_iff unat_of_nat take_bit_eq_mod) (simp add: mod_mod_cancel)

lemma of_nat_u16_mod: "(of_nat (n mod 2 ^ 16) :: u16) = of_nat n"
  by (simp add: word_unat_eq_iff unat_of_nat take_bit_eq_mod)

text \<open>The counter starts at one; its sixteen low bits are the exponent.\<close>

lemma get_account_fee_repr:
  assumes "chain_repr X c bs" "bigint_ok X"
    and "n = (1 + charge_count i pending + window_charges i 0 (rev bs)) mod 2 ^ 16"
  shows "get_account_fee X c i pending =
    (Inr (if n \<le> 46 then Some (Asset (25 * 2 ^ n)) else None) :: 'e fail + _)"
proof -
  have len: "0 < length bs" "length bs < 2 ^ 64" using chain_repr_length [OF assms(1)] by simp_all
  have u: "unat (of_nat (length bs - 1) :: u64) = length bs - 1"
    using len(2) by (intro unat_height) simp
  have t: "take (Suc (length bs - 1)) bs = bs" using len(1) by simp
  have st: "foldl (handle_receipt_match i) (1, 0) pending = (1 + of_nat (charge_count i pending), 0)"
    by (simp add: foldl_handle)
  obtain d where d: "fee_loop X c i (length bs - 1) (1 + of_nat (charge_count i pending), 0) =
      (Inr (1 + of_nat (charge_count i pending) + of_nat (window_charges i 0 (rev bs)), d) :: 'e fail + _)"
    using fee_loop_repr [OF assms(1), of "length bs - 1" i] len(1) t by (metis diff_less zero_less_one)
  have n: "n < 2 ^ 16" by (simp add: assms(3))
  have "(ucast (1 + of_nat (charge_count i pending) + of_nat (window_charges i 0 (rev bs)) :: u32) :: u16) = of_nat n"
    using ucast_of_nat_u16 [of "1 + charge_count i pending + window_charges i 0 (rev bs)"]
      of_nat_u16_mod [of "1 + charge_count i pending + window_charges i 0 (rev bs)"]
    by (simp add: assms(3) add.assoc)
  then show ?thesis
    using scaled_fee_doubles [OF assms(2) n]
    unfolding get_account_fee_def Let_def chain_height_repr [OF assms(1)] and_then_simps u st d
    by simp
qed

section \<open>The network fee\<close>

text \<open>The blocks of the averaging window: from the height rounded down to a multiple of five, back
  ten heights.\<close>

definition fee_window :: "block list \<Rightarrow> block list" where
  "fee_window bs =
     (let hi = (length bs - 1) - (length bs - 1) mod 5; lo = hi - 10
      in map (\<lambda>i. bs ! i) [lo ..< Suc hi])"

lemma count_receipts_repr:
  assumes "chain_repr X c bs"
  shows "list_all (\<lambda>n. n < length bs) ns \<Longrightarrow>
    count_receipts X c (map of_nat ns) count =
      Inr (count + of_nat (sum_list (map (\<lambda>n. length (Block_receipts (bs ! n))) ns)))"
proof (induction ns arbitrary: count)
  case (Cons n ns)
  then have "unat (of_nat n :: u64) = n"
    using chain_repr_length [OF assms] by (intro unat_height) simp
  then show ?case
    using Cons by (simp add: get_block_repr [OF assms] add.assoc)
qed simp

lemma get_network_fee_words:
  assumes "chain_repr X c bs" "n = (1 + sum_list (map (length \<circ> Block_receipts) (fee_window bs)))"
  shows "get_network_fee X c =
    (if (of_nat n :: u64) div 10 > 65535 then Inr None
     else scaled_fee X GRAEL_FEE_NET_MULT (ucast ((of_nat n :: u64) div 10)) :: 'e fail + _)"
proof -
  define l where "l = length bs - 1"
  have len: "0 < length bs" "length bs < 2 ^ 64" using chain_repr_length [OF assms(1)] by simp_all
  have u: "unat (of_nat l :: u64) = l" using len by (intro unat_height) (simp add: l_def)
  have hi: "unat ((of_nat l :: u64) - of_nat l mod 5) = l - l mod 5"
    by (subst unat_sub) (simp_all add: word_le_nat_alt unat_mod u)
  define hi where "hi = l - l mod 5"
  define H where "H = (of_nat l :: u64) - of_nat l mod 5"
  have H: "unat H = hi" using hi by (simp add: H_def hi_def)
  have lo: "unat (if H > 10 then H - 10 else 0) = hi - 10"
    by (auto simp: unat_sub_if' word_less_nat_alt word_le_nat_alt H)
  have h: "heights_between (if H > 10 then H - 10 else 0) H = map of_nat [hi - 10 ..< Suc hi]"
    by (simp only: heights_between_def H lo)
  have ns: "list_all (\<lambda>n. n < length bs) [hi - 10 ..< Suc hi]"
    using len(1) by (auto simp: list_all_iff hi_def l_def)
  have w: "sum_list (map (length \<circ> Block_receipts) (fee_window bs)) =
      sum_list (map (\<lambda>n. length (Block_receipts (bs ! n))) [hi - 10 ..< Suc hi])"
    by (simp only: fee_window_def Let_def l_def [symmetric] hi_def [symmetric] map_map o_def)
  have c: "count_receipts X c (map of_nat [hi - 10 ..< Suc hi]) 1 = (Inr (of_nat n) :: 'e fail + u64)"
    unfolding count_receipts_repr [OF assms(1) ns] assms(2) w by simp
  show ?thesis
    unfolding get_network_fee_def chain_height_repr [OF assms(1)] l_def [symmetric] and_then_simps Let_def
      NETWORK_FEE_AVG_WINDOW_def H_def [symmetric] h c ..
qed

lemma get_network_fee_repr:
  assumes "chain_repr X c bs"
    and "n = (1 + sum_list (map (length \<circ> Block_receipts) (fee_window bs)))" "n < 2 ^ 64"
  shows "get_network_fee X c =
    (if n div 10 \<ge> 2 ^ 16 then Inr None else scaled_fee X GRAEL_FEE_NET_MULT (of_nat (n div 10)) :: 'e fail + _)"
proof -
  have d: "unat ((of_nat n :: u64) div 10) = n div 10"
    using assms(3) by (simp add: unat_div unat_of_nat)
  have g: "(of_nat n :: u64) div 10 > 65535 \<longleftrightarrow> n div 10 \<ge> 2 ^ 16"
    by (simp add: word_less_nat_alt d) linarith
  have s: "(ucast ((of_nat n :: u64) div 10) :: u16) = of_nat (n div 10)"
    using d by (metis of_nat_unat)
  show ?thesis unfolding get_network_fee_words [OF assms(1,2)] g s ..
qed

text \<open>The fees of a stored chain are always computed, if not always to an amount.\<close>

lemma scaled_fee_total: "bigint_ok X \<Longrightarrow> \<exists>r. scaled_fee X mult n = Inr r"
  by (auto simp: scaled_fee_def Asset_checked_pow_eq Asset_checked_mul_eq Let_def and_then_some_def split: option.splits)

lemma fees_total:
  assumes "chain_repr X c bs" "bigint_ok X"
  shows "\<exists>r. get_network_fee X c = Inr r" "\<exists>r. get_account_fee X c i pending = Inr r"
  using scaled_fee_total [OF assms(2)]
  by (auto simp: get_network_fee_words [OF assms(1) refl] get_account_fee_repr [OF assms refl])

text \<open>With no traffic to speak of, the network fee is the minimum.\<close>

lemma scaled_fee_0:
  assumes "bigint_ok X"
  shows "scaled_fee X m 0 = Inr (Some GRAEL_FEE_MIN)"
proof -
  have a: "amt GRAEL_FEE_MIN = 25" by (simp add: amt_def GRAEL_FEE_MIN_def)
  have one: "checked (100000 :: int) = Some (100000 :: i64)"
    by (simp add: checked_def fits_def)
  have "amt (Asset 100000) = 100000" by (simp add: amt_def)
  then have "Asset_checked_mul GRAEL_FEE_MIN (Asset 100000) = Inr (Some GRAEL_FEE_MIN)"
    unfolding Asset_checked_mul_eq a by (simp add: trunc_div_def Let_def GRAEL_FEE_MIN_def)
  then show ?thesis
    by (simp add: scaled_fee_def Asset_checked_pow_eq [OF assms] pow_spec_def one)
qed

end
