(* ===== verification/Net_Msg.thy ===== *)
theory Net_Msg
  imports Chain_View
begin

text \<open>
  The wire protocol, \<open>net/mod.rs\<close> and \<open>net/rpc.rs\<close>: error kinds, requests, responses and messages,
  each with its serializer, its deserializer and the round trip between them.  A serializer panics
  on an unsigned block only.
\<close>

section \<open>Error kinds\<close>

datatype error_kind = Io | BytesRemaining | InvalidRequest | InvalidHeight | TxValidation tx_err

fun ErrorKind_serialize :: "error_kind \<Rightarrow> bytes" where
  "ErrorKind_serialize Io = push_u8 0x00"
| "ErrorKind_serialize BytesRemaining = push_u8 0x01"
| "ErrorKind_serialize InvalidRequest = push_u8 0x02"
| "ErrorKind_serialize InvalidHeight = push_u8 0x03"
| "ErrorKind_serialize (TxValidation err) = push_u8 0x04 @ TxErr_serialize err"

definition ErrorKind_deserialize :: "error_kind reader" where
  "ErrorKind_deserialize cur =
     and_then (take_u8 cur) (\<lambda>(tag, cur).
       if tag = 0x00 then Inr (Io, cur)
       else if tag = 0x01 then Inr (BytesRemaining, cur)
       else if tag = 0x02 then Inr (InvalidRequest, cur)
       else if tag = 0x03 then Inr (InvalidHeight, cur)
       else if tag = 0x04 then and_then (TxErr_deserialize cur) (\<lambda>(e, cur). Inr (TxValidation e, cur))
       else Inl (InvalidData ''failed to deserialize ErrorKind''))"

interpretation error_kind_codec: io_parser ErrorKind_serialize ErrorKind_deserialize any
proof
  fix a rest
  show "ErrorKind_deserialize (ErrorKind_serialize a @ rest) = Inr (a, rest)"
    by (cases a) (simp_all add: ErrorKind_deserialize_def tx_err_codec.io_roundtrip)
qed simp

section \<open>Requests\<close>

datatype rpc_type = RpcBroadcast | RpcSetBlockFilter | RpcClearBlockFilter | RpcSubscribe | RpcUnsubscribe
  | RpcGetProperties | RpcGetBlock | RpcGetFullBlock | RpcGetBlockRange | RpcGetAccountInfo

fun rpc_byte :: "rpc_type \<Rightarrow> u8" where
  "rpc_byte RpcBroadcast = 0x10"
| "rpc_byte RpcSetBlockFilter = 0x11"
| "rpc_byte RpcClearBlockFilter = 0x12"
| "rpc_byte RpcSubscribe = 0x13"
| "rpc_byte RpcUnsubscribe = 0x14"
| "rpc_byte RpcGetProperties = 0x20"
| "rpc_byte RpcGetBlock = 0x21"
| "rpc_byte RpcGetFullBlock = 0x22"
| "rpc_byte RpcGetBlockRange = 0x23"
| "rpc_byte RpcGetAccountInfo = 0x24"

text \<open>\<open>BlockFilter\<close> is a \<open>BTreeSet\<close>: iterated in ascending order.\<close>

datatype request = ReqBroadcast tx_variant | ReqSetBlockFilter "account_id set" | ReqClearBlockFilter
  | ReqSubscribe | ReqUnsubscribe | ReqGetProperties | ReqGetBlock u64 | ReqGetFullBlock u64
  | ReqGetBlockRange u64 u64 | ReqGetAccountInfo account_id

fun Request_serialize :: "request \<Rightarrow> bytes" where
  "Request_serialize (ReqBroadcast t) = push_u8 (rpc_byte RpcBroadcast) @ TxVariant_serialize t"
| "Request_serialize (ReqSetBlockFilter f) =
     push_u8 (rpc_byte RpcSetBlockFilter) @ push_u8 (of_nat (card f)) @
     concat (map push_u64 (sorted_list_of_set f))"
| "Request_serialize ReqClearBlockFilter = push_u8 (rpc_byte RpcClearBlockFilter)"
| "Request_serialize ReqSubscribe = push_u8 (rpc_byte RpcSubscribe)"
| "Request_serialize ReqUnsubscribe = push_u8 (rpc_byte RpcUnsubscribe)"
| "Request_serialize ReqGetProperties = push_u8 (rpc_byte RpcGetProperties)"
| "Request_serialize (ReqGetBlock h) = push_u8 (rpc_byte RpcGetBlock) @ push_u64 h"
| "Request_serialize (ReqGetFullBlock h) = push_u8 (rpc_byte RpcGetFullBlock) @ push_u64 h"
| "Request_serialize (ReqGetBlockRange lo hi) =
     push_u8 (rpc_byte RpcGetBlockRange) @ push_u64 lo @ push_u64 hi"
| "Request_serialize (ReqGetAccountInfo i) = push_u8 (rpc_byte RpcGetAccountInfo) @ push_u64 i"

definition Request_deserialize :: "request reader" where
  "Request_deserialize cur =
     and_then (take_u8 cur) (\<lambda>(t, cur).
       if t = rpc_byte RpcBroadcast then
         and_then (ok_or (TxVariant_deserialize cur) (InvalidData ''failed to decode tx''))
           (\<lambda>(v, cur). Inr (ReqBroadcast v, cur))
       else if t = rpc_byte RpcSetBlockFilter then
         and_then (take_u8 cur) (\<lambda>(acc_len, cur).
         and_then (take_many take_u64 (unat acc_len) cur) (\<lambda>(accs, cur).
           Inr (ReqSetBlockFilter (set accs), cur)))
       else if t = rpc_byte RpcClearBlockFilter then Inr (ReqClearBlockFilter, cur)
       else if t = rpc_byte RpcSubscribe then Inr (ReqSubscribe, cur)
       else if t = rpc_byte RpcUnsubscribe then Inr (ReqUnsubscribe, cur)
       else if t = rpc_byte RpcGetProperties then Inr (ReqGetProperties, cur)
       else if t = rpc_byte RpcGetBlock then and_then (take_u64 cur) (\<lambda>(h, cur). Inr (ReqGetBlock h, cur))
       else if t = rpc_byte RpcGetFullBlock then
         and_then (take_u64 cur) (\<lambda>(h, cur). Inr (ReqGetFullBlock h, cur))
       else if t = rpc_byte RpcGetBlockRange then
         and_then (take_u64 cur) (\<lambda>(lo, cur).
         and_then (take_u64 cur) (\<lambda>(hi, cur). Inr (ReqGetBlockRange lo hi, cur)))
       else if t = rpc_byte RpcGetAccountInfo then
         and_then (take_u64 cur) (\<lambda>(i, cur). Inr (ReqGetAccountInfo i, cur))
       else Inl (InvalidData ''invalid rpc request''))"

text \<open>A filter's length is sent as one byte.\<close>

fun wf_request :: "request \<Rightarrow> bool" where
  "wf_request (ReqBroadcast t) \<longleftrightarrow> wf_tx t"
| "wf_request (ReqSetBlockFilter f) \<longleftrightarrow> card f < 256"
| "wf_request _ \<longleftrightarrow> True"

lemma unat_u8_bound: "unat (n :: u8) < 256"
  using unsigned_less [of n, where 'a = nat] by simp

lemma card_filter_bound: "length xs = unat (n :: u8) \<Longrightarrow> card (set xs) < 256"
  using card_length [of xs] unat_u8_bound [of n] by simp

interpretation request_codec: io_parser Request_serialize Request_deserialize wf_request
proof
  fix a rest
  assume wf: "wf_request a"
  show "Request_deserialize (Request_serialize a @ rest) = Inr (a, rest)"
  proof (cases a)
    case (ReqBroadcast t)
    then show ?thesis
      using wf by (simp add: Request_deserialize_def tx_codec.roundtrip ok_or_def)
  next
    case (ReqSetBlockFilter f)
    have u: "unat (of_nat (card f) :: u8) = length (sorted_list_of_set f)"
      using wf by (simp add: ReqSetBlockFilter unat_of_nat)
    have "set (sorted_list_of_set f) = f" by simp
    then show ?thesis
      using u64_codec.take_many_roundtrip [of "sorted_list_of_set f" rest]
      by (simp add: ReqSetBlockFilter Request_deserialize_def u)
  qed (simp_all add: Request_deserialize_def)
next
  fix cur a cur'
  assume "Request_deserialize cur = Inr (a, cur')"
  then show "wf_request a"
    by (auto simp: Request_deserialize_def fallible_iffs split: if_splits
        dest!: tx_codec.dec_wf u64_codec.take_many_wf
        intro: card_filter_bound)
qed

section \<open>Responses\<close>

datatype response = ResBroadcast | ResSetBlockFilter | ResClearBlockFilter | ResSubscribe | ResUnsubscribe
  | ResGetProperties chain_properties | ResGetBlock filtered_block | ResGetFullBlock block
  | ResGetBlockRange | ResGetAccountInfo account_info

fun Response_serialize :: "response \<Rightarrow> 'e fail + bytes" where
  "Response_serialize ResBroadcast = Inr (push_u8 (rpc_byte RpcBroadcast))"
| "Response_serialize ResSetBlockFilter = Inr (push_u8 (rpc_byte RpcSetBlockFilter))"
| "Response_serialize ResClearBlockFilter = Inr (push_u8 (rpc_byte RpcClearBlockFilter))"
| "Response_serialize ResSubscribe = Inr (push_u8 (rpc_byte RpcSubscribe))"
| "Response_serialize ResUnsubscribe = Inr (push_u8 (rpc_byte RpcUnsubscribe))"
| "Response_serialize (ResGetProperties props) =
     Inr (push_u8 (rpc_byte RpcGetProperties) @ push_u64 (pr_height props) @ TxVariant_serialize (pr_owner props) @
          push_asset (pr_network_fee props) @ push_asset (pr_token_supply props))"
| "Response_serialize (ResGetBlock (FilteredHeader h sp)) =
     Inr (push_u8 (rpc_byte RpcGetBlock) @ push_u8 0 @ BlockHeader_serialize h @ push_sig_pair sp)"
| "Response_serialize (ResGetBlock (FilteredBlock b)) =
     and_then (Block_serialize b) (\<lambda>bs. Inr (push_u8 (rpc_byte RpcGetBlock) @ push_u8 1 @ bs))"
| "Response_serialize (ResGetFullBlock b) =
     and_then (Block_serialize b) (\<lambda>bs. Inr (push_u8 (rpc_byte RpcGetFullBlock) @ bs))"
| "Response_serialize ResGetBlockRange = Inr (push_u8 (rpc_byte RpcGetBlockRange))"
| "Response_serialize (ResGetAccountInfo info) =
     Inr (push_u8 (rpc_byte RpcGetAccountInfo) @ Account_serialize (ai_account info) @
          push_asset (ai_net_fee info) @ push_asset (ai_account_fee info))"

definition is_owner :: "tx_variant \<Rightarrow> bool" where
  "is_owner t = (case t of TxV0 v \<Rightarrow> (case v of OwnerTx _ \<Rightarrow> True | _ \<Rightarrow> False))"

definition Response_deserialize :: "response reader" where
  "Response_deserialize cur =
     and_then (take_u8 cur) (\<lambda>(t, cur).
       if t = rpc_byte RpcBroadcast then Inr (ResBroadcast, cur)
       else if t = rpc_byte RpcSetBlockFilter then Inr (ResSetBlockFilter, cur)
       else if t = rpc_byte RpcClearBlockFilter then Inr (ResClearBlockFilter, cur)
       else if t = rpc_byte RpcSubscribe then Inr (ResSubscribe, cur)
       else if t = rpc_byte RpcUnsubscribe then Inr (ResUnsubscribe, cur)
       else if t = rpc_byte RpcGetProperties then
         and_then (take_u64 cur) (\<lambda>(h, cur).
         and_then (ok_or (TxVariant_deserialize cur) (InvalidData ''failed to deserialize owner tx'')) (\<lambda>(ow, cur).
         if \<not> is_owner ow then Inl (InvalidData ''expected owner tx'')
         else
           and_then (take_asset cur) (\<lambda>(nf, cur).
           and_then (take_asset cur) (\<lambda>(ts, cur).
             Inr (ResGetProperties \<lparr>pr_height = h, pr_owner = ow, pr_network_fee = nf, pr_token_supply = ts\<rparr>, cur)))))
       else if t = rpc_byte RpcGetBlock then
         and_then (take_u8 cur) (\<lambda>(ft, cur).
           if ft = 0 then
             and_then (ok_or (BlockHeader_deserialize cur) UnexpectedEof) (\<lambda>(h, cur).
             and_then (take_sig_pair cur) (\<lambda>(sp, cur). Inr (ResGetBlock (FilteredHeader h sp), cur)))
           else if ft = 1 then
             and_then (ok_or (Block_deserialize cur) UnexpectedEof) (\<lambda>(b, cur).
               Inr (ResGetBlock (FilteredBlock b), cur))
           else Inl (InvalidData ''invalid GetBlock response''))
       else if t = rpc_byte RpcGetFullBlock then
         and_then (ok_or (Block_deserialize cur) UnexpectedEof) (\<lambda>(b, cur). Inr (ResGetFullBlock b, cur))
       else if t = rpc_byte RpcGetBlockRange then Inr (ResGetBlockRange, cur)
       else if t = rpc_byte RpcGetAccountInfo then
         and_then (Account_deserialize cur) (\<lambda>(acc, cur).
         and_then (take_asset cur) (\<lambda>(nf, cur).
         and_then (take_asset cur) (\<lambda>(af, cur).
           Inr (ResGetAccountInfo \<lparr>ai_account = acc, ai_net_fee = nf, ai_account_fee = af\<rparr>, cur))))
       else Inl (InvalidData ''invalid rpc response''))"

fun wf_response :: "response \<Rightarrow> bool" where
  "wf_response (ResGetProperties props) \<longleftrightarrow> wf_tx (pr_owner props) \<and> is_owner (pr_owner props)"
| "wf_response (ResGetBlock (FilteredHeader h sp)) \<longleftrightarrow> wf_header h \<and> wf_sig_pair sp"
| "wf_response (ResGetBlock (FilteredBlock b)) \<longleftrightarrow> wf_block b"
| "wf_response (ResGetFullBlock b) \<longleftrightarrow> wf_block b"
| "wf_response (ResGetAccountInfo info) \<longleftrightarrow> wf_account (ai_account info)"
| "wf_response _ \<longleftrightarrow> True"

lemma wf_block_signed: "wf_block b \<Longrightarrow> Block_serialize b = Inr (block_bytes b)"
  by (auto simp: Block_serialize_eq wf_block_def split: option.splits)

lemma wf_response_serializes: "wf_response r \<Longrightarrow> \<exists>bs. Response_serialize r = Inr bs"
  by (cases r rule: wf_response.cases) (simp_all add: wf_block_signed)

definition response_bytes :: "response \<Rightarrow> bytes" where
  "response_bytes r = projr (Response_serialize r :: unit fail + bytes)"

lemma Response_serialize_eq: "wf_response r \<Longrightarrow> Response_serialize r = Inr (response_bytes r)"
  by (cases r rule: wf_response.cases) (simp_all add: wf_block_signed response_bytes_def)

interpretation response_codec: io_parser response_bytes Response_deserialize wf_response
proof
  fix a rest
  assume wf: "wf_response a"
  then show "Response_deserialize (response_bytes a @ rest) = Inr (a, rest)"
    by (cases a rule: wf_response.cases)
      (simp_all add: response_bytes_def Response_deserialize_def wf_block_signed ok_or_def
        tx_codec.roundtrip header_codec.roundtrip block_codec.roundtrip account_codec.io_roundtrip
        sig_pair_codec.io_roundtrip)
next
  fix cur a cur'
  assume "Response_deserialize cur = Inr (a, cur')"
  then show "wf_response a"
    by (auto simp: Response_deserialize_def fallible_iffs split: if_splits
        dest!: tx_codec.dec_wf header_codec.dec_wf block_codec.dec_wf account_codec.io_dec_wf sig_pair_codec.io_dec_wf)
qed

section \<open>Messages\<close>

datatype body = BodyError error_kind | BodyRequest request | BodyResponse response | BodyPing u64 | BodyPong u64

record msg =
  msg_id :: u32
  msg_body :: body

fun Body_serialize :: "body \<Rightarrow> 'e fail + bytes" where
  "Body_serialize (BodyError e) = Inr (push_u8 0x00 @ ErrorKind_serialize e)"
| "Body_serialize (BodyRequest req) = Inr (push_u8 0x01 @ Request_serialize req)"
| "Body_serialize (BodyResponse res) = and_then (Response_serialize res) (\<lambda>bs. Inr (push_u8 0x02 @ bs))"
| "Body_serialize (BodyPing n) = Inr (push_u8 0x03 @ push_u64 n)"
| "Body_serialize (BodyPong n) = Inr (push_u8 0x04 @ push_u64 n)"

definition Msg_serialize :: "msg \<Rightarrow> 'e fail + bytes" where
  "Msg_serialize self = and_then (Body_serialize (msg_body self)) (\<lambda>bs. Inr (push_u32 (msg_id self) @ bs))"

definition Msg_deserialize :: "msg reader" where
  "Msg_deserialize cur =
     and_then (take_u32 cur) (\<lambda>(i, cur).
     and_then (take_u8 cur) (\<lambda>(t, cur).
     and_then
       (if t = 0x00 then and_then (ErrorKind_deserialize cur) (\<lambda>(e, cur). Inr (BodyError e, cur))
        else if t = 0x01 then and_then (Request_deserialize cur) (\<lambda>(r, cur). Inr (BodyRequest r, cur))
        else if t = 0x02 then and_then (Response_deserialize cur) (\<lambda>(r, cur). Inr (BodyResponse r, cur))
        else if t = 0x03 then and_then (take_u64 cur) (\<lambda>(n, cur). Inr (BodyPing n, cur))
        else if t = 0x04 then and_then (take_u64 cur) (\<lambda>(n, cur). Inr (BodyPong n, cur))
        else Inl (InvalidData ''invalid msg type'')) (\<lambda>(b, cur).
       Inr (\<lparr>msg_id = i, msg_body = b\<rparr>, cur))))"

fun wf_body :: "body \<Rightarrow> bool" where
  "wf_body (BodyRequest r) \<longleftrightarrow> wf_request r"
| "wf_body (BodyResponse r) \<longleftrightarrow> wf_response r"
| "wf_body _ \<longleftrightarrow> True"

definition wf_msg :: "msg \<Rightarrow> bool" where "wf_msg m \<longleftrightarrow> wf_body (msg_body m)"

definition msg_bytes :: "msg \<Rightarrow> bytes" where
  "msg_bytes m = projr (Msg_serialize m :: unit fail + bytes)"

lemma Msg_serialize_eq: "wf_msg m \<Longrightarrow> Msg_serialize m = Inr (msg_bytes m)"
  by (cases "msg_body m") (simp_all add: Msg_serialize_def msg_bytes_def wf_msg_def Response_serialize_eq)

interpretation msg_codec: io_parser msg_bytes Msg_deserialize wf_msg
proof
  fix a rest
  assume wf: "wf_msg a"
  then show "Msg_deserialize (msg_bytes a @ rest) = Inr (a, rest)"
    by (cases a; cases "msg_body a")
      (simp_all add: msg_bytes_def Msg_serialize_def Msg_deserialize_def wf_msg_def Response_serialize_eq
        error_kind_codec.io_roundtrip request_codec.io_roundtrip response_codec.io_roundtrip)
next
  fix cur a cur'
  assume "Msg_deserialize cur = Inr (a, cur')"
  then show "wf_msg a"
    by (auto simp: Msg_deserialize_def wf_msg_def fallible_iffs split: if_splits
        dest!: request_codec.io_dec_wf response_codec.io_dec_wf)
qed

end
