(* ===== verification/Data_Properties.thy ===== *)
theory Data_Properties
  imports Sample Asset_Text Wif Net_Msg
begin

text \<open>
  The properties of the data the node exchanges and stores: amounts, their text, variable-length
  integers, transactions and their identifiers, permissions, blocks, addresses and messages.
\<close>

section \<open>Amounts\<close>

text \<open>C23: Checked addition and subtraction return a value exactly when it fits; multiplication and division
  return the product and the quotient at five decimals, truncated towards zero, with the range checks
  the code makes (a product has no lower check).\<close>

theorem asset_arithmetic:
  "(Asset_checked_add a b = Some c \<longleftrightarrow> amt c = amt a + amt b) \<and>
   (Asset_checked_sub a b = Some c \<longleftrightarrow> amt c = amt a - amt b) \<and>
   Asset_checked_mul a b =
     (let p = trunc_div (amt a * amt b) 100000 in
      Inr (if p > 2 ^ 63 - 1 then None else Some (Asset (word_of_int p)))) \<and>
   Asset_checked_div a b =
     Inr (if amt b \<noteq> 0 \<and> fits 64 (amt a * 100000)
          then map_option Asset (checked (trunc_div (amt a * 100000) (amt b))) else None)"
  by (intro conjI Asset_checked_add_iff Asset_checked_sub_iff Asset_checked_mul_eq) (simp add: Asset_checked_div_eq)

text \<open>The missing lower check of the product.\<close>

lemma asset_mul_wraps:
  "Asset_checked_mul (Asset (2 ^ 62)) (Asset (word_of_int (- 400000))) = Inr (Some (Asset 0)) \<and>
   Asset_checked_mul (Asset (2 ^ 62)) (Asset 400000) = Inr None"
  by (simp add: Asset_checked_mul_eq amt_def Let_def trunc_div_def)

text \<open>C24: The power computed by repeated squaring on big integers equals the plain power rescaled to five
  decimals, for every exponent, and is refused when the exponent's decimals or the result overflow.\<close>

theorem asset_pow:
  assumes "bigint_ok X"
  shows "Asset_checked_pow X a num =
     Inr (if 5 * unat num \<ge> 2 ^ 16 then None
          else map_option Asset (checked (pow_spec (amt a) (unat num))))"
  by (rule Asset_checked_pow_eq [OF assms])

theorem asset_pow_witness: "Asset_checked_pow sample (Asset 200000) 10 = Inr (Some (Asset 102400000))"
  using asset_pow [OF sample_bigint_ok, of "Asset 200000" 10]
  by (simp add: pow_spec_def amt_def trunc_div_def checked_def fits_def)

text \<open>C25: Parsing the printed text of an amount gives the amount back, except for amounts in -9999..-1000,
  whose text has a sign behind the point, and, with the longer symbol of the production build, amounts
  at or below -10^18, whose text is longer than the parser takes.\<close>

theorem asset_text_roundtrip:
  "Asset_from_str X (Asset_to_string X a) =
     (if - 9999 \<le> amt a \<and> amt a \<le> - 1000 then Inl asset_error_kind.InvalidAmount
      else if amt a \<le> - (10 ^ 18) \<and> \<not> testnet X then Inl StrTooLarge
      else Inr a)"
  unfolding amt_def
  using from_str_to_string_nonneg [of a X] from_str_to_string_neg [of a X]
  by (cases "sint (amount a) < 0") simp_all

section \<open>Serialization\<close>

text \<open>The variable-length integers.\<close>

lemma var_i64_roundtrip:
  "take_var_i64 (push_var_i64 v @ rest) = Inr (v, rest) \<and> length (push_var_i64 v) \<le> 10"
proof
  show "take_var_i64 (push_var_i64 v @ rest) = Inr (v, rest)"
    by (simp add: var_i64_codec.io_roundtrip)
  show "length (push_var_i64 v) \<le> 10"
    using length_push_var_loop [of 64 "zigzag_encode v"] by (auto simp: push_var_i64_def take_bit_word_eq_self)
qed

text \<open>C11: Every transaction the decoder returns is returned again, with the rest of the input untouched, from
  its own encoding.\<close>

theorem tx_roundtrip:
  assumes "TxVariant_deserialize cur = Some (t, cur')"
  shows "TxVariant_deserialize (TxVariant_serialize t @ rest) = Some (t, rest)"
  using assms by (rule tx_codec.reread)

definition sample_base :: tx where
  "sample_base = \<lparr>nonce = 7, expiry = 1000, fee = Asset 100, signature_pairs = []\<rparr>"

definition sample_transfer :: tx_variant where
  "sample_transfer = TxV0 (TransferTx
     \<lparr>tr_base = sample_base, tr_from = 1, call_fn = 0, tr_args = [1, 2, 3], tr_amount = Asset 50000, memo = [65]\<rparr>)"

theorem tx_roundtrip_witness:
  "TxVariant_deserialize (TxVariant_serialize sample_transfer @ [9]) = Some (sample_transfer, [9])"
proof (rule tx_roundtrip)
  show "TxVariant_deserialize (TxVariant_serialize sample_transfer @ []) = Some (sample_transfer, [])"
    by (rule tx_deserialize_serialize) (simp add: sample_transfer_def sample_base_def wf_body_def wf_sigs_def wf_bytes_def)
qed

text \<open>C15: The transaction id hashes the chain id and the transaction without its signatures, so changing
  signatures keeps the id, and the hashed bytes of two transactions agree only if they differ in nothing
  but signatures.\<close>

theorem txid_commits:
  assumes "sha256_ok X" "wf_tx t" "wf_tx u"
  shows "calc_txid X t = TxId (double_sha256 X (CHAIN_ID X @ serialize_without_sigs t)) \<and>
    calc_txid X (with_sigs t sigs) = calc_txid X t \<and>
    (CHAIN_ID X @ serialize_without_sigs t = CHAIN_ID X @ serialize_without_sigs u \<longleftrightarrow>
      with_sigs t [] = with_sigs u [])"
proof (intro conjI)
  obtain a b where ab: "t = TxV0 a" "u = TxV0 b" by (cases t; cases u)
  have "with_sigs t [] = with_sigs u []" if "serialize_without_sigs t = serialize_without_sigs u"
    using without_sigs_prefix_free [of a b "[]" "[]"] that assms(2,3) by (simp add: ab)
  moreover have "serialize_without_sigs t = serialize_without_sigs u" if "with_sigs t [] = with_sigs u []"
    using arg_cong [OF that, of serialize_without_sigs] by simp
  ultimately show "CHAIN_ID X @ serialize_without_sigs t = CHAIN_ID X @ serialize_without_sigs u \<longleftrightarrow>
      with_sigs t [] = with_sigs u []" by auto
qed (simp_all add: calc_txid_eq [OF assms(1)])

lemma wf_sample_transfer: "wf_tx sample_transfer"
  by (simp add: sample_transfer_def sample_base_def wf_body_def wf_sigs_def wf_bytes_def)

theorem txid_commits_witness:
  "calc_txid sample (with_sigs sample_transfer [\<lparr>pub_key = PublicKey [1], sp_signature = Signature [2]\<rparr>]) =
   calc_txid sample sample_transfer"
  using txid_commits [OF sample_sha256_ok wf_sample_transfer wf_sample_transfer, of "[\<lparr>pub_key = PublicKey [1], sp_signature = Signature [2]\<rparr>]"]
  by blast

text \<open>C12: Serializing a well-formed signed block does not panic and the decoder reads the same block back,
  leaving the bytes behind it.\<close>

theorem block_roundtrip:
  assumes "wf_block b"
  shows "Block_serialize b = Inr (block_bytes b) \<and> Block_deserialize (block_bytes b @ rest) = Some (b, rest)"
  using wf_block_signed [OF assms] block_codec.roundtrip [OF assms] by simp

definition sample_sig :: sig_pair where
  "sample_sig = \<lparr>pub_key = PublicKey (replicate 32 1), sp_signature = Signature (replicate 64 2)\<rparr>"

definition sample_block :: block where
  "sample_block = BlockV0 \<lparr>header = \<lparr>previous_hash = Digest (replicate 32 0), height = 3, timestamp = 9,
       receipt_root = Digest (replicate 32 4)\<rparr>, signer = Some sample_sig, rewards = Asset 100,
     receipts = [\<lparr>rc_tx = sample_transfer, rc_log = [LogTransfer 5 (Asset 50000)]\<rparr>]\<rparr>"

lemma wf_sample_block: "wf_block sample_block"
  using wf_sample_transfer
  by (simp add: sample_block_def wf_block_def block_accessors sample_sig_def wf_sig_pair_def wf_public_key_def
      wf_signature_def wf_digest_def size_constants wf_receipt_def)

theorem block_roundtrip_witness: "Block_deserialize (block_bytes sample_block @ [1]) = Some (sample_block, [1])"
  by (rule conjunct2 [OF block_roundtrip [OF wf_sample_block]])

text \<open>C13: Every well-formed protocol message, of all requests, responses, errors, pings and pongs, is read
  back from its encoding.\<close>

theorem msg_roundtrip:
  assumes "wf_msg m"
  shows "\<exists>bs. Msg_serialize m = (Inr bs :: 'e fail + bytes) \<and> Msg_deserialize (bs @ rest) = Inr (m, rest)"
  using Msg_serialize_eq [OF assms] msg_codec.io_roundtrip [OF assms] by blast

theorem msg_roundtrip_witness:
  "\<exists>bs. Msg_serialize \<lparr>msg_id = 4, msg_body = BodyResponse (ResGetBlock (FilteredBlock sample_block))\<rparr> = (Inr bs :: unit fail + bytes) \<and>
     Msg_deserialize (bs @ []) =
       Inr (\<lparr>msg_id = 4, msg_body = BodyResponse (ResGetBlock (FilteredBlock sample_block))\<rparr>, [])"
  by (rule msg_roundtrip) (simp add: wf_msg_def wf_sample_block)

section \<open>Permissions and addresses\<close>

text \<open>C22: The verification of signatures against permissions accepts exactly when the threshold is zero, or
  all signatures of listed keys are valid and at least threshold many, and otherwise gives the
  documented error of each case.\<close>

theorem permissions_verify:
  assumes "length sigs < 256"
  shows "Permissions_verify X p data sigs =
    (let m = matching p sigs; t = unat (threshold p) in
     if t = 0 then Inr ()
     else if length sigs < t then Inl InsufficientThreshold
     else if \<not> list_all (\<lambda>s. SigPair_verify X s data) m then Inl InvalidSig
     else if m = [] then Inl NoMatchingSigs
     else if length m < t then Inl InsufficientThreshold
     else Inr ())"
  by (rule Permissions_verify_eq [OF assms])

theorem permissions_verify_witness:
  "Permissions_verify sample \<lparr>threshold = 1, keys = [PublicKey [1]]\<rparr> [2]
     [\<lparr>pub_key = PublicKey [3], sp_signature = Signature []\<rparr>] = Inl NoMatchingSigs"
  by (subst permissions_verify) (simp_all add: matching_def Let_def)

text \<open>One valid signature of a listed key, repeated, satisfies any threshold the number of copies reaches.\<close>

lemma repeated_signature_meets_threshold:
  assumes "SigPair_verify X s data" "pub_key s \<in> set (keys p)" "n < 256" "unat (threshold p) \<le> n"
  shows "Permissions_verify X p data (replicate n s) = Inr ()"
  using assms by (subst Permissions_verify_eq) (auto simp: Let_def matching_def list_all_iff)

lemma repeated_signature_instance:
  "Permissions_verify sample \<lparr>threshold = 2, keys = [PublicKey (replicate 32 1), PublicKey (replicate 32 2)]\<rparr> [7]
     (replicate 2 \<lparr>pub_key = PublicKey (replicate 32 1), sp_signature = Signature (pad 64 (replicate 32 1 @ [7]))\<rparr>) = Inr ()"
  by (rule repeated_signature_meets_threshold) (simp_all add: SigPair_verify_def sample_def)

text \<open>C40: Account ids, public keys and private keys are read back from their checksummed text.\<close>

theorem wif_roundtrip:
  assumes "wif_libs X" "wf_public_key k" "wf_key_pair X kp"
  shows "AccountId_from_wif X (AccountId_to_wif X i) = Inr i \<and>
    PublicKey_from_wif X (PublicKey_to_wif X k) = Inr k \<and>
    PrivateKey_from_wif X (PrivateKey_to_wif X (kp_private kp)) = Inr kp"
  using account_wif.from_to [OF assms(1)] public_key_wif.from_to [OF assms(1,2)]
    private_key_wif.from_to [OF assms(1,3)] by simp

definition sample_key :: key_pair where
  "sample_key = KeyPair (PublicKey (replicate 32 1)) \<lparr>seed = replicate 32 1, key = replicate 64 1\<rparr>"

lemma wf_sample_key: "wf_key_pair sample sample_key"
  by (simp add: wf_key_pair_def sample_key_def sample_def SEEDBYTES_def replicate_add [symmetric])

theorem wif_roundtrip_witness:
  "PrivateKey_from_wif sample (PrivateKey_to_wif sample (kp_private sample_key)) = Inr sample_key"
proof -
  have "wif_libs sample" by (simp add: wif_libs_def sample_sha256_ok sample_bs58_ok)
  then show ?thesis
    using wif_roundtrip [OF _ _ wf_sample_key, of "PublicKey (replicate 32 1)" 0]
    by (simp add: wf_public_key_def PUBLICKEYBYTES_def)
qed

end
