(* ===== verification/Engine.thy ===== *)
theory Engine
  imports Chain_View
begin

text \<open>
  \<open>script/engine.rs\<close>: the interpreter of account scripts.  The state is the engine (program
  counter, stack, log, total and remaining amount) with the two locals of \<open>call_fn\<close>, the count
  of open \<open>if\<close>s and the flag \<open>ignore_else\<close>; an operation continues or breaks out of the loop.
  The loop is a total function: every operation leaves the counter at or behind where the decoder
  put it, and the decoder moves it forward inside the script.
\<close>

record 'db engine_data =
  ed_script :: script
  ed_tx_data :: tx_precomp_data
  ed_chain :: "'db blockchain"
  ed_receipts :: "receipt list"

record script_engine =
  eg_pos :: nat
  eg_stack :: stack
  eg_log :: "log_entry list"
  eg_total_amt :: asset
  eg_remaining_amt :: asset

record run_state =
  rs_engine :: script_engine
  rs_if_marker :: int
  rs_ignore_else :: bool

datatype flow = Continue run_state | Break run_state

definition ScriptEngine_new :: "'db engine_data \<Rightarrow> script_engine" where
  "ScriptEngine_new d =
     (let total = (case pd_tx (ed_tx_data d) of TxV0 t \<Rightarrow>
                     (case t of TransferTx t \<Rightarrow> tr_amount t | _ \<Rightarrow> Asset_default))
      in \<lparr>eg_pos = 0, eg_stack = [], eg_log = [], eg_total_amt = total, eg_remaining_amt = total\<rparr>)"

section \<open>Errors and the stack\<close>

definition eng_err :: "script_engine \<Rightarrow> eval_err_kind \<Rightarrow> eval_err fail + 'a" where
  "eng_err eg k = Inl (new_err (eg_pos eg) k)"

definition eng_pop :: "(stack \<Rightarrow> eval_err_kind + ('a \<times> stack)) \<Rightarrow> script_engine \<Rightarrow> eval_err fail + ('a \<times> script_engine)" where
  "eng_pop pop eg =
     and_then (map_err (new_err (eg_pos eg)) (pop (eg_stack eg))) (\<lambda>(x, st). Inr (x, eg\<lparr>eg_stack := st\<rparr>))"

definition eng_push :: "op_frame \<Rightarrow> script_engine \<Rightarrow> eval_err fail + script_engine" where
  "eng_push frame eg =
     and_then (map_err (new_err (eg_pos eg)) (stack_push (eg_stack eg) frame)) (\<lambda>st. Inr (eg\<lparr>eg_stack := st\<rparr>))"

section \<open>Operations\<close>

text \<open>The account funds go to must exist and not be destroyed.\<close>

definition check_receiver :: "'db ext \<Rightarrow> 'db engine_data \<Rightarrow> script_engine \<Rightarrow> account_id \<Rightarrow> eval_err fail + unit" where
  "check_receiver X d eg i =
     and_then (get_account X (ed_chain d) i (ed_receipts d)) (\<lambda>r.
       case r of
         Some acc \<Rightarrow> if destroyed acc then eng_err eg eval_err_kind.AccountNotFound else Inr ()
       | None \<Rightarrow> eng_err eg eval_err_kind.AccountNotFound)"

definition exec_transfer :: "'db ext \<Rightarrow> 'db engine_data \<Rightarrow> script_engine \<Rightarrow> eval_err fail + script_engine" where
  "exec_transfer X d eg =
     and_then (eng_pop pop_asset eg) (\<lambda>(a, eg).
     and_then (eng_pop pop_account_id eg) (\<lambda>(transfer_to, eg).
       if amt a < 0 \<or> a > eg_remaining_amt eg then eng_err eg eval_err_kind.InvalidAmount
       else and_then (check_receiver X d eg transfer_to) (\<lambda>_.
         case Asset_checked_sub (eg_remaining_amt eg) a of
           None \<Rightarrow> eng_err eg eval_err_kind.Arithmetic
         | Some rem \<Rightarrow> Inr (eg\<lparr>eg_remaining_amt := rem, eg_log := eg_log eg @ [LogTransfer transfer_to a]\<rparr>))))"

definition exec_destroy :: "'db ext \<Rightarrow> 'db engine_data \<Rightarrow> script_engine \<Rightarrow> eval_err fail + script_engine" where
  "exec_destroy X d eg =
     and_then (eng_pop pop_account_id eg) (\<lambda>(to_acc, eg).
       case pd_tx (ed_tx_data d) of
         TxV0 (TransferTx t) \<Rightarrow>
           if to_acc = tr_from t then eng_err eg Aborted
           else and_then (check_receiver X d eg to_acc) (\<lambda>_.
             eng_push FrameTrue (eg\<lparr>eg_log := eg_log eg @ [LogDestroy to_acc]\<rparr>))
       | _ \<Rightarrow> eng_err eg Aborted)"

text \<open>\<open>OpAdd\<close>, \<open>OpSub\<close>, \<open>OpMul\<close>, \<open>OpDiv\<close>: the second operand is on top.\<close>

definition exec_arith :: "(asset \<Rightarrow> asset \<Rightarrow> eval_err fail + asset option) \<Rightarrow> script_engine \<Rightarrow> eval_err fail + script_engine" where
  "exec_arith f eg =
     and_then (eng_pop pop_asset eg) (\<lambda>(b, eg).
     and_then (eng_pop pop_asset eg) (\<lambda>(a, eg).
     and_then (f a b) (\<lambda>r.
       case r of
         None \<Rightarrow> eng_err eg eval_err_kind.Arithmetic
       | Some res \<Rightarrow> eng_push (FrameAsset res) eg)))"

text \<open>\<open>consume_op_until\<close> with the closure of \<open>OpIf\<close> and \<open>OpElse\<close>: skip to the \<open>else\<close> or
  \<open>endif\<close> of the level \<open>req_if_marker\<close>.\<close>

lemma consume_op_measure:
  "consume_op scr pos = Inr (Some op, pos') \<Longrightarrow> length scr - pos' < length scr - pos"
  by (drule consume_op_pos) arith

function skip_until :: "script \<Rightarrow> int \<Rightarrow> nat \<Rightarrow> int \<Rightarrow> eval_err fail + (nat \<times> int)" where
  "skip_until scr req_if_marker pos if_marker =
     (case consume_op scr pos of
        Inl e \<Rightarrow> Inl e
      | Inr (None, pos) \<Rightarrow> Inl (new_err pos UnexpectedEOF)
      | Inr (Some op, pos) \<Rightarrow>
          if op = OpIf then skip_until scr req_if_marker pos (if_marker + 1)
          else if op = OpElse then
            if if_marker = req_if_marker then Inr (pos, if_marker)
            else skip_until scr req_if_marker pos if_marker
          else if op = OpEndIf then
            if if_marker = req_if_marker then Inr (pos, if_marker - 1)
            else skip_until scr req_if_marker pos (if_marker - 1)
          else skip_until scr req_if_marker pos if_marker)"
  by pat_completeness auto
termination
  by (relation "measure (\<lambda>(scr, req, pos, m). length scr - pos)")
    (auto intro: consume_op_measure)

declare skip_until.simps [simp del]

definition exec_skip :: "'db engine_data \<Rightarrow> run_state \<Rightarrow> eval_err fail + run_state" where
  "exec_skip d rs =
     and_then (skip_until (ed_script d) (rs_if_marker rs) (eg_pos (rs_engine rs)) (rs_if_marker rs))
       (\<lambda>(pos, m). Inr (rs\<lparr>rs_engine := (rs_engine rs)\<lparr>eg_pos := pos\<rparr>, rs_if_marker := m\<rparr>))"

definition exec_if :: "'db engine_data \<Rightarrow> run_state \<Rightarrow> eval_err fail + run_state" where
  "exec_if d rs =
     (let rs = rs\<lparr>rs_if_marker := rs_if_marker rs + 1\<rparr>
      in and_then (eng_pop pop_bool (rs_engine rs)) (\<lambda>(ignore_else, eg).
           let rs = rs\<lparr>rs_engine := eg, rs_ignore_else := ignore_else\<rparr>
           in if ignore_else then Inr rs else exec_skip d rs))"

definition exec_else :: "'db engine_data \<Rightarrow> run_state \<Rightarrow> eval_err fail + run_state" where
  "exec_else d rs = (if \<not> rs_ignore_else rs then Inr rs else exec_skip d rs)"

text \<open>The loop of \<open>check_acc_perms\<close>; \<open>None\<close> is its early \<open>Ok(false)\<close>.\<close>

primrec check_accs :: "'db ext \<Rightarrow> 'db engine_data \<Rightarrow> script_engine \<Rightarrow> account_id list \<Rightarrow> nat \<Rightarrow> eval_err fail + nat option" where
  "check_accs X d eg [] valid_threshold = Inr (Some valid_threshold)"
| "check_accs X d eg (i # accs) valid_threshold =
     and_then (get_account X (ed_chain d) i (ed_receipts d)) (\<lambda>r.
     and_then (ok_or r (new_err (eg_pos eg) eval_err_kind.AccountNotFound)) (\<lambda>acc.
       case Permissions_verify X (permissions acc) (txid_bytes (pd_txid (ed_tx_data d)))
              (tx_sigs (pd_tx (ed_tx_data d))) of
         Inr _ \<Rightarrow> check_accs X d eg accs (valid_threshold + 1)
       | Inl InsufficientThreshold \<Rightarrow> Inr None
       | Inl InvalidSig \<Rightarrow> Inr None
       | Inl NoMatchingSigs \<Rightarrow> check_accs X d eg accs valid_threshold))"

definition check_acc_perms :: "'db ext \<Rightarrow> 'db engine_data \<Rightarrow> script_engine \<Rightarrow> nat \<Rightarrow> account_id list \<Rightarrow> eval_err fail + bool" where
  "check_acc_perms X d eg req accs =
     (if req = 0 then Inr True
      else if req > length accs then Inr False
      else and_then (check_accs X d eg accs 0) (\<lambda>r.
        case r of None \<Rightarrow> Inr False | Some valid_threshold \<Rightarrow> Inr (valid_threshold \<ge> req)))"

primrec pop_accounts :: "nat \<Rightarrow> script_engine \<Rightarrow> eval_err fail + (account_id list \<times> script_engine)" where
  "pop_accounts 0 eg = Inr ([], eg)"
| "pop_accounts (Suc n) eg =
     and_then (eng_pop pop_account_id eg) (\<lambda>(acc, eg).
     and_then (pop_accounts n eg) (\<lambda>(accs, eg). Inr (acc # accs, eg)))"

definition exec_check_perms :: "'db ext \<Rightarrow> 'db engine_data \<Rightarrow> nat \<Rightarrow> nat \<Rightarrow> script_engine \<Rightarrow> eval_err fail + (bool \<times> script_engine)" where
  "exec_check_perms X d req acc_count eg =
     and_then (pop_accounts acc_count eg) (\<lambda>(accs, eg).
     and_then (check_acc_perms X d eg req accs) (\<lambda>success. Inr (success, eg)))"

definition push_success :: "bool \<times> script_engine \<Rightarrow> eval_err fail + script_engine" where
  "push_success r = (case r of (success, eg) \<Rightarrow> eng_push (frame_of_bool success) eg)"

definition fail_unless :: "bool \<times> script_engine \<Rightarrow> eval_err fail + script_engine" where
  "fail_unless r = (case r of (success, eg) \<Rightarrow> if success then Inr eg else eng_err eg ScriptRetFalse)"

definition exec_check_time :: "'db ext \<Rightarrow> 'db engine_data \<Rightarrow> u64 \<Rightarrow> script_engine \<Rightarrow> eval_err fail + (bool \<times> script_engine)" where
  "exec_check_time X d time eg =
     and_then (get_chain_head X (ed_chain d)) (\<lambda>block. Inr (Block_timestamp block \<ge> time, eg))"

text \<open>The match of the main loop.\<close>

definition with_engine :: "run_state \<Rightarrow> eval_err fail + script_engine \<Rightarrow> eval_err fail + flow" where
  "with_engine rs r = and_then r (\<lambda>eg. Inr (Continue (rs\<lparr>rs_engine := eg\<rparr>)))"

fun exec_op :: "'db ext \<Rightarrow> 'db engine_data \<Rightarrow> op_frame \<Rightarrow> run_state \<Rightarrow> eval_err fail + flow" where
  "exec_op X d (OpDefine _) rs = Inr (Break rs)"
| "exec_op X d OpTransfer rs = with_engine rs (exec_transfer X d (rs_engine rs))"
| "exec_op X d OpDestroy rs =
     and_then (exec_destroy X d (rs_engine rs)) (\<lambda>eg. Inr (Break (rs\<lparr>rs_engine := eg, rs_if_marker := 0\<rparr>)))"
| "exec_op X d FrameFalse rs = with_engine rs (eng_push FrameFalse (rs_engine rs))"
| "exec_op X d FrameTrue rs = with_engine rs (eng_push FrameTrue (rs_engine rs))"
| "exec_op X d (FrameAccountId i) rs = with_engine rs (eng_push (FrameAccountId i) (rs_engine rs))"
| "exec_op X d (FrameAsset a) rs = with_engine rs (eng_push (FrameAsset a) (rs_engine rs))"
| "exec_op X d OpLoadAmt rs =
     with_engine rs (eng_push (FrameAsset (eg_total_amt (rs_engine rs))) (rs_engine rs))"
| "exec_op X d OpLoadRemAmt rs =
     with_engine rs (eng_push (FrameAsset (eg_remaining_amt (rs_engine rs))) (rs_engine rs))"
| "exec_op X d OpAdd rs = with_engine rs (exec_arith (\<lambda>a b. Inr (Asset_checked_add a b)) (rs_engine rs))"
| "exec_op X d OpSub rs = with_engine rs (exec_arith (\<lambda>a b. Inr (Asset_checked_sub a b)) (rs_engine rs))"
| "exec_op X d OpMul rs = with_engine rs (exec_arith Asset_checked_mul (rs_engine rs))"
| "exec_op X d OpDiv rs = with_engine rs (exec_arith Asset_checked_div (rs_engine rs))"
| "exec_op X d OpNot rs =
     with_engine rs (and_then (eng_pop pop_bool (rs_engine rs)) (\<lambda>(b, eg). eng_push (frame_of_bool (\<not> b)) eg))"
| "exec_op X d OpIf rs = and_then (exec_if d rs) (\<lambda>rs. Inr (Continue rs))"
| "exec_op X d OpElse rs = and_then (exec_else d rs) (\<lambda>rs. Inr (Continue rs))"
| "exec_op X d OpEndIf rs = Inr (Continue (rs\<lparr>rs_if_marker := rs_if_marker rs - 1\<rparr>))"
| "exec_op X d OpReturn rs = Inr (Break (rs\<lparr>rs_if_marker := 0\<rparr>))"
| "exec_op X d OpAbort rs = eng_err (rs_engine rs) Aborted"
| "exec_op X d OpCheckPerms rs =
     with_engine rs (and_then (exec_check_perms X d 1 1 (rs_engine rs)) push_success)"
| "exec_op X d OpCheckPermsFastFail rs =
     with_engine rs (and_then (exec_check_perms X d 1 1 (rs_engine rs)) fail_unless)"
| "exec_op X d (OpCheckMultiPerms req acc_count) rs =
     with_engine rs (and_then (exec_check_perms X d (unat req) (unat acc_count) (rs_engine rs)) push_success)"
| "exec_op X d (OpCheckMultiPermsFastFail req acc_count) rs =
     with_engine rs (and_then (exec_check_perms X d (unat req) (unat acc_count) (rs_engine rs)) fail_unless)"
| "exec_op X d (OpCheckTime time) rs =
     with_engine rs (and_then (exec_check_time X d time (rs_engine rs)) push_success)"
| "exec_op X d (OpCheckTimeFastFail time) rs =
     with_engine rs (and_then (exec_check_time X d time (rs_engine rs)) fail_unless)"

section \<open>Running\<close>

text \<open>Operations never move the program counter backwards.\<close>

lemma skip_until_pos: "skip_until scr req pos m = Inr (pos', m') \<Longrightarrow> pos < pos' \<and> pos' \<le> length scr"
proof (induction scr req pos m rule: skip_until.induct)
  case (1 scr req pos m)
  from 1(5) obtain op p where c: "consume_op scr pos = Inr (Some op, p)"
    by (subst (asm) skip_until.simps) (auto split: sum.splits option.splits)
  note p = consume_op_pos [OF c]
  note IH = 1(1) [OF c refl refl] 1(2) [OF c refl refl] 1(3) [OF c refl refl] 1(4) [OF c refl refl]
  from 1(5) show ?case
    by (subst (asm) skip_until.simps)
      (use p IH in \<open>fastforce simp: c split: if_splits\<close>)
qed

lemma eng_push_Inr:
  "eng_push f eg = Inr eg' \<longleftrightarrow>
    length (eg_stack eg) < MAX_FRAME_STACK \<and> eg' = eg\<lparr>eg_stack := f # eg_stack eg\<rparr>"
  by (auto simp: eng_push_def stack_push_def fallible_iffs)

lemma eng_pop_Inr:
  "eng_pop pop eg = Inr (x, eg') \<longleftrightarrow>
    (\<exists>st. pop (eg_stack eg) = Inr (x, st) \<and> eg' = eg\<lparr>eg_stack := st\<rparr>)"
  by (auto simp: eng_pop_def fallible_iffs)

lemma eng_err_Inr [simp]: "eng_err eg k \<noteq> Inr x"
  by (simp add: eng_err_def)

text \<open>The part of the engine an operation other than a transfer or a destroy leaves alone.\<close>

definition same_money :: "script_engine \<Rightarrow> script_engine \<Rightarrow> bool" where
  "same_money a b \<longleftrightarrow> eg_log a = eg_log b \<and> eg_total_amt a = eg_total_amt b \<and>
     eg_remaining_amt a = eg_remaining_amt b"

lemma pop_accounts_same:
  "pop_accounts n eg = Inr (accs, eg') \<Longrightarrow> same_money eg eg' \<and> eg_pos eg' = eg_pos eg \<and> length accs = n"
  by (induction n arbitrary: eg accs) (fastforce simp: fallible_iffs eng_pop_Inr same_money_def)+

lemma exec_check_perms_same:
  "exec_check_perms X d n m eg = Inr (b, eg') \<Longrightarrow> same_money eg eg' \<and> eg_pos eg' = eg_pos eg"
  by (auto simp: exec_check_perms_def fallible_iffs dest: pop_accounts_same)

text \<open>The counter stays or moves forward inside the script.\<close>

definition moves :: "'db engine_data \<Rightarrow> script_engine \<Rightarrow> script_engine \<Rightarrow> bool" where
  "moves d a b \<longleftrightarrow> eg_pos a \<le> eg_pos b \<and>
     (eg_pos a \<le> length (ed_script d) \<longrightarrow> eg_pos b \<le> length (ed_script d))"

lemma moves_refl: "eg_pos a = eg_pos b \<Longrightarrow> moves d a b"
  by (simp add: moves_def)

lemma exec_skip_Inr:
  "exec_skip d rs = Inr rs' \<Longrightarrow>
    same_money (rs_engine rs) (rs_engine rs') \<and> moves d (rs_engine rs) (rs_engine rs') \<and>
    eg_stack (rs_engine rs') = eg_stack (rs_engine rs)"
  by (auto simp: exec_skip_def fallible_iffs same_money_def moves_def dest: skip_until_pos)

lemma exec_if_Inr:
  assumes "exec_if d rs = Inr rs'"
  shows "same_money (rs_engine rs) (rs_engine rs') \<and> moves d (rs_engine rs) (rs_engine rs')"
proof -
  obtain b eg where pop: "eng_pop pop_bool (rs_engine rs) = Inr (b, eg)"
    and k: "(if b then Inr (rs\<lparr>rs_if_marker := rs_if_marker rs + 1, rs_engine := eg, rs_ignore_else := b\<rparr>)
      else exec_skip d (rs\<lparr>rs_if_marker := rs_if_marker rs + 1, rs_engine := eg, rs_ignore_else := b\<rparr>)) = Inr rs'"
    using assms by (auto simp: exec_if_def Let_def and_then_Inr_iff)
  have "same_money (rs_engine rs) eg" "eg_pos eg = eg_pos (rs_engine rs)"
    using pop by (auto simp: eng_pop_Inr same_money_def)
  then show ?thesis
    using k by (cases b) (auto simp: same_money_def moves_def dest!: exec_skip_Inr)
qed

lemma exec_else_Inr:
  "exec_else d rs = Inr rs' \<Longrightarrow>
    same_money (rs_engine rs) (rs_engine rs') \<and> moves d (rs_engine rs) (rs_engine rs')"
  by (auto simp: exec_else_def same_money_def moves_def split: if_splits dest!: exec_skip_Inr)

fun flow_state :: "flow \<Rightarrow> run_state" where
  "flow_state (Continue rs) = rs"
| "flow_state (Break rs) = rs"

text \<open>What a transfer and a destroy do to the money, and what they have checked.\<close>

definition receivable :: "'db ext \<Rightarrow> 'db engine_data \<Rightarrow> account_id \<Rightarrow> bool" where
  "receivable X d i \<longleftrightarrow> (\<exists>acc. get_account X (ed_chain d) i (ed_receipts d) =
     (Inr (Some acc) :: eval_err fail + account option) \<and> \<not> destroyed acc)"

lemma check_receiver_Inr: "check_receiver X d eg i = Inr u \<longleftrightarrow> receivable X d i"
  by (auto simp: check_receiver_def receivable_def fallible_iffs split: option.splits if_splits)

lemma exec_transfer_Inr:
  assumes "exec_transfer X d eg = Inr eg'"
  obtains i a where "0 \<le> amt a" "amt a \<le> amt (eg_remaining_amt eg)" "receivable X d i"
    "eg_log eg' = eg_log eg @ [LogTransfer i a]" "eg_total_amt eg' = eg_total_amt eg"
    "amt (eg_remaining_amt eg') = amt (eg_remaining_amt eg) - amt a" "eg_pos eg' = eg_pos eg"
  using assms
  by (auto simp: exec_transfer_def fallible_iffs eng_pop_Inr check_receiver_Inr not_less asset_le_iff
      Asset_checked_sub_iff split: if_splits option.splits)

lemma exec_destroy_Inr:
  assumes "exec_destroy X d eg = Inr eg'"
  obtains i t where "pd_tx (ed_tx_data d) = TxV0 (TransferTx t)" "i \<noteq> tr_from t" "receivable X d i"
    "eg_log eg' = eg_log eg @ [LogDestroy i]" "eg_total_amt eg' = eg_total_amt eg"
    "eg_remaining_amt eg' = eg_remaining_amt eg" "eg_pos eg' = eg_pos eg"
proof -
  obtain v where v: "pd_tx (ed_tx_data d) = TxV0 v" by (cases "pd_tx (ed_tx_data d)")
  show ?thesis
    using assms that
    by (cases v) (auto simp: v exec_destroy_def fallible_iffs eng_pop_Inr eng_push_Inr
        check_receiver_Inr split: if_splits)
qed

lemma exec_arith_same: "exec_arith f eg = Inr eg' \<Longrightarrow> same_money eg eg' \<and> eg_pos eg' = eg_pos eg"
  by (auto simp: exec_arith_def fallible_iffs eng_pop_Inr eng_push_Inr same_money_def split: option.splits)

lemma push_success_same:
  "and_then (exec_check_perms X d n m eg) push_success = Inr eg' \<Longrightarrow> same_money eg eg' \<and> eg_pos eg' = eg_pos eg"
  by (auto simp: push_success_def fallible_iffs eng_push_Inr same_money_def dest!: exec_check_perms_same)

lemma fail_unless_same:
  "and_then (exec_check_perms X d n m eg) fail_unless = Inr eg' \<Longrightarrow> same_money eg eg' \<and> eg_pos eg' = eg_pos eg"
  by (auto simp: fail_unless_def fallible_iffs split: if_splits dest!: exec_check_perms_same)

lemma check_time_same:
  "and_then (exec_check_time X d t eg) push_success = Inr eg' \<Longrightarrow> same_money eg eg' \<and> eg_pos eg' = eg_pos eg"
  "and_then (exec_check_time X d t eg) fail_unless = Inr eg' \<Longrightarrow> same_money eg eg' \<and> eg_pos eg' = eg_pos eg"
  by (auto simp: exec_check_time_def push_success_def fail_unless_def fallible_iffs eng_push_Inr
      same_money_def split: if_splits)

lemma eng_push_same: "eng_push f eg = Inr eg' \<Longrightarrow> same_money eg eg' \<and> eg_pos eg' = eg_pos eg"
  by (simp add: eng_push_Inr same_money_def)

lemma not_same: "and_then (eng_pop pop_bool eg) (\<lambda>(b, eg). eng_push (frame_of_bool (\<not> b)) eg) = Inr eg' \<Longrightarrow>
    same_money eg eg' \<and> eg_pos eg' = eg_pos eg"
  by (auto simp: fallible_iffs eng_pop_Inr eng_push_Inr same_money_def)

lemmas same_rules =
  exec_arith_same push_success_same fail_unless_same check_time_same eng_push_same not_same

lemma with_engine_Inr: "with_engine rs r = Inr fl \<longleftrightarrow> (\<exists>eg. r = Inr eg \<and> fl = Continue (rs\<lparr>rs_engine := eg\<rparr>))"
  by (auto simp: with_engine_def fallible_iffs)

text \<open>Every other operation leaves the money alone.\<close>

lemma exec_op_other:
  assumes "exec_op X d op rs = Inr fl" "op \<noteq> OpTransfer" "op \<noteq> OpDestroy"
  shows "same_money (rs_engine rs) (rs_engine (flow_state fl)) \<and>
    moves d (rs_engine rs) (rs_engine (flow_state fl))"
  using assms
  by (cases op) (auto simp: with_engine_Inr and_then_Inr_iff [of "exec_if d rs"]
      and_then_Inr_iff [of "exec_else d rs"] same_money_def [of "rs_engine rs" "rs_engine rs"] moves_refl
      dest!: same_rules exec_if_Inr exec_else_Inr)

lemma exec_op_moves:
  assumes "exec_op X d op rs = Inr fl"
  shows "moves d (rs_engine rs) (rs_engine (flow_state fl))"
proof (cases "op = OpTransfer \<or> op = OpDestroy")
  case True
  then show ?thesis
    using assms
    by (auto simp: with_engine_Inr fallible_iffs moves_refl elim!: exec_transfer_Inr exec_destroy_Inr)
qed (use exec_op_other [OF assms] in simp)

text \<open>The main loop.\<close>

definition set_pos :: "run_state \<Rightarrow> nat \<Rightarrow> run_state" where
  "set_pos rs pos = rs\<lparr>rs_engine := (rs_engine rs)\<lparr>eg_pos := pos\<rparr>\<rparr>"

lemma set_pos_simps [simp]:
  "eg_pos (rs_engine (set_pos rs pos)) = pos"
  "eg_log (rs_engine (set_pos rs pos)) = eg_log (rs_engine rs)"
  "eg_stack (rs_engine (set_pos rs pos)) = eg_stack (rs_engine rs)"
  "eg_total_amt (rs_engine (set_pos rs pos)) = eg_total_amt (rs_engine rs)"
  "eg_remaining_amt (rs_engine (set_pos rs pos)) = eg_remaining_amt (rs_engine rs)"
  "rs_if_marker (set_pos rs pos) = rs_if_marker rs"
  "rs_ignore_else (set_pos rs pos) = rs_ignore_else rs"
  by (simp_all add: set_pos_def)

function run_loop :: "'db ext \<Rightarrow> 'db engine_data \<Rightarrow> run_state \<Rightarrow> eval_err fail + run_state" where
  "run_loop X d rs =
     (case consume_op (ed_script d) (eg_pos (rs_engine rs)) of
        Inl e \<Rightarrow> Inl e
      | Inr (None, pos) \<Rightarrow> Inr (set_pos rs pos)
      | Inr (Some op, pos) \<Rightarrow>
          (case exec_op X d op (set_pos rs pos) of
             Inl e \<Rightarrow> Inl e
           | Inr (Break rs) \<Rightarrow> Inr rs
           | Inr (Continue rs) \<Rightarrow> run_loop X d rs))"
  by pat_completeness auto
termination
proof (relation "measure (\<lambda>(X, d, rs). length (ed_script d) - eg_pos (rs_engine rs))", goal_cases)
  case (2 X d rs r oper pos op fl rs')
  then have "length (ed_script d) - pos < length (ed_script d) - eg_pos (rs_engine rs)"
    by (auto intro: consume_op_measure)
  moreover have "pos \<le> eg_pos (rs_engine rs')"
    using 2 exec_op_moves [of X d op "set_pos rs pos" "Continue rs'"] by (simp add: moves_def)
  ultimately show ?case by simp
qed simp

declare run_loop.simps [simp del]

section \<open>Calling a function of the script\<close>

text \<open>The arguments are read from the transaction and pushed in the order of the definition.\<close>

primrec load_args :: "arg list \<Rightarrow> bytes \<Rightarrow> script_engine \<Rightarrow> eval_err fail + script_engine" where
  "load_args [] bin_args eg = Inr eg"
| "load_args (x # xs) bin_args eg =
     (case x of
        ArgAccountId \<Rightarrow>
          and_then (map_err (\<lambda>_. new_err (eg_pos eg) ArgDeserialization) (take_u64 bin_args)) (\<lambda>(i, bin_args).
          and_then (eng_push (FrameAccountId i) eg) (load_args xs bin_args))
      | ArgAsset \<Rightarrow>
          and_then (map_err (\<lambda>_. new_err (eg_pos eg) ArgDeserialization) (take_asset bin_args)) (\<lambda>(a, bin_args).
          and_then (eng_push (FrameAsset a) eg) (load_args xs bin_args)))"

definition tx_args :: "tx_variant \<Rightarrow> bytes" where
  "tx_args t = (case t of TxV0 t \<Rightarrow> (case t of TransferTx t \<Rightarrow> tr_args t | _ \<Rightarrow> []))"

definition enter_fn :: "'db engine_data \<Rightarrow> script_engine \<Rightarrow> u8 \<Rightarrow> eval_err fail + script_engine" where
  "enter_fn d eg fn_id =
     and_then (map_err (\<lambda>_. new_err (eg_pos eg) HeaderReadErr) (get_fn_ptr (ed_script d) fn_id)) (\<lambda>r.
     and_then (ok_or r (new_err (eg_pos eg) UnknownFn)) (\<lambda>ptr.
     and_then (consume_op (ed_script d) (unat ptr)) (\<lambda>(op, pos).
       let eg = eg\<lparr>eg_pos := pos\<rparr>
       in case op of
            Some (OpDefine args) \<Rightarrow> load_args args (tx_args (pd_tx (ed_tx_data d))) eg
          | _ \<Rightarrow> eng_err eg InvalidEntryPoint)))"

text \<open>After the loop: the result on the stack, and the refund of what remains.\<close>

definition finish :: "'db engine_data \<Rightarrow> run_state \<Rightarrow> eval_err fail + log_entry list" where
  "finish d rs =
     (let eg = rs_engine rs
      in if rs_if_marker rs > 0 then eng_err eg UnexpectedEOF
         else and_then (eng_pop pop_bool eg) (\<lambda>(success, eg).
           if success then
             let log = eg_log eg
             in if amt (eg_remaining_amt eg) > 0 then
                  (case pd_tx (ed_tx_data d) of TxV0 t \<Rightarrow>
                     (case t of
                        TransferTx t \<Rightarrow>
                          (case (if log = [] then None else Some (last log)) of
                             Some (LogDestroy to_acc) \<Rightarrow> Inr (log @ [LogTransfer to_acc (eg_remaining_amt eg)])
                           | _ \<Rightarrow> Inr (log @ [LogTransfer (tr_from t) (eg_remaining_amt eg)]))
                      | _ \<Rightarrow> eng_err eg eval_err_kind.InvalidAmount))
                else Inr log
           else eng_err eg ScriptRetFalse))"

definition call_function :: "'db ext \<Rightarrow> 'db engine_data \<Rightarrow> script_engine \<Rightarrow> u8 \<Rightarrow> eval_err fail + log_entry list" where
  "call_function X d eg fn_id =
     and_then (enter_fn d eg fn_id) (\<lambda>eg.
     and_then (run_loop X d \<lparr>rs_engine = eg, rs_if_marker = 0, rs_ignore_else = False\<rparr>) (finish d))"

definition eval :: "'db ext \<Rightarrow> 'db engine_data \<Rightarrow> eval_err fail + log_entry list" where
  "eval X d =
     (let fn_id = (case pd_tx (ed_tx_data d) of TxV0 t \<Rightarrow> (case t of TransferTx t \<Rightarrow> call_fn t | _ \<Rightarrow> 0))
      in call_function X d (ScriptEngine_new d) fn_id)"

section \<open>Where the money goes\<close>

definition entry_amt :: "log_entry \<Rightarrow> int" where
  "entry_amt e = (case e of LogTransfer _ a \<Rightarrow> amt a | LogDestroy _ \<Rightarrow> 0)"

definition log_amt :: "log_entry list \<Rightarrow> int" where
  "log_amt log = sum_list (map entry_amt log)"

text \<open>The invariant of the loop: what left and what remains make the total, nothing is negative,
  every entry's receiver was checked, and there is no destroy among the entries.\<close>

definition sound_entry :: "'db ext \<Rightarrow> 'db engine_data \<Rightarrow> log_entry \<Rightarrow> bool" where
  "sound_entry X d e = (case e of LogTransfer i a \<Rightarrow> 0 \<le> amt a \<and> receivable X d i | LogDestroy i \<Rightarrow> False)"

definition money_ok :: "'db ext \<Rightarrow> 'db engine_data \<Rightarrow> script_engine \<Rightarrow> bool" where
  "money_ok X d eg \<longleftrightarrow> 0 \<le> amt (eg_remaining_amt eg) \<and>
     log_amt (eg_log eg) + amt (eg_remaining_amt eg) = amt (eg_total_amt eg) \<and>
     list_all (sound_entry X d) (eg_log eg)"

text \<open>The same with a final destroy.\<close>

definition money_done :: "'db ext \<Rightarrow> 'db engine_data \<Rightarrow> script_engine \<Rightarrow> bool" where
  "money_done X d eg \<longleftrightarrow> money_ok X d eg \<or>
     (\<exists>i t log. eg_log eg = log @ [LogDestroy i] \<and> money_ok X d (eg\<lparr>eg_log := log\<rparr>) \<and>
        pd_tx (ed_tx_data d) = TxV0 (TransferTx t) \<and> i \<noteq> tr_from t \<and> receivable X d i)"

lemma money_ok_same: "same_money eg eg' \<Longrightarrow> money_ok X d eg' = money_ok X d eg"
  by (simp add: same_money_def money_ok_def)

lemma log_amt_simps [simp]:
  "log_amt [] = 0" "log_amt (e # es) = entry_amt e + log_amt es" "log_amt (as @ bs) = log_amt as + log_amt bs"
  by (simp_all add: log_amt_def)

lemma entry_amt_simps [simp]: "entry_amt (LogTransfer i a) = amt a" "entry_amt (LogDestroy i) = 0"
  by (simp_all add: entry_amt_def)

lemma exec_op_money:
  assumes "exec_op X d op rs = Inr fl" "money_ok X d (rs_engine rs)"
  shows "case fl of Continue rs' \<Rightarrow> money_ok X d (rs_engine rs') \<and> eg_total_amt (rs_engine rs') = eg_total_amt (rs_engine rs)
    | Break rs' \<Rightarrow> money_done X d (rs_engine rs') \<and> eg_total_amt (rs_engine rs') = eg_total_amt (rs_engine rs)"
proof -
  consider "op = OpTransfer" | "op = OpDestroy" | "op \<noteq> OpTransfer" "op \<noteq> OpDestroy" by blast
  then show ?thesis
  proof cases
    case 1
    then obtain eg where "exec_transfer X d (rs_engine rs) = Inr eg" "fl = Continue (rs\<lparr>rs_engine := eg\<rparr>)"
      using assms(1) by (auto simp: with_engine_Inr)
    then show ?thesis
      using assms(2) by (auto simp: money_ok_def sound_entry_def elim!: exec_transfer_Inr)
  next
    case 2
    then obtain eg where eg: "exec_destroy X d (rs_engine rs) = Inr eg"
      "fl = Break (rs\<lparr>rs_engine := eg, rs_if_marker := 0\<rparr>)"
      using assms(1) by (auto simp: fallible_iffs)
    from eg(1) obtain i t where "pd_tx (ed_tx_data d) = TxV0 (TransferTx t)" "i \<noteq> tr_from t"
      "receivable X d i" "eg_log eg = eg_log (rs_engine rs) @ [LogDestroy i]"
      "eg_total_amt eg = eg_total_amt (rs_engine rs)" "eg_remaining_amt eg = eg_remaining_amt (rs_engine rs)"
      by (rule exec_destroy_Inr)
    then show ?thesis
      using assms(2) eg(2) by (simp add: money_done_def money_ok_def)
  next
    case 3
    note s = exec_op_other [OF assms(1) 3]
    then have "money_ok X d (rs_engine (flow_state fl))"
      using money_ok_same assms(2) by blast
    then show ?thesis
      using s by (cases fl) (simp_all add: money_done_def same_money_def)
  qed
qed

lemma run_loop_money:
  "run_loop X d rs = Inr rs' \<Longrightarrow> money_ok X d (rs_engine rs) \<Longrightarrow>
    money_done X d (rs_engine rs') \<and> eg_total_amt (rs_engine rs') = eg_total_amt (rs_engine rs)"
proof (induction X d rs rule: run_loop.induct)
  case (1 X d rs)
  have keep: "money_ok X d (rs_engine (set_pos rs pos))" for pos
    using 1(3) by (simp add: money_ok_def)
  from 1(2) consider (stop) "rs' = set_pos rs (eg_pos (rs_engine rs))"
    | (step) op pos fl where "consume_op (ed_script d) (eg_pos (rs_engine rs)) = Inr (Some op, pos)"
        "exec_op X d op (set_pos rs pos) = Inr fl"
        "(case fl of Break rs'' \<Rightarrow> rs' = rs'' | Continue rs'' \<Rightarrow> run_loop X d rs'' = Inr rs')"
    by (subst (asm) run_loop.simps) (auto simp: consume_op_None split: sum.splits option.splits flow.splits)
  then show ?case
  proof cases
    case stop
    then show ?thesis using keep by (simp add: money_done_def)
  next
    case step
    note m = exec_op_money [OF step(2) keep]
    show ?thesis
    proof (cases fl)
      case (Continue rs'')
      then show ?thesis
        using m step(3) 1(1) [OF step(1) refl refl step(2)] by simp
    qed (use m step(3) in simp)
  qed
qed

lemma load_args_same:
  "load_args xs cur eg = Inr eg' \<Longrightarrow> same_money eg eg' \<and> eg_pos eg' = eg_pos eg"
  by (induction xs arbitrary: cur eg)
    (fastforce simp: fallible_iffs eng_push_Inr same_money_def split: arg.splits)+

lemma enter_fn_Inr:
  assumes "enter_fn d eg fn_id = Inr eg'"
  obtains ptr pos args where "get_fn_ptr (ed_script d) fn_id = Inr (Some ptr)"
    "consume_op (ed_script d) (unat ptr) = Inr (Some (OpDefine args), pos)"
    "load_args args (tx_args (pd_tx (ed_tx_data d))) (eg\<lparr>eg_pos := pos\<rparr>) = Inr eg'"
proof -
  obtain ptr op pos where o: "get_fn_ptr (ed_script d) fn_id = Inr (Some ptr)"
    "consume_op (ed_script d) (unat ptr) = Inr (op, pos)"
    "(case op of Some (OpDefine args) \<Rightarrow>
        load_args args (tx_args (pd_tx (ed_tx_data d))) (eg\<lparr>eg_pos := pos\<rparr>)
      | _ \<Rightarrow> eng_err (eg\<lparr>eg_pos := pos\<rparr>) InvalidEntryPoint) = Inr eg'"
    using assms by (auto simp: enter_fn_def Let_def fallible_iffs)
  show ?thesis
  proof (cases op)
    case (Some p)
    then show ?thesis using o that by (cases p) simp_all
  qed (use o in simp)
qed

lemma enter_fn_same: "enter_fn d eg fn_id = Inr eg' \<Longrightarrow> same_money eg eg'"
  by (elim enter_fn_Inr, drule load_args_same) (simp add: same_money_def)

text \<open>The log of a successful transfer.  A destroy is last, or last but one with the refund to the
  same account behind it.\<close>

definition sound_log :: "'db ext \<Rightarrow> 'db engine_data \<Rightarrow> transfer_tx \<Rightarrow> log_entry list \<Rightarrow> bool" where
  "sound_log X d t log \<longleftrightarrow>
     (\<exists>pre tail. log = pre @ tail \<and> list_all (sound_entry X d) pre \<and>
       (tail = [] \<or> (\<exists>a. 0 < amt a \<and> tail = [LogTransfer (tr_from t) a]) \<or>
        (\<exists>i. i \<noteq> tr_from t \<and> receivable X d i \<and>
          (tail = [LogDestroy i] \<or> (\<exists>a. 0 < amt a \<and> tail = [LogDestroy i, LogTransfer i a])))))"

definition refund :: "transfer_tx \<Rightarrow> script_engine \<Rightarrow> log_entry list" where
  "refund t eg =
     (if 0 < amt (eg_remaining_amt eg) then
        [LogTransfer (if eg_log eg = [] then tr_from t
                      else case last (eg_log eg) of LogDestroy i \<Rightarrow> i | LogTransfer _ _ \<Rightarrow> tr_from t)
           (eg_remaining_amt eg)]
      else [])"

lemma finish_Inr:
  assumes "finish d rs = Inr log" "pd_tx (ed_tx_data d) = TxV0 (TransferTx t)"
  shows "log = eg_log (rs_engine rs) @ refund t (rs_engine rs)"
proof -
  let ?eg = "rs_engine rs"
  obtain st where "eng_pop pop_bool ?eg = Inr (True, ?eg\<lparr>eg_stack := st\<rparr>)" "\<not> 0 < rs_if_marker rs"
    using assms(1) by (auto simp: finish_def Let_def fallible_iffs eng_pop_Inr split: if_splits)
  then show ?thesis
    using assms by (cases "last (eg_log ?eg)") (auto simp: finish_def refund_def Let_def)
qed

lemma refund_money_ok:
  assumes "money_ok X d eg"
  shows "refund t eg = (if 0 < amt (eg_remaining_amt eg) then [LogTransfer (tr_from t) (eg_remaining_amt eg)] else [])"
proof (cases "eg_log eg = []")
  case False
  then have "sound_entry X d (last (eg_log eg))"
    using assms by (simp add: money_ok_def list_all_iff)
  then show ?thesis
    by (simp add: refund_def sound_entry_def split: log_entry.splits)
qed (simp add: refund_def)

lemma finish_transfer:
  assumes "finish d rs = Inr log" "pd_tx (ed_tx_data d) = TxV0 (TransferTx t)"
    and "money_done X d (rs_engine rs)"
  shows "log_amt log = amt (eg_total_amt (rs_engine rs)) \<and> sound_log X d t log"
proof -
  define eg where "eg = rs_engine rs"
  have log: "log = eg_log eg @ refund t eg"
    using finish_Inr [OF assms(1,2)] by (simp add: eg_def)
  consider "money_ok X d eg"
    | i pre where "eg_log eg = pre @ [LogDestroy i]" "money_ok X d (eg\<lparr>eg_log := pre\<rparr>)" "i \<noteq> tr_from t"
      "receivable X d i"
    using assms(2,3) by (auto simp: money_done_def eg_def)
  then have "log_amt log = amt (eg_total_amt eg) \<and> sound_log X d t log"
  proof cases
    case 1
    then have "sound_log X d t log"
      unfolding sound_log_def log refund_money_ok [OF 1]
      by (intro exI [of _ "eg_log eg"] exI [of _ "if 0 < amt (eg_remaining_amt eg)
            then [LogTransfer (tr_from t) (eg_remaining_amt eg)] else []"]) (simp add: money_ok_def)
    then show ?thesis
      using 1 unfolding log refund_money_ok [OF 1] by (auto simp: money_ok_def)
  next
    case (2 i pre)
    have r: "refund t eg = (if 0 < amt (eg_remaining_amt eg) then [LogTransfer i (eg_remaining_amt eg)] else [])"
      by (simp add: refund_def 2(1))
    have "sound_log X d t log"
      unfolding sound_log_def log r 2(1) append_assoc
      using 2 by (intro exI [of _ pre] exI [of _ "[LogDestroy i] @ (if 0 < amt (eg_remaining_amt eg)
            then [LogTransfer i (eg_remaining_amt eg)] else [])"]) (auto simp: money_ok_def)
    then show ?thesis
      using 2(2) unfolding log r 2(1) by (auto simp: money_ok_def)
  qed
  then show ?thesis by (simp add: eg_def)
qed

lemma eval_transfer:
  assumes "eval X d = Inr log" "pd_tx (ed_tx_data d) = TxV0 (TransferTx t)" "0 \<le> amt (tr_amount t)"
  shows "log_amt log = amt (tr_amount t) \<and> sound_log X d t log"
proof -
  let ?eg = "ScriptEngine_new d"
  obtain eg rs where e: "enter_fn d ?eg (call_fn t) = Inr eg"
    "run_loop X d \<lparr>rs_engine = eg, rs_if_marker = 0, rs_ignore_else = False\<rparr> = Inr rs"
    "finish d rs = Inr log"
    using assms(1,2) by (auto simp: eval_def call_function_def Let_def fallible_iffs)
  have "eg_log ?eg = []" "eg_total_amt ?eg = tr_amount t" "eg_remaining_amt ?eg = tr_amount t"
    using assms(2) by (simp_all add: ScriptEngine_new_def Let_def)
  then have "money_ok X d eg" "eg_total_amt eg = tr_amount t"
    using enter_fn_same [OF e(1)] assms(3) by (auto simp: same_money_def money_ok_def)
  then show ?thesis
    using run_loop_money [OF e(2)] finish_transfer [OF e(3) assms(2), of X] by simp
qed

section \<open>Panics\<close>

text \<open>What the engine reads from the chain does not panic.\<close>

definition chain_readable :: "'db ext \<Rightarrow> 'db engine_data \<Rightarrow> bool" where
  "chain_readable X d \<longleftrightarrow>
     (\<forall>i. get_account X (ed_chain d) i (ed_receipts d) \<noteq> (Inl Panic :: eval_err fail + account option)) \<and>
     get_chain_head X (ed_chain d) \<noteq> (Inl Panic :: eval_err fail + block)"

lemma no_panic_basics [simp]:
  "eng_err eg k \<noteq> Inl Panic"
  "eng_push f eg \<noteq> Inl Panic"
  "eng_pop pop eg \<noteq> Inl Panic"
  by (auto simp: eng_err_def new_err_def eng_push_def eng_pop_def and_then_Inl_iff map_err_def split: sum.splits)

lemma skip_until_no_panic: "pos \<le> length scr \<Longrightarrow> skip_until scr req pos m \<noteq> Inl Panic"
proof (induction scr req pos m rule: skip_until.induct)
  case (1 scr req pos m)
  have np: "consume_op scr pos \<noteq> Inl Panic"
    using consume_op_Panic [of scr pos] 1(5) by auto
  show ?case
  proof (cases "\<exists>op p. consume_op scr pos = Inr (Some op, p)")
    case True
    then obtain op p where c: "consume_op scr pos = Inr (Some op, p)" by blast
    have "p \<le> length scr" using consume_op_pos [OF c] by simp
    then show ?thesis
      using 1(1) [OF c refl refl] 1(2) [OF c refl refl] 1(3) [OF c refl refl] 1(4) [OF c refl refl]
      by (subst skip_until.simps) (simp add: c)
  next
    case False
    then show ?thesis
      using np by (subst skip_until.simps) (auto simp: new_err_def split: sum.splits option.splits)
  qed
qed

lemma check_receiver_no_panic: "chain_readable X d \<Longrightarrow> check_receiver X d eg i \<noteq> Inl Panic"
  by (auto simp: check_receiver_def chain_readable_def and_then_Inl_iff split: option.splits)

lemma check_accs_no_panic: "chain_readable X d \<Longrightarrow> check_accs X d eg accs n \<noteq> Inl Panic"
  by (induction accs arbitrary: n)
    (auto simp: chain_readable_def and_then_Inl_iff ok_or_def new_err_def
      split: option.splits sum.splits perms_sig_verify_err.splits)

lemma pop_accounts_no_panic [simp]: "pop_accounts n eg \<noteq> Inl Panic"
  by (induction n arbitrary: eg) (auto simp: and_then_Inl_iff)

lemma exec_check_perms_no_panic: "chain_readable X d \<Longrightarrow> exec_check_perms X d n m eg \<noteq> Inl Panic"
  by (auto simp: exec_check_perms_def check_acc_perms_def and_then_Inl_iff check_accs_no_panic
      split: option.splits if_splits)

lemma exec_check_time_no_panic: "chain_readable X d \<Longrightarrow> exec_check_time X d t eg \<noteq> Inl Panic"
  by (auto simp: exec_check_time_def chain_readable_def and_then_Inl_iff)

lemma push_fail_no_panic [simp]: "push_success r \<noteq> Inl Panic" "fail_unless r \<noteq> Inl Panic"
  by (auto simp: push_success_def fail_unless_def split: prod.splits if_splits)

lemma exec_arith_no_panic:
  "(\<And>a b. f a b \<noteq> Inl Panic) \<Longrightarrow> exec_arith f eg \<noteq> Inl Panic"
  by (auto simp: exec_arith_def and_then_Inl_iff split: option.splits)

lemma mul_div_no_panic [simp]: "Asset_checked_mul a b \<noteq> Inl Panic" "Asset_checked_div a b \<noteq> Inl Panic"
  by (simp_all add: Asset_checked_mul_eq Asset_checked_div_eq Let_def)

lemma exec_transfer_no_panic: "chain_readable X d \<Longrightarrow> exec_transfer X d eg \<noteq> Inl Panic"
  by (auto simp: exec_transfer_def and_then_Inl_iff check_receiver_no_panic split: if_splits option.splits)

lemma exec_destroy_no_panic: "chain_readable X d \<Longrightarrow> exec_destroy X d eg \<noteq> Inl Panic"
  by (auto simp: exec_destroy_def and_then_Inl_iff check_receiver_no_panic
      split: if_splits tx_variant.splits tx_variant_v0.splits)

lemma exec_skip_no_panic:
  "eg_pos (rs_engine rs) \<le> length (ed_script d) \<Longrightarrow> exec_skip d rs \<noteq> Inl Panic"
  by (auto simp: exec_skip_def and_then_Inl_iff skip_until_no_panic)

lemma exec_if_no_panic:
  "eg_pos (rs_engine rs) \<le> length (ed_script d) \<Longrightarrow> exec_if d rs \<noteq> Inl Panic"
  by (auto simp: exec_if_def Let_def and_then_Inl_iff eng_pop_Inr exec_skip_no_panic split: if_splits)

lemma exec_op_no_panic:
  assumes "chain_readable X d" "eg_pos (rs_engine rs) \<le> length (ed_script d)"
  shows "exec_op X d op rs \<noteq> Inl Panic"
  using assms
  by (cases op)
    (auto simp: with_engine_def and_then_Inl_iff [where e = Panic] exec_transfer_no_panic
      exec_destroy_no_panic exec_arith_no_panic exec_check_perms_no_panic exec_check_time_no_panic
      exec_if_no_panic exec_else_def exec_skip_no_panic split: if_splits)

lemma run_loop_no_panic:
  "chain_readable X d \<Longrightarrow> eg_pos (rs_engine rs) \<le> length (ed_script d) \<Longrightarrow> run_loop X d rs \<noteq> Inl Panic"
proof (induction X d rs rule: run_loop.induct)
  case (1 X d rs)
  show ?case
  proof (cases "consume_op (ed_script d) (eg_pos (rs_engine rs))")
    case (Inl e)
    then show ?thesis
      using 1(3) by (subst run_loop.simps) (auto dest!: consume_op_Panic)
  next
    case (Inr r)
    show ?thesis
    proof (cases "fst r")
      case None
      then show ?thesis using Inr by (cases r) (simp add: run_loop.simps [of X d rs])
    next
      case (Some op)
      let ?rs = "set_pos rs (snd r)"
      have c: "consume_op (ed_script d) (eg_pos (rs_engine rs)) = Inr (Some op, snd r)"
        using Inr Some by (cases r) simp
      have p: "eg_pos (rs_engine ?rs) \<le> length (ed_script d)"
        using consume_op_pos [OF c] by simp
      have n: "exec_op X d op ?rs \<noteq> Inl Panic"
        by (rule exec_op_no_panic [OF 1(2) p])
      show ?thesis
      proof (cases "exec_op X d op ?rs")
        case (Inl e)
        then show ?thesis using n by (simp add: run_loop.simps [of X d rs] c)
      next
        case (Inr fl)
        then have "eg_pos (rs_engine (flow_state fl)) \<le> length (ed_script d)"
          using exec_op_moves [OF Inr] p by (simp add: moves_def)
        then show ?thesis
          using 1(1) [OF c refl refl Inr] 1(2) by (cases fl) (simp_all add: run_loop.simps [of X d rs] c Inr)
      qed
    qed
  qed
qed

lemma finish_no_panic: "finish d rs \<noteq> Inl Panic"
  by (auto simp: finish_def Let_def and_then_Inl_iff split: if_splits tx_variant.splits tx_variant_v0.splits
      option.splits log_entry.splits)

lemma load_args_no_panic: "load_args xs cur eg \<noteq> Inl Panic"
  by (induction xs arbitrary: cur eg)
    (auto simp: and_then_Inl_iff map_err_def new_err_def split: arg.splits sum.splits)

text \<open>The function pointer of the script's table stays inside the script.\<close>

definition ptr_in_bounds :: "script \<Rightarrow> u8 \<Rightarrow> bool" where
  "ptr_in_bounds scr fn_id \<longleftrightarrow>
     (case get_fn_ptr scr fn_id of Inr (Some ptr) \<Rightarrow> unat ptr \<le> length scr | _ \<Rightarrow> True)"

lemma enter_fn_no_panic:
  assumes "ptr_in_bounds (ed_script d) fn_id"
  shows "enter_fn d eg fn_id \<noteq> Inl Panic"
  using assms load_args_no_panic
  by (auto simp: enter_fn_def Let_def and_then_Inl_iff map_err_def new_err_def ok_or_def ptr_in_bounds_def
      dest!: consume_op_Panic split: sum.splits option.splits op_frame.splits)

lemma eval_no_panic:
  assumes "chain_readable X d"
    and "ptr_in_bounds (ed_script d) (case pd_tx (ed_tx_data d) of TxV0 t \<Rightarrow>
      (case t of TransferTx t \<Rightarrow> call_fn t | _ \<Rightarrow> 0))"
  shows "eval X d \<noteq> Inl Panic"
proof -
  have "eg_pos eg' \<le> length (ed_script d)" if "enter_fn d eg fn_id = Inr eg'" for eg eg' fn_id
    using that by (elim enter_fn_Inr) (auto dest!: load_args_same consume_op_pos)
  then show ?thesis
    using assms by (auto simp: eval_def call_function_def Let_def and_then_Inl_iff enter_fn_no_panic
        run_loop_no_panic finish_no_panic)
qed

text \<open>A pointer behind the end of the script does panic.\<close>

lemma eval_ptr_panics:
  assumes "get_fn_ptr (ed_script d) (case pd_tx (ed_tx_data d) of TxV0 t \<Rightarrow>
      (case t of TransferTx t \<Rightarrow> call_fn t | _ \<Rightarrow> 0)) = Inr (Some ptr)"
    and "length (ed_script d) < unat ptr"
  shows "eval X d = Inl Panic"
  using assms by (simp add: eval_def call_function_def enter_fn_def consume_op_def)

end
