(* ===== verification/Execute.thy ===== *)
theory Execute
  imports Engine
begin

text \<open>
  \<open>Blockchain::execute_tx\<close> of \<open>blockchain/mod.rs\<close>: the checks a transaction passes before it is
  accepted, with every early return of the source in its order.  \<open>execute_tx\<close> is the whole function: the
  limit on signatures and then the match, with one definition for each arm.  \<open>additional_receipts\<close> are the receipts in front of it that are not indexed yet.
\<close>

section \<open>Shared checks\<close>

definition check :: "bool \<Rightarrow> tx_err \<Rightarrow> tx_err fail + unit" where
  "check bad e = (if bad then Inl (Err e) else Inr ())"

definition some_or :: "tx_err \<Rightarrow> tx_err fail + 'a option \<Rightarrow> tx_err fail + 'a" where
  "some_or e m = and_then m (\<lambda>r. ok_or r (Err e))"

text \<open>\<open>map_err(TxErr::ScriptEval)\<close>.\<close>

fun script_failure :: "eval_err fail \<Rightarrow> tx_err fail" where
  "script_failure Panic = Panic"
| "script_failure (Err e) = Err (ScriptEval e)"

definition run_script :: "'db ext \<Rightarrow> 'db blockchain \<Rightarrow> script \<Rightarrow> tx_precomp_data \<Rightarrow> receipt list \<Rightarrow> tx_err fail + log_entry list" where
  "run_script X self scr data additional_receipts =
     map_err script_failure (eval X \<lparr>ed_script = scr, ed_tx_data = data, ed_chain = self,
       ed_receipts = additional_receipts\<rparr>)"

definition perms_failure :: "tx_err fail" where
  "perms_failure = Err (ScriptEval (EvalErr_new 0 ScriptRetFalse))"

section \<open>Owner and mint transactions\<close>

text \<open>The account of the current owner's wallet; a missing one panics (\<open>expect\<close>).\<close>

definition owner_wallet_account :: "'db ext \<Rightarrow> 'db blockchain \<Rightarrow> receipt list \<Rightarrow> tx_err fail + account" where
  "owner_wallet_account X self additional_receipts =
     and_then (chain_get_owner X self) (\<lambda>owner.
       case owner of
         TxV0 (OwnerTx owner) \<Rightarrow> and_then (get_account X self (wallet owner) additional_receipts) unwrap
       | _ \<Rightarrow> Inl Panic)"

definition execute_owner_tx :: "'db ext \<Rightarrow> 'db blockchain \<Rightarrow> tx_precomp_data \<Rightarrow> receipt list \<Rightarrow> owner_tx \<Rightarrow> tx_err fail + log_entry list" where
  "execute_owner_tx X self data additional_receipts new_owner =
     and_then (check (amount (fee (own_base new_owner)) \<noteq> 0) InvalidFeeAmount) (\<lambda>_.
     and_then (some_or AccountNotFound (get_account X self (wallet new_owner) additional_receipts)) (\<lambda>_.
     and_then (owner_wallet_account X self additional_receipts) (\<lambda>prev_owner.
     and_then (run_script X self (acc_script prev_owner) data additional_receipts) (\<lambda>_.
       Inr []))))"

definition execute_mint_tx :: "'db ext \<Rightarrow> 'db blockchain \<Rightarrow> tx_precomp_data \<Rightarrow> receipt list \<Rightarrow> mint_tx \<Rightarrow> tx_err fail + log_entry list" where
  "execute_mint_tx X self data additional_receipts t =
     and_then (check (amount (fee (mint_base t)) \<noteq> 0) InvalidFeeAmount) (\<lambda>_.
     and_then (check (amt (mint_amount t) < 0) InvalidAmount) (\<lambda>_.
     and_then (owner_wallet_account X self additional_receipts) (\<lambda>owner.
     and_then (run_script X self (acc_script owner) data additional_receipts) (\<lambda>_.
     and_then (get_token_supply X (bc_db self)) (\<lambda>supply.
     and_then (ok_or (Asset_checked_add supply (mint_amount t)) (Err Arithmetic)) (\<lambda>_.
       Inr []))))))"

section \<open>Account transactions\<close>

definition pending_create :: "account_id \<Rightarrow> receipt \<Rightarrow> bool" where
  "pending_create i r =
     (case rc_tx r of TxV0 t \<Rightarrow>
       (case t of CreateAccountTx t \<Rightarrow> acc_id (ca_account t) = i | _ \<Rightarrow> False))"

text \<open>The fee both account transactions require: the account's total fee, doubled.\<close>

definition required_fee :: "account_info \<Rightarrow> tx_err fail + asset" where
  "required_fee info =
     and_then (ok_or (total_fee info) (Err Arithmetic)) (\<lambda>f.
       some_or Arithmetic (Asset_checked_mul f GRAEL_ACC_CREATE_FEE_MULT))"

definition create_fee_checks :: "account_info \<Rightarrow> create_account_tx \<Rightarrow> tx_err fail + unit" where
  "create_fee_checks info t =
     and_then (required_fee info) (\<lambda>req_fee.
     and_then (some_or Arithmetic (Asset_checked_mul req_fee GRAEL_ACC_CREATE_MIN_BAL_MULT)) (\<lambda>min_bal.
       if fee (ca_base t) < req_fee then Inl (Err InvalidFeeAmount)
       else if balance (ca_account t) < min_bal then Inl (Err InvalidAmount)
       else Inr ()))"

text \<open>What is left of a balance after two subtractions must not be negative.\<close>

definition check_balance :: "asset \<Rightarrow> asset list \<Rightarrow> tx_err fail + unit" where
  "check_balance bal as =
     and_then (foldl (\<lambda>m a. and_then m (\<lambda>b. ok_or (Asset_checked_sub b a) (Err Arithmetic))) (Inr bal) as)
       (\<lambda>b. check (amt b < 0) InvalidAmount)"

definition verify_account_sigs :: "'db ext \<Rightarrow> account_info \<Rightarrow> tx_precomp_data \<Rightarrow> sig_pair list \<Rightarrow> tx_err fail + unit" where
  "verify_account_sigs X info data sigs =
     (case Permissions_verify X (permissions (ai_account info)) (txid_bytes (pd_txid data)) sigs of
        Inl _ \<Rightarrow> Inl perms_failure
      | Inr _ \<Rightarrow> Inr ())"

definition execute_create_account_tx :: "'db ext \<Rightarrow> 'db blockchain \<Rightarrow> tx_precomp_data \<Rightarrow> receipt list \<Rightarrow> create_account_tx \<Rightarrow> tx_err fail + log_entry list" where
  "execute_create_account_tx X self data additional_receipts t =
     (let new_acc = ca_account t
      in if length (acc_script new_acc) > MAX_SCRIPT_BYTE_SIZE then Inl (Err TxTooLarge)
         else if destroyed new_acc then Inl (Err TxProhibited)
         else if \<not> Permissions_is_valid (permissions new_acc) then Inl (Err InvalidAccountPermissions)
         else if account_exists X (bc_db self) (acc_id new_acc) then Inl (Err AccountAlreadyExists)
         else if list_ex (pending_create (acc_id new_acc)) additional_receipts then Inl (Err AccountAlreadyExists)
         else
           and_then (some_or AccountNotFound (get_account_info X self (creator t) additional_receipts)) (\<lambda>info.
           and_then (create_fee_checks info t) (\<lambda>_.
           and_then (check_balance (balance (ai_account info)) [fee (ca_base t), balance new_acc]) (\<lambda>_.
           and_then (verify_account_sigs X info data (signature_pairs (ca_base t))) (\<lambda>_.
             Inr [])))))"

text \<open>The size of a new script and the validity of new permissions, in one chain of \<open>else if\<close>.\<close>

definition update_checks :: "account_info \<Rightarrow> update_account_tx \<Rightarrow> tx_err fail + unit" where
  "update_checks info t =
     (if destroyed (ai_account info) then Inl (Err TxProhibited)
      else (case new_script t of
              Some scr \<Rightarrow> check (length scr > MAX_SCRIPT_BYTE_SIZE) TxTooLarge
            | None \<Rightarrow>
                (case new_permissions t of
                   Some perms \<Rightarrow> check (\<not> Permissions_is_valid perms) InvalidAccountPermissions
                 | None \<Rightarrow> Inr ())))"

definition execute_update_account_tx :: "'db ext \<Rightarrow> 'db blockchain \<Rightarrow> tx_precomp_data \<Rightarrow> receipt list \<Rightarrow> update_account_tx \<Rightarrow> tx_err fail + log_entry list" where
  "execute_update_account_tx X self data additional_receipts t =
     and_then (some_or AccountNotFound (get_account_info X self (ua_account_id t) additional_receipts)) (\<lambda>info.
     and_then (update_checks info t) (\<lambda>_.
     and_then (required_fee info) (\<lambda>req_fee.
     and_then (check (fee (ua_base t) < req_fee) InvalidFeeAmount) (\<lambda>_.
     and_then (check_balance (balance (ai_account info)) [fee (ua_base t)]) (\<lambda>_.
     and_then (verify_account_sigs X info data (signature_pairs (ua_base t))) (\<lambda>_.
       Inr []))))))"

section \<open>Transfers\<close>

definition execute_transfer_tx :: "'db ext \<Rightarrow> 'db blockchain \<Rightarrow> tx_precomp_data \<Rightarrow> receipt list \<Rightarrow> transfer_tx \<Rightarrow> tx_err fail + log_entry list" where
  "execute_transfer_tx X self data additional_receipts t =
     and_then (check (length (memo t) > MAX_MEMO_BYTE_SIZE) TxTooLarge) (\<lambda>_.
     and_then (check (amt (tr_amount t) < 0) InvalidAmount) (\<lambda>_.
     and_then (some_or AccountNotFound (get_account_info X self (tr_from t) additional_receipts)) (\<lambda>info.
     and_then (ok_or (total_fee info) (Err Arithmetic)) (\<lambda>min_fee.
     and_then (check (fee (tr_base t) < min_fee) InvalidFeeAmount) (\<lambda>_.
     and_then (check_balance (balance (ai_account info)) [fee (tr_base t), tr_amount t]) (\<lambda>_.
       run_script X self (acc_script (ai_account info)) data additional_receipts))))))"

definition execute_tx :: "'db ext \<Rightarrow> 'db blockchain \<Rightarrow> tx_precomp_data \<Rightarrow> receipt list \<Rightarrow> tx_err fail + log_entry list" where
  "execute_tx X self data additional_receipts =
     (if length (tx_sigs (pd_tx data)) > MAX_TX_SIGNATURES then Inl (Err TooManySignatures)
      else (case pd_tx data of TxV0 t \<Rightarrow>
        (case t of
           OwnerTx t \<Rightarrow> execute_owner_tx X self data additional_receipts t
         | MintTx t \<Rightarrow> execute_mint_tx X self data additional_receipts t
         | CreateAccountTx t \<Rightarrow> execute_create_account_tx X self data additional_receipts t
         | UpdateAccountTx t \<Rightarrow> execute_update_account_tx X self data additional_receipts t
         | TransferTx t \<Rightarrow> execute_transfer_tx X self data additional_receipts t)))"

end
