(* ===== verification/Same_Reads.thy ===== *)
theory Same_Reads
  imports Execute
begin

text \<open>
  Executing a transaction reads the chain and the index but not the expiry index of transaction
  ids: two states that differ only there execute every transaction alike.  The receipt pool relies
  on this, for it records ids between executing a transaction and putting it into a block.
\<close>

definition same_reads :: "'db ext \<Rightarrow> 'db blockchain \<Rightarrow> 'db blockchain \<Rightarrow> bool" where
  "same_reads X c c' \<longleftrightarrow> bc_store c = bc_store c' \<and>
     (\<forall>cf k. cf \<noteq> CF_TX_EXPIRY \<longrightarrow> db_get X (bc_db c) cf k = db_get X (bc_db c') cf k)"

lemma same_reads_refl: "same_reads X c c"
  by (simp add: same_reads_def)

lemma same_reads_sym: "same_reads X c c' \<Longrightarrow> same_reads X c' c"
  by (simp add: same_reads_def)

lemma same_reads_trans: "same_reads X a b \<Longrightarrow> same_reads X b c \<Longrightarrow> same_reads X a c"
  by (simp add: same_reads_def)

text \<open>The reads as functions of the state, so that they are rewritten below binders and cases.\<close>

lemma same_reads_index:
  assumes "same_reads X c c'"
  shows "idx_get_account X (bc_db c) = idx_get_account X (bc_db c')"
    "get_owner X (bc_db c) = get_owner X (bc_db c')"
    "get_token_supply X (bc_db c) = get_token_supply X (bc_db c')"
    "get_chain_height X (bc_db c) = get_chain_height X (bc_db c')"
    "get_block_byte_pos X (bc_db c) = get_block_byte_pos X (bc_db c')"
    "account_exists X (bc_db c) = account_exists X (bc_db c')"
    "bc_store c = bc_store c'"
  using assms
  by (simp_all add: fun_eq_iff same_reads_def idx_get_account_def get_owner_def get_token_supply_def
      get_chain_height_def get_block_byte_pos_def account_exists_def)

lemma same_reads_view:
  assumes "same_reads X c c'"
  shows "get_account X c = get_account X c'"
    "get_block X c = get_block X c'"
    "get_chain_head X c = get_chain_head X c'"
    "chain_height X c = chain_height X c'"
    "chain_get_owner X c = chain_get_owner X c'"
  unfolding fun_eq_iff get_account_def get_block_def store_get_def read_from_disk_def get_chain_head_def
    chain_height_def chain_get_owner_def same_reads_index [OF assms] by simp_all

lemma same_reads_fees:
  assumes "same_reads X c c'"
  shows "get_account_info X c = get_account_info X c'"
proof -
  have b: "fee_block X c = fee_block X c'"
    unfolding fun_eq_iff fee_block_def same_reads_view [OF assms] by simp
  have l: "fee_loop X c i n = fee_loop X c' i n" for i n
  proof (induction n)
    case (Suc n)
    show ?case unfolding fun_eq_iff fee_loop.simps Suc b by simp
  qed (simp add: fun_eq_iff b)
  have r: "count_receipts X c hs = count_receipts X c' hs" for hs
  proof (induction hs)
    case (Cons h hs)
    show ?case unfolding fun_eq_iff count_receipts.simps Cons same_reads_view [OF assms] by simp
  qed (simp add: fun_eq_iff)
  show ?thesis
    unfolding fun_eq_iff get_account_info_def get_network_fee_def get_account_fee_def
      same_reads_view [OF assms] l r by simp
qed

text \<open>The engine on another chain.\<close>

lemma same_reads_exec_op:
  assumes "same_reads X (ed_chain d) c'"
  shows "exec_op X (d\<lparr>ed_chain := c'\<rparr>) op rs = exec_op X d op rs"
proof -
  let ?d = "d\<lparr>ed_chain := c'\<rparr>"
  note v = same_reads_view [OF same_reads_sym [OF assms]]
  have f: "ed_chain ?d = c'" "ed_script ?d = ed_script d" "ed_tx_data ?d = ed_tx_data d"
    "ed_receipts ?d = ed_receipts d"
    by simp_all
  have a: "check_accs X ?d eg accs = check_accs X d eg accs" for eg accs
  proof (induction accs)
    case (Cons i accs)
    show ?case unfolding fun_eq_iff check_accs.simps Cons f v by simp
  qed (simp add: fun_eq_iff)
  have p: "exec_check_perms X ?d = exec_check_perms X d"
    unfolding fun_eq_iff exec_check_perms_def check_acc_perms_def a by simp
  have t: "exec_check_time X ?d = exec_check_time X d"
    unfolding fun_eq_iff exec_check_time_def f v by simp
  have r: "check_receiver X ?d = check_receiver X d"
    unfolding fun_eq_iff check_receiver_def f v by simp
  have s: "exec_if ?d = exec_if d" "exec_else ?d = exec_else d"
    unfolding fun_eq_iff exec_if_def exec_else_def exec_skip_def f by simp_all
  have m: "exec_transfer X ?d = exec_transfer X d" "exec_destroy X ?d = exec_destroy X d"
    unfolding fun_eq_iff exec_transfer_def exec_destroy_def f r by simp_all
  show ?thesis
    by (cases op) (simp_all only: exec_op.simps p t s m)
qed

lemma same_reads_run_loop:
  "same_reads X (ed_chain d) c' \<Longrightarrow> run_loop X (d\<lparr>ed_chain := c'\<rparr>) rs = run_loop X d rs"
proof (induction X d rs rule: run_loop.induct)
  case (1 X d rs)
  have "run_loop X (d\<lparr>ed_chain := c'\<rparr>) rs' = run_loop X d rs'"
    if "consume_op (ed_script d) (eg_pos (rs_engine rs)) = Inr (Some op, pos)"
      "exec_op X d op (set_pos rs pos) = Inr (Continue rs')" for op pos rs'
    using 1(1) [OF that(1) refl refl that(2) refl 1(2)] .
  then show ?case
    by (subst (1 2) run_loop.simps)
      (auto simp: same_reads_exec_op [OF 1(2)] split: sum.splits option.splits flow.splits)
qed

lemma same_reads_eval:
  assumes "same_reads X (ed_chain d) c'"
  shows "eval X (d\<lparr>ed_chain := c'\<rparr>) = eval X d"
proof -
  let ?d = "d\<lparr>ed_chain := c'\<rparr>"
  have f: "ed_script ?d = ed_script d" "ed_tx_data ?d = ed_tx_data d" by simp_all
  have r: "run_loop X ?d = run_loop X d"
    by (rule ext) (rule same_reads_run_loop [OF assms])
  have e: "finish ?d = finish d" "enter_fn ?d = enter_fn d" "ScriptEngine_new ?d = ScriptEngine_new d"
    unfolding fun_eq_iff finish_def enter_fn_def ScriptEngine_new_def f by simp_all
  show ?thesis
    unfolding eval_def call_function_def f r e ..
qed

lemma same_reads_run_script:
  "same_reads X c c' \<Longrightarrow> run_script X c' scr data rs = run_script X c scr data rs"
  using same_reads_eval [of X "\<lparr>ed_script = scr, ed_tx_data = data, ed_chain = c, ed_receipts = rs\<rparr>" c']
  by (simp add: run_script_def)

lemma same_reads_execute_tx:
  assumes "same_reads X c c'"
  shows "execute_tx X c' = execute_tx X c"
proof -
  note facts = same_reads_index [OF same_reads_sym [OF assms]] same_reads_view [OF same_reads_sym [OF assms]]
    same_reads_fees [OF same_reads_sym [OF assms]]
  have s: "run_script X c' = run_script X c"
    by (intro ext) (rule same_reads_run_script [OF assms])
  have o: "owner_wallet_account X c' = owner_wallet_account X c"
    unfolding fun_eq_iff owner_wallet_account_def facts by simp
  show ?thesis
    unfolding fun_eq_iff execute_tx_def execute_owner_tx_def execute_mint_tx_def execute_create_account_tx_def
        execute_update_account_tx_def execute_transfer_tx_def facts o s by simp
qed

lemma same_reads_insert_txid:
  assumes "db_ok X"
  shows "same_reads X c (c\<lparr>bc_db := insert_txid X (bc_db c) i e\<rparr>)"
  by (simp add: same_reads_def insert_txid_def db_get_write [OF assms])

lemma same_reads_purge:
  assumes "db_ok X" "purge_expired_txids X now (bc_db c) = (Inr db' :: 'e fail + 'db)"
  shows "same_reads X c (c\<lparr>bc_db := db'\<rparr>)"
proof -
  obtain ops where ops: "purge_batch (now - TX_EXPIRY_ADJUSTMENT) (db_iter X (bc_db c) CF_TX_EXPIRY) =
      (Inr ops :: 'e fail + _)" "db' = db_write X (bc_db c) ops"
    using assms(2) by (auto simp: purge_expired_txids_def fallible_iffs)
  show ?thesis
    by (simp add: same_reads_def ops(2) db_get_write [OF assms(1)] purge_batch_Inr(2) [OF ops(1)])
qed

end
