(* ===== verification/Chain.thy ===== *)
theory Chain
  imports Execute
begin

text \<open>
  The writing half of \<open>blockchain/mod.rs\<close>: indexing receipts and blocks into a write batch,
  verifying and inserting a block, the genesis block, and reindexing a block log.
\<close>

section \<open>Indexing\<close>

definition index_log_entry :: "'db ext \<Rightarrow> 'db \<Rightarrow> account_id \<Rightarrow> write_batch \<Rightarrow> log_entry \<Rightarrow> 'e fail + write_batch" where
  "index_log_entry X db sender batch entry =
     (case entry of
        LogTransfer to_acc a \<Rightarrow> add_bal X db batch to_acc a
      | LogDestroy to_acc \<Rightarrow>
          and_then (get_account_mut X db batch sender) (\<lambda>(from_acc, batch).
          let from_cur_bal = balance from_acc;
              from_acc = from_acc\<lparr>destroyed := True\<rparr>;
              from_acc = from_acc\<lparr>balance := Asset 0\<rparr>;
              batch = put_account_mut batch sender from_acc
          in add_bal X db batch to_acc from_cur_bal))"

primrec index_log :: "'db ext \<Rightarrow> 'db \<Rightarrow> account_id \<Rightarrow> log_entry list \<Rightarrow> write_batch \<Rightarrow> 'e fail + write_batch" where
  "index_log X db sender [] batch = Inr batch"
| "index_log X db sender (entry # entries) batch =
     and_then (index_log_entry X db sender batch entry) (index_log X db sender entries)"

text \<open>The new script and permissions of an update, where it has them.\<close>

definition apply_update :: "update_account_tx \<Rightarrow> account \<Rightarrow> account" where
  "apply_update t acc =
     (let acc = (case new_script t of Some scr \<Rightarrow> acc\<lparr>acc_script := scr\<rparr> | None \<Rightarrow> acc);
          acc = (case new_permissions t of Some perms \<Rightarrow> acc\<lparr>permissions := perms\<rparr> | None \<Rightarrow> acc)
      in acc)"

lemma apply_update_simps [simp]:
  "balance (apply_update t acc) = balance acc"
  "destroyed (apply_update t acc) = destroyed acc"
  "acc_id (apply_update t acc) = acc_id acc"
  by (simp_all add: apply_update_def Let_def split: option.splits)

definition index_receipt :: "'db ext \<Rightarrow> 'db \<Rightarrow> write_batch \<Rightarrow> receipt \<Rightarrow> 'e fail + write_batch" where
  "index_receipt X db batch r =
     (case rc_tx r of TxV0 t \<Rightarrow>
       (case t of
          OwnerTx _ \<Rightarrow> set_owner batch (rc_tx r)
        | MintTx t \<Rightarrow>
            and_then (add_token_supply X db batch (mint_amount t)) (\<lambda>batch.
              add_bal X db batch (mint_to t) (mint_amount t))
        | CreateAccountTx t \<Rightarrow>
            and_then (unwrap (Asset_checked_add (fee (ca_base t)) (balance (ca_account t)))) (\<lambda>total.
            and_then (sub_bal X db batch (creator t) total) (\<lambda>batch.
              Inr (insert_or_update_account batch (ca_account t))))
        | UpdateAccountTx t \<Rightarrow>
            and_then (get_account_mut X db batch (ua_account_id t)) (\<lambda>(acc, batch).
            and_then (unwrap (Asset_checked_sub (balance acc) (fee (ua_base t)))) (\<lambda>b.
              Inr (put_account_mut batch (ua_account_id t) (apply_update t (acc\<lparr>balance := b\<rparr>)))))
        | TransferTx t \<Rightarrow>
            and_then (unwrap (Asset_checked_add (fee (tr_base t)) (tr_amount t))) (\<lambda>total.
            and_then (sub_bal X db batch (tr_from t) total) (index_log X db (tr_from t) (rc_log r)))))"

primrec index_receipts :: "'db ext \<Rightarrow> 'db \<Rightarrow> receipt list \<Rightarrow> write_batch \<Rightarrow> 'e fail + write_batch" where
  "index_receipts X db [] batch = Inr batch"
| "index_receipts X db (r # rs) batch = and_then (index_receipt X db batch r) (index_receipts X db rs)"

definition index_block :: "'db ext \<Rightarrow> 'db blockchain \<Rightarrow> write_batch \<Rightarrow> block \<Rightarrow> 'e fail + write_batch" where
  "index_block X self batch block =
     and_then (index_receipts X (bc_db self) (Block_receipts block) batch) (\<lambda>batch.
     and_then (case wb_owner batch of Some t \<Rightarrow> Inr t | None \<Rightarrow> chain_get_owner X self) (\<lambda>owner_tx.
       case owner_tx of
         TxV0 (OwnerTx t) \<Rightarrow> add_bal X (bc_db self) batch (wallet t) (Block_rewards block)
       | _ \<Rightarrow> Inl Panic))"

section \<open>Verifying and inserting a block\<close>

text \<open>\<open>map_err(BlockErr::Tx)\<close>.\<close>

fun tx_failure :: "tx_err fail \<Rightarrow> block_err fail" where
  "tx_failure Panic = Panic"
| "tx_failure (Err e) = Err (BlockTxErr e)"

text \<open>The receipts are executed in order, each with those in front of it as pending.\<close>

primrec verify_receipts :: "'db ext \<Rightarrow> 'db blockchain \<Rightarrow> receipt list \<Rightarrow> receipt list \<Rightarrow> block_err fail + unit" where
  "verify_receipts X self before [] = Inr ()"
| "verify_receipts X self before (r # rs) =
     and_then (map_err tx_failure (execute_tx X self (TxPrecompData_from_tx X (rc_tx r)) before)) (\<lambda>_.
       verify_receipts X self (before @ [r]) rs)"

definition verify_block :: "'db ext \<Rightarrow> 'db blockchain \<Rightarrow> block \<Rightarrow> block \<Rightarrow> block_err fail + unit" where
  "verify_block X self block prev_block =
     (if Block_height prev_block + 1 \<noteq> Block_height block then Inl (Err InvalidBlockHeight)
      else if \<not> verify_receipt_root X block then Inl (Err InvalidReceiptRoot)
      else if \<not> verify_previous_hash X block prev_block then Inl (Err InvalidPrevHash)
      else
        and_then (ok_or (Block_signer block) (Err InvalidSignature)) (\<lambda>block_signer.
        and_then (chain_get_owner X self) (\<lambda>owner.
        and_then (case owner of
                    TxV0 (OwnerTx t) \<Rightarrow>
                      if pub_key block_signer \<noteq> minter t then Inl (Err InvalidSignature) else Inr ()
                  | _ \<Rightarrow> Inl Panic) (\<lambda>_.
          if \<not> SigPair_verify X block_signer (digest_bytes (calc_header_hash X block)) then Inl (Err InvalidSignature)
          else verify_receipts X self [] (Block_receipts block)))))"

definition insert_block :: "'db ext \<Rightarrow> 'db blockchain \<Rightarrow> block \<Rightarrow> block_err fail + 'db blockchain" where
  "insert_block X self block =
     and_then (get_chain_head X self) (\<lambda>hd_block.
     and_then (verify_block X self block hd_block) (\<lambda>_.
     and_then (index_block X self WriteBatch_new block) (\<lambda>batch.
     and_then (store_insert X (bc_store self) batch block) (\<lambda>(store, batch).
       Inr \<lparr>bc_db = commit X (bc_db self) batch, bc_store = store\<rparr>))))"

section \<open>The genesis block\<close>

record genesis_block_info =
  gi_owner_id :: account_id
  gi_minter_key :: key_pair
  gi_wallet_keys :: "key_pair list"
  gi_script :: script

text \<open>\<open>seeds\<close> are the random seeds of the four wallet keys.\<close>

primrec gen_keys :: "'db ext \<Rightarrow> bytes list \<Rightarrow> 'e fail + key_pair list" where
  "gen_keys X [] = Inr []"
| "gen_keys X (rnd # rnds) =
     and_then (KeyPair_gen X rnd) (\<lambda>kp. and_then (gen_keys X rnds) (\<lambda>kps. Inr (kp # kps)))"

definition genesis_script :: "account_id \<Rightarrow> 'e fail + script" where
  "genesis_script owner_id =
     and_then (FnBuilder_new 0 (OpDefine [])) (\<lambda>mint_fn.
     and_then (FnBuilder_push_all mint_fn [FrameAccountId owner_id, OpCheckPerms]) (\<lambda>mint_fn.
     and_then (Builder_push Builder_new mint_fn) (\<lambda>b.
     and_then (FnBuilder_new 1 (OpDefine [ArgAccountId, ArgAsset])) (\<lambda>transfer_fn.
     and_then (FnBuilder_push_all transfer_fn
       [FrameAccountId owner_id, OpCheckPermsFastFail, OpTransfer, FrameTrue]) (\<lambda>transfer_fn.
     and_then (Builder_push b transfer_fn) (\<lambda>b. unwrap (ok (build b))))))))"

definition GenesisBlockInfo_new :: "'db ext \<Rightarrow> bytes list \<Rightarrow> key_pair \<Rightarrow> account_id \<Rightarrow> 'e fail + genesis_block_info" where
  "GenesisBlockInfo_new X seeds minter_key owner_id =
     and_then (gen_keys X seeds) (\<lambda>wallet_keys.
     and_then (genesis_script owner_id) (\<lambda>scr.
       Inr \<lparr>gi_owner_id = owner_id, gi_minter_key = minter_key, gi_wallet_keys = wallet_keys, gi_script = scr\<rparr>))"

definition genesis_base :: "u64 \<Rightarrow> tx" where
  "genesis_base now = \<lparr>nonce = 0, expiry = now + 1, fee = Asset_default, signature_pairs = []\<rparr>"

definition genesis_owner_wallet :: "genesis_block_info \<Rightarrow> account" where
  "genesis_owner_wallet info =
     \<lparr>acc_id = gi_owner_id info, balance = Asset_default, acc_script = gi_script info,
      permissions = \<lparr>threshold = 2, keys = map kp_public (gi_wallet_keys info)\<rparr>, destroyed = False\<rparr>"

definition genesis_create_tx :: "u64 \<Rightarrow> genesis_block_info \<Rightarrow> tx_variant" where
  "genesis_create_tx now info =
     TxV0 (CreateAccountTx \<lparr>ca_base = genesis_base now, creator = 0, ca_account = genesis_owner_wallet info\<rparr>)"

definition genesis_owner_tx :: "u64 \<Rightarrow> genesis_block_info \<Rightarrow> tx_variant" where
  "genesis_owner_tx now info =
     TxV0 (OwnerTx \<lparr>own_base = genesis_base now, minter = kp_public (gi_minter_key info), wallet = gi_owner_id info\<rparr>)"

definition genesis_block :: "'db ext \<Rightarrow> u64 \<Rightarrow> genesis_block_info \<Rightarrow> block" where
  "genesis_block X now info =
     (let rcs = [\<lparr>rc_tx = genesis_create_tx now info, rc_log = []\<rparr>,
                 \<lparr>rc_tx = genesis_owner_tx now info, rc_log = []\<rparr>];
          block = BlockV0 \<lparr>header = \<lparr>previous_hash = Digest (replicate 32 0), height = 0, timestamp = now,
                                    receipt_root = calc_receipt_root X rcs\<rparr>,
                          signer = None, rewards = Asset_default, receipts = rcs\<rparr>
      in Block_sign X block (gi_minter_key info))"

definition create_genesis_block :: "'db ext \<Rightarrow> u64 \<Rightarrow> bytes list \<Rightarrow> 'db blockchain \<Rightarrow> key_pair \<Rightarrow> 'e fail + ('db blockchain \<times> genesis_block_info)" where
  "create_genesis_block X now seeds self minter_key =
     and_then (GenesisBlockInfo_new X seeds minter_key 0) (\<lambda>info.
     and_then (insert_genesis X (bc_store self) WriteBatch_new (genesis_block X now info)) (\<lambda>(store, batch).
     and_then (set_owner batch (genesis_owner_tx now info)) (\<lambda>batch.
     let batch = insert_or_update_account batch (genesis_owner_wallet info);
         db = commit X (bc_db self) batch;
         db = set_index_status X db StatusComplete
     in Inr (\<lparr>bc_db = db, bc_store = store\<rparr>, info))))"

definition Blockchain_new :: "'db ext \<Rightarrow> 'db \<Rightarrow> bytes \<Rightarrow> 'e fail + 'db blockchain" where
  "Blockchain_new X db log = and_then (BlockStore_new X db log) (\<lambda>store. Inr \<lparr>bc_db = db, bc_store = store\<rparr>)"

section \<open>Reindexing\<close>

text \<open>The accounts the genesis receipts create are indexed up front, one commit each.\<close>

definition preindex_receipt :: "'db ext \<Rightarrow> 'db \<Rightarrow> receipt \<Rightarrow> 'db" where
  "preindex_receipt X db r =
     (case rc_tx r of TxV0 t \<Rightarrow>
       (case t of
          CreateAccountTx t \<Rightarrow> commit X db (insert_or_update_account WriteBatch_new (ca_account t))
        | _ \<Rightarrow> db))"

definition preindex_genesis :: "'db ext \<Rightarrow> 'db blockchain \<Rightarrow> 'e fail + 'db" where
  "preindex_genesis X self =
     (if st_height (bc_store self) = 0 then
        (case raw_read_from_disk X (st_file (bc_store self)) 0 of
           Inr (block, _) \<Rightarrow>
             if length (Block_receipts block) \<noteq> 2 then Inl Panic
             else Inr (foldl (preindex_receipt X) (bc_db self) (Block_receipts block))
         | Inl (Err _) \<Rightarrow> Inr (bc_db self)
         | Inl Panic \<Rightarrow> Inl Panic)
      else Inr (bc_db self))"

definition reindex_txid :: "'db ext \<Rightarrow> u64 \<Rightarrow> 'db \<Rightarrow> receipt \<Rightarrow> 'db" where
  "reindex_txid X now db r =
     (let data = TxPrecompData_from_tx X (rc_tx r); e = tx_expiry (pd_tx data)
      in if e > now then insert_txid X db (pd_txid data) e else db)"

text \<open>The loop from the head back to genesis, left at the first block older than the longest expiry.\<close>

primrec reindex_txids :: "'db ext \<Rightarrow> u64 \<Rightarrow> block_store \<Rightarrow> nat \<Rightarrow> 'db \<Rightarrow> 'e fail + 'db" where
  "reindex_txids X now store 0 db =
     and_then (and_then (store_get X db store 0) unwrap) (\<lambda>block.
       Inr (if now - Block_timestamp block \<le> TX_MAX_EXPIRY_TIME
            then foldl (reindex_txid X now) db (Block_receipts block) else db))"
| "reindex_txids X now store (Suc n) db =
     and_then (and_then (store_get X db store (of_nat (Suc n))) unwrap) (\<lambda>block.
       if now - Block_timestamp block \<le> TX_MAX_EXPIRY_TIME
       then reindex_txids X now store n (foldl (reindex_txid X now) db (Block_receipts block))
       else Inr db)"

definition reindex :: "'db ext \<Rightarrow> u64 \<Rightarrow> bool \<Rightarrow> 'db blockchain \<Rightarrow> 'e fail + 'db blockchain" where
  "reindex X now auto_trim self =
     and_then (get_index_status X (bc_db self)) (\<lambda>status.
     if status \<noteq> StatusNone then Inl Panic
     else
       and_then (preindex_genesis X self) (\<lambda>db.
       and_then (reindex_blocks X auto_trim (index_block X (self\<lparr>bc_db := db\<rparr>)) db (bc_store self)) (\<lambda>(db, store).
       and_then (get_chain_height X db) (\<lambda>h.
       and_then (reindex_txids X now store (unat h) db) (\<lambda>db.
         Inr \<lparr>bc_db = db, bc_store = store\<rparr>)))))"

section \<open>Taking the operations apart\<close>

lemma index_block_Inr:
  assumes "index_block X c b block = (Inr b' :: 'e fail + _)"
  obtains b1 ow where "index_receipts X (bc_db c) (Block_receipts block) b = (Inr b1 :: 'e fail + _)"
    "add_bal X (bc_db c) b1 (wallet ow) (Block_rewards block) = (Inr b' :: 'e fail + _)"
    "(case wb_owner b1 of Some t \<Rightarrow> Inr t | None \<Rightarrow> chain_get_owner X c) =
      (Inr (TxV0 (OwnerTx ow)) :: 'e fail + _)"
proof -
  obtain b1 t where b1: "index_receipts X (bc_db c) (Block_receipts block) b = (Inr b1 :: 'e fail + _)"
    "(case wb_owner b1 of Some t \<Rightarrow> Inr t | None \<Rightarrow> chain_get_owner X c) = (Inr t :: 'e fail + _)"
    "(case t of TxV0 (OwnerTx t) \<Rightarrow> add_bal X (bc_db c) b1 (wallet t) (Block_rewards block) | _ \<Rightarrow> Inl Panic) =
      (Inr b' :: 'e fail + _)"
    using assms unfolding index_block_def and_then_Inr_iff by blast
  obtain v where v: "t = TxV0 v" by (cases t)
  show ?thesis
    using b1 that by (cases v) (simp_all add: v)
qed

lemma verify_block_Inr:
  assumes "verify_block X c block prev = Inr ()"
  obtains sp ow where "Block_height block = Block_height prev + 1" "verify_receipt_root X block"
    "verify_previous_hash X block prev" "Block_signer block = Some sp"
    "chain_get_owner X c = (Inr (TxV0 (OwnerTx ow)) :: block_err fail + _)" "pub_key sp = minter ow"
    "SigPair_verify X sp (digest_bytes (calc_header_hash X block))"
    "verify_receipts X c [] (Block_receipts block) = Inr ()"
proof -
  obtain sp t where b: "Block_height block = Block_height prev + 1" "verify_receipt_root X block"
    "verify_previous_hash X block prev" "Block_signer block = Some sp"
    "chain_get_owner X c = (Inr t :: block_err fail + _)"
    "(case t of TxV0 (OwnerTx t) \<Rightarrow> if pub_key sp \<noteq> minter t then Inl (Err InvalidSignature) else Inr ()
      | _ \<Rightarrow> Inl Panic) = Inr ()"
    "SigPair_verify X sp (digest_bytes (calc_header_hash X block))"
    "verify_receipts X c [] (Block_receipts block) = Inr ()"
    using assms by (auto simp: verify_block_def fallible_iffs split: if_splits)
  obtain v where v: "t = TxV0 v" by (cases t)
  show ?thesis
    using b that by (cases v) (simp_all add: v split: if_splits)
qed

lemma insert_block_Inr:
  assumes "insert_block X c block = Inr c'"
  obtains prev batch store batch' where "get_chain_head X c = (Inr prev :: block_err fail + _)"
    "verify_block X c block prev = Inr ()"
    "index_block X c WriteBatch_new block = (Inr batch :: block_err fail + _)"
    "store_insert X (bc_store c) batch block = (Inr (store, batch') :: block_err fail + _)"
    "c' = \<lparr>bc_db = commit X (bc_db c) batch', bc_store = store\<rparr>"
  using assms by (auto simp: insert_block_def fallible_iffs)

end
