(* ===== verification/Supply.thy ===== *)
theory Supply
  imports Chain
begin

text \<open>
  Where the tokens are.  A ledger is anything with balances that can be credited and debited; its
  total moves with every credit and debit.  The write batch over its index is one, and from that
  follows what indexing a receipt and a block does to the sum of all balances and to the recorded
  token supply.
\<close>

section \<open>Ledgers\<close>

definition total_of :: "(account_id \<Rightarrow> int) \<Rightarrow> int" where
  "total_of f = (\<Sum>i\<in>UNIV. f i)"

lemma total_of_update: "total_of (f(i := v)) = total_of f - f i + v"
proof -
  have "total_of (f(i := v)) = v + (\<Sum>j\<in>UNIV - {i}. (f(i := v)) j)"
    unfolding total_of_def by (subst sum.remove [of _ i]) simp_all
  also have "(\<Sum>j\<in>UNIV - {i}. (f(i := v)) j) = (\<Sum>j\<in>UNIV - {i}. f j)"
    by (rule sum.cong) simp_all
  also have "\<dots> = total_of f - f i"
    unfolding total_of_def by (subst sum.remove [of UNIV i]) simp_all
  finally show ?thesis by (simp add: fun_upd_def)
qed

locale ledger =
  fixes bal :: "'s \<Rightarrow> account_id \<Rightarrow> int"
    and credit debit :: "'s \<Rightarrow> account_id \<Rightarrow> asset \<Rightarrow> 'e + 's"
  assumes credit_bal: "credit s i a = Inr s' \<Longrightarrow> bal s' = (bal s)(i := bal s i + amt a)"
    and debit_bal: "debit s i a = Inr s' \<Longrightarrow> bal s' = (bal s)(i := bal s i - amt a)"
begin

lemma credit_total: "credit s i a = Inr s' \<Longrightarrow> total_of (bal s') = total_of (bal s) + amt a"
  by (simp add: credit_bal total_of_update)

lemma debit_total: "debit s i a = Inr s' \<Longrightarrow> total_of (bal s') = total_of (bal s) - amt a"
  by (simp add: debit_bal total_of_update)

text \<open>A payment moves tokens and keeps the total.\<close>

lemma pay_total:
  "debit s i a = Inr s1 \<Longrightarrow> credit s1 j a = Inr s2 \<Longrightarrow> total_of (bal s2) = total_of (bal s)"
  by (simp add: debit_total credit_total)

end

text \<open>The balances of a batch over its index.\<close>

definition view_bal :: "unit fail + account option \<Rightarrow> int" where
  "view_bal r = (case r of Inr (Some acc) \<Rightarrow> amt (balance acc) | _ \<Rightarrow> 0)"

definition batch_bal :: "'db ext \<Rightarrow> 'db \<Rightarrow> write_batch \<Rightarrow> account_id \<Rightarrow> int" where
  "batch_bal X db b i = view_bal (batch_account X db b i)"

text \<open>The view does not depend on the type its errors are given.\<close>

lemma idx_get_account_retype:
  "(idx_get_account X db i :: 'e fail + account option) = Inr r \<Longrightarrow>
    (idx_get_account X db i :: 'f fail + account option) = Inr r"
  by (auto simp: idx_get_account_def fallible_iffs split: option.splits)

lemma batch_account_retype:
  "(batch_account X db b i :: 'e fail + account option) = Inr r \<Longrightarrow>
    (batch_account X db b i :: 'f fail + account option) = Inr r"
  by (auto simp: batch_account_def dest: idx_get_account_retype split: option.splits)

lemma batch_bal_put:
  "batch_bal X db (put_account_mut b i acc) = (batch_bal X db b)(i := amt (balance acc))"
  by (auto simp: batch_bal_def fun_eq_iff view_bal_def)

lemma batch_bal_supply: "batch_bal X db (b\<lparr>wb_token_supply := s\<rparr>) = batch_bal X db b"
  by (auto simp: batch_bal_def fun_eq_iff)

lemma batch_bal_at:
  "(batch_account X db b i :: 'e fail + account option) = Inr (Some acc) \<Longrightarrow> batch_bal X db b i = amt (balance acc)"
  by (drule batch_account_retype [where 'f = unit]) (simp add: batch_bal_def view_bal_def)

lemma add_bal_Inr:
  assumes "add_bal X db b i a = (Inr b' :: 'e fail + write_batch)"
  obtains acc bal where "(batch_account X db b i :: 'e fail + account option) = Inr (Some acc)"
    "amt bal = amt (balance acc) + amt a" "b' = put_account_mut b i (acc\<lparr>balance := bal\<rparr>)"
  using assms by (auto simp: add_bal_eq Asset_checked_add_iff split: sum.splits option.splits)

lemma sub_bal_Inr:
  assumes "sub_bal X db b i a = (Inr b' :: 'e fail + write_batch)"
  obtains acc bal where "(batch_account X db b i :: 'e fail + account option) = Inr (Some acc)"
    "amt bal = amt (balance acc) - amt a" "b' = put_account_mut b i (acc\<lparr>balance := bal\<rparr>)"
  using assms by (auto simp: sub_bal_eq Asset_checked_sub_iff split: sum.splits option.splits)

interpretation batch_ledger: ledger "batch_bal X db" "add_bal X db" "sub_bal X db" for X db
  by unfold_locales (auto simp: batch_bal_put batch_bal_at fun_eq_iff elim!: add_bal_Inr sub_bal_Inr)

definition total_bal :: "'db ext \<Rightarrow> 'db \<Rightarrow> write_batch \<Rightarrow> int" where
  "total_bal X db b = total_of (batch_bal X db b)"

lemmas add_bal_total = batch_ledger.credit_total [folded total_bal_def]
lemmas sub_bal_total = batch_ledger.debit_total [folded total_bal_def]

lemma put_total:
  "total_bal X db (put_account_mut b i acc) = total_bal X db b - batch_bal X db b i + amt (balance acc)"
  by (simp add: total_bal_def batch_bal_put total_of_update)

section \<open>Receipts\<close>

text \<open>What a batch records of the supply.\<close>

definition supply_is :: "'db ext \<Rightarrow> 'db \<Rightarrow> write_batch \<Rightarrow> int \<Rightarrow> bool" where
  "supply_is X db b s \<longleftrightarrow> (\<exists>a. (batch_supply X db b :: unit fail + asset) = Inr a \<and> amt a = s)"

text \<open>The tokens a receipt mints, and what it takes out of the balances: its fee.  A created
  account must be new, and the log must hand out the amount of the transfer.\<close>

definition minted :: "receipt \<Rightarrow> int" where
  "minted r = (case rc_tx r of TxV0 t \<Rightarrow> (case t of MintTx t \<Rightarrow> amt (mint_amount t) | _ \<Rightarrow> 0))"

definition charged_fee :: "receipt \<Rightarrow> int" where
  "charged_fee r = (case rc_tx r of TxV0 t \<Rightarrow>
     (case t of OwnerTx _ \<Rightarrow> 0 | MintTx _ \<Rightarrow> 0 | _ \<Rightarrow> receipt_fee r))"

definition conserving :: "'db ext \<Rightarrow> 'db \<Rightarrow> write_batch \<Rightarrow> receipt \<Rightarrow> bool" where
  "conserving X db b r =
     (case rc_tx r of TxV0 t \<Rightarrow>
       (case t of
          CreateAccountTx t \<Rightarrow> (batch_account X db b (acc_id (ca_account t)) :: unit fail + account option) = Inr None
        | TransferTx t \<Rightarrow> log_amt (rc_log r) = amt (tr_amount t)
        | _ \<Rightarrow> True))"

lemma index_log_entry_total:
  assumes "index_log_entry X db i b e = (Inr b' :: 'e fail + write_batch)"
  shows "total_bal X db b' = total_bal X db b + entry_amt e"
proof (cases e)
  case (LogTransfer to a)
  then show ?thesis
    using assms by (auto simp: index_log_entry_def dest: add_bal_total)
next
  case (LogDestroy to)
  then obtain acc b1 where b1: "get_account_mut X db b i = (Inr (acc, b1) :: 'e fail + _)"
    "add_bal X db (put_account_mut b1 i (acc\<lparr>destroyed := True, balance := Asset 0\<rparr>)) to (balance acc) =
      (Inr b' :: 'e fail + write_batch)"
    using assms by (auto simp: index_log_entry_def fallible_iffs Let_def)
  then have acc: "(batch_account X db b i :: 'e fail + account option) = Inr (Some acc)"
    and p: "put_account_mut b1 i (acc\<lparr>destroyed := True, balance := Asset 0\<rparr>) =
      put_account_mut b i (acc\<lparr>destroyed := True, balance := Asset 0\<rparr>)"
    by (auto simp: get_account_mut_eq split: sum.splits option.splits if_splits)
  have "total_bal X db (put_account_mut b i (acc\<lparr>destroyed := True, balance := Asset 0\<rparr>)) =
      total_bal X db b - amt (balance acc)"
    by (simp add: put_total batch_bal_at [OF acc])
  then show ?thesis
    using add_bal_total [OF b1(2) [unfolded p]] by (simp add: LogDestroy)
qed

lemma index_log_total:
  "index_log X db i es b = (Inr b' :: 'e fail + write_batch) \<Longrightarrow> total_bal X db b' = total_bal X db b + log_amt es"
  by (induction es arbitrary: b) (auto simp: fallible_iffs dest!: index_log_entry_total)

lemma index_receipt_total:
  assumes "index_receipt X db b r = (Inr b' :: 'e fail + write_batch)" "conserving X db b r"
  shows "total_bal X db b' = total_bal X db b + minted r - charged_fee r"
proof -
  obtain v where v: "rc_tx r = TxV0 v" by (cases "rc_tx r")
  show ?thesis
  proof (cases v)
    case (OwnerTx t)
    then have "batch_bal X db b' = batch_bal X db b"
      using assms(1) by (auto simp: index_receipt_def v batch_bal_def fun_eq_iff dest!: set_owner_Inr)
    then show ?thesis
      by (simp add: total_bal_def minted_def charged_fee_def v OwnerTx)
  next
    case (MintTx t)
    then obtain b1 where "add_token_supply X db b (mint_amount t) = (Inr b1 :: 'e fail + _)"
      "add_bal X db b1 (mint_to t) (mint_amount t) = (Inr b' :: 'e fail + _)"
      using assms(1) by (auto simp: index_receipt_def v fallible_iffs)
    moreover from this(1) have "total_bal X db b1 = total_bal X db b"
      by (auto simp: add_token_supply_eq fallible_iffs total_bal_def batch_bal_supply)
    ultimately show ?thesis
      by (simp add: add_bal_total minted_def charged_fee_def v MintTx)
  next
    case (CreateAccountTx t)
    then obtain a b1 where a: "Asset_checked_add (fee (ca_base t)) (balance (ca_account t)) = Some a"
      "sub_bal X db b (creator t) a = (Inr b1 :: 'e fail + _)" "b' = put_account_mut b1 (acc_id (ca_account t)) (ca_account t)"
      using assms(1) by (auto simp: index_receipt_def v fallible_iffs insert_account_eq)
    have new: "(batch_account X db b (acc_id (ca_account t)) :: unit fail + account option) = Inr None"
      using assms(2) by (simp add: conserving_def v CreateAccountTx)
    obtain acc bal where s: "(batch_account X db b (creator t) :: 'e fail + account option) = Inr (Some acc)"
      "b1 = put_account_mut b (creator t) (acc\<lparr>balance := bal\<rparr>)"
      using a(2) by (rule sub_bal_Inr)
    have "creator t \<noteq> acc_id (ca_account t)"
      using s(1) new by (auto dest: batch_account_retype [where 'f = unit])
    then have "batch_bal X db b1 (acc_id (ca_account t)) = 0"
      using new by (simp add: s(2) batch_bal_put batch_bal_def view_bal_def)
    then show ?thesis
      using sub_bal_total [OF a(2)] a(1)
      by (simp add: a(3) put_total minted_def charged_fee_def receipt_fee_def v CreateAccountTx Asset_checked_add_iff)
  next
    case (UpdateAccountTx t)
    then obtain acc b1 bal where u: "get_account_mut X db b (ua_account_id t) = (Inr (acc, b1) :: 'e fail + _)"
      "Asset_checked_sub (balance acc) (fee (ua_base t)) = Some bal"
      "b' = put_account_mut b1 (ua_account_id t) (apply_update t (acc\<lparr>balance := bal\<rparr>))"
      using assms(1) by (auto simp: index_receipt_def v fallible_iffs)
    then have acc: "(batch_account X db b (ua_account_id t) :: 'e fail + account option) = Inr (Some acc)"
      and p: "b' = put_account_mut b (ua_account_id t) (apply_update t (acc\<lparr>balance := bal\<rparr>))"
      by (auto simp: get_account_mut_eq split: sum.splits option.splits if_splits)
    show ?thesis
      using u(2) by (simp add: p put_total batch_bal_at [OF acc] minted_def charged_fee_def receipt_fee_def v
          UpdateAccountTx Asset_checked_sub_iff)
  next
    case (TransferTx t)
    then obtain a b1 where a: "Asset_checked_add (fee (tr_base t)) (tr_amount t) = Some a"
      "sub_bal X db b (tr_from t) a = (Inr b1 :: 'e fail + _)"
      "index_log X db (tr_from t) (rc_log r) b1 = (Inr b' :: 'e fail + _)"
      using assms(1) by (auto simp: index_receipt_def v fallible_iffs)
    have "log_amt (rc_log r) = amt (tr_amount t)"
      using assms(2) by (simp add: conserving_def v TransferTx)
    then show ?thesis
      using sub_bal_total [OF a(2)] index_log_total [OF a(3)] a(1)
      by (simp add: minted_def charged_fee_def receipt_fee_def v TransferTx Asset_checked_add_iff)
  qed
qed

section \<open>Accounts that do not exist stay away\<close>

definition created :: "receipt \<Rightarrow> account_id list" where
  "created r = (case rc_tx r of TxV0 t \<Rightarrow> (case t of CreateAccountTx t \<Rightarrow> [acc_id (ca_account t)] | _ \<Rightarrow> []))"

definition absent :: "'db ext \<Rightarrow> 'db \<Rightarrow> write_batch \<Rightarrow> account_id \<Rightarrow> bool" where
  "absent X db b i \<longleftrightarrow> (batch_account X db b i :: unit fail + account option) = Inr None"

lemma absent_put: "absent X db (put_account_mut b j acc) i \<longleftrightarrow> i \<noteq> j \<and> absent X db b i"
  by (simp add: absent_def)

lemma present_not_absent:
  "(batch_account X db b j :: 'e fail + account option) = Inr (Some acc) \<Longrightarrow> absent X db b i \<Longrightarrow> i \<noteq> j"
  by (auto simp: absent_def dest: batch_account_retype [where 'f = unit])

lemma add_bal_absent: "add_bal X db b j a = (Inr b' :: 'e fail + _) \<Longrightarrow> absent X db b i \<Longrightarrow> absent X db b' i"
  by (elim add_bal_Inr) (auto simp: absent_put dest: present_not_absent)

lemma sub_bal_absent: "sub_bal X db b j a = (Inr b' :: 'e fail + _) \<Longrightarrow> absent X db b i \<Longrightarrow> absent X db b' i"
  by (elim sub_bal_Inr) (auto simp: absent_put dest: present_not_absent)

lemma get_mut_absent:
  "get_account_mut X db b j = (Inr (acc, b') :: 'e fail + _) \<Longrightarrow> absent X db b i \<Longrightarrow> absent X db b' i \<and> i \<noteq> j"
  by (auto simp: get_account_mut_eq absent_put split: sum.splits option.splits if_splits dest: present_not_absent)

lemma index_log_absent:
  "index_log X db j es b = (Inr b' :: 'e fail + _) \<Longrightarrow> absent X db b i \<Longrightarrow> absent X db b' i"
proof (induction es arbitrary: b)
  case (Cons e es)
  obtain b1 where b1: "index_log_entry X db j b e = (Inr b1 :: 'e fail + _)"
    "index_log X db j es b1 = (Inr b' :: 'e fail + _)"
    using Cons.prems(1) by (auto simp: fallible_iffs)
  have "absent X db b1 i"
    using b1(1) Cons.prems(2)
    by (cases e) (auto simp: index_log_entry_def fallible_iffs Let_def absent_put
        dest: add_bal_absent dest!: get_mut_absent)
  then show ?case using Cons.IH b1(2) by blast
qed simp

lemma absent_fields [simp]:
  "absent X db (b\<lparr>wb_owner := t\<rparr>) i = absent X db b i"
  "absent X db (b\<lparr>wb_token_supply := s\<rparr>) i = absent X db b i"
  by (simp_all add: absent_def)

lemma index_receipt_absent:
  assumes "index_receipt X db b r = (Inr b' :: 'e fail + _)" "absent X db b i" "i \<notin> set (created r)"
  shows "absent X db b' i"
proof -
  obtain v where v: "rc_tx r = TxV0 v" by (cases "rc_tx r")
  show ?thesis
    using assms
    by (cases v) (auto simp: index_receipt_def v created_def fallible_iffs absent_put insert_account_eq
        add_token_supply_eq dest!: set_owner_Inr get_mut_absent
        dest: sub_bal_absent add_bal_absent index_log_absent)
qed

section \<open>What indexing leaves alone\<close>

definition same_rest :: "write_batch \<Rightarrow> write_batch \<Rightarrow> bool" where
  "same_rest b b' \<longleftrightarrow> wb_token_supply b' = wb_token_supply b \<and> wb_owner b' = wb_owner b \<and>
     wb_chain_height b' = wb_chain_height b \<and> wb_block_byte_pos b' = wb_block_byte_pos b \<and>
     (wf_batch b \<longrightarrow> wf_batch b')"

lemma same_rest_refl: "same_rest b b"
  by (simp add: same_rest_def)

lemma same_rest_trans: "same_rest a b \<Longrightarrow> same_rest b c \<Longrightarrow> same_rest a c"
  by (simp add: same_rest_def)

lemma put_supply [simp]: "wb_token_supply (put_account_mut b i acc) = wb_token_supply b"
  by (simp add: put_account_mut_def)

lemma put_rest: "wf_account acc \<or> \<not> wf_batch b \<Longrightarrow> same_rest b (put_account_mut b i acc)"
  by (auto simp: same_rest_def)

lemma add_bal_rest: "add_bal X db b i a = (Inr b' :: 'e fail + _) \<Longrightarrow> same_rest b b'"
  by (elim add_bal_Inr) (auto intro!: put_rest dest: batch_account_wf)

lemma sub_bal_rest: "sub_bal X db b i a = (Inr b' :: 'e fail + _) \<Longrightarrow> same_rest b b'"
  by (elim sub_bal_Inr) (auto intro!: put_rest dest: batch_account_wf)

lemma get_mut_rest:
  assumes "get_account_mut X db b i = (Inr (acc, b') :: 'e fail + _)"
  shows "same_rest b b'" "wf_batch b \<Longrightarrow> wf_account acc"
proof -
  have acc: "(batch_account X db b i :: 'e fail + _) = Inr (Some acc)" and "b' = put_account_mut b i acc \<or> b' = b"
    using assms by (auto simp: get_account_mut_eq split: sum.splits option.splits if_splits)
  moreover have w: "wf_account acc" if "wf_batch b"
    using batch_account_wf [OF acc that] .
  ultimately show "same_rest b b'"
    by (auto intro!: put_rest same_rest_refl)
  show "wf_batch b \<Longrightarrow> wf_account acc" by (rule w)
qed

lemma index_log_rest: "index_log X db i es b = (Inr b' :: 'e fail + _) \<Longrightarrow> same_rest b b'"
proof (induction es arbitrary: b)
  case (Cons e es)
  obtain b1 where b1: "index_log_entry X db i b e = (Inr b1 :: 'e fail + _)"
    "index_log X db i es b1 = (Inr b' :: 'e fail + _)"
    using Cons.prems by (auto simp: fallible_iffs)
  have "same_rest b b1"
  proof (cases e)
    case (LogTransfer to a)
    then show ?thesis using b1(1) by (auto simp: index_log_entry_def intro: add_bal_rest)
  next
    case (LogDestroy to)
    then obtain acc b2 where b2: "get_account_mut X db b i = (Inr (acc, b2) :: 'e fail + _)"
      "add_bal X db (put_account_mut b2 i (acc\<lparr>destroyed := True, balance := Asset 0\<rparr>)) to (balance acc) =
        (Inr b1 :: 'e fail + _)"
      using b1(1) by (auto simp: index_log_entry_def fallible_iffs Let_def)
    have "wf_account (acc\<lparr>destroyed := True, balance := Asset 0\<rparr>) \<or> \<not> wf_batch b2"
      if "wf_batch b"
      using get_mut_rest(2) [OF b2(1) that] by (simp add: wf_account_def)
    then show ?thesis
      using get_mut_rest(1) [OF b2(1)] add_bal_rest [OF b2(2)] put_rest [of _ b2 i]
      unfolding same_rest_def by (simp add: put_account_mut_def)
  qed
  then show ?case using Cons.IH [OF b1(2)] same_rest_trans by blast
qed (simp add: same_rest_refl)

lemma wf_apply_update:
  "wf_body (UpdateAccountTx t) \<Longrightarrow> wf_account acc \<Longrightarrow> wf_account (apply_update t (acc\<lparr>balance := b\<rparr>))"
  by (auto simp: wf_body_def apply_update_def Let_def wf_account_def split: option.splits)

text \<open>The effect of a receipt on everything but the accounts.\<close>

lemma index_receipt_rest:
  assumes "index_receipt X db b r = (Inr b' :: 'e fail + _)"
  shows "wb_chain_height b' = wb_chain_height b" "wb_block_byte_pos b' = wb_block_byte_pos b"
    and "wf_batch b \<Longrightarrow> wf_receipt r \<Longrightarrow> wf_batch b'"
    and "wb_owner b' = (if is_owner_tx (rc_tx r) then Some (rc_tx r) else wb_owner b)"
    and "batch_supply X db b = (Inr s :: 'e fail + _) \<Longrightarrow>
      \<exists>s'. batch_supply X db b' = (Inr s' :: 'e fail + _) \<and> amt s' = amt s + minted r"
proof -
  obtain v where v: "rc_tx r = TxV0 v" by (cases "rc_tx r")
  have "wb_chain_height b' = wb_chain_height b \<and> wb_block_byte_pos b' = wb_block_byte_pos b \<and>
    (wf_batch b \<longrightarrow> wf_receipt r \<longrightarrow> wf_batch b') \<and>
    wb_owner b' = (if is_owner_tx (rc_tx r) then Some (rc_tx r) else wb_owner b) \<and>
    (batch_supply X db b = (Inr s :: 'e fail + _) \<longrightarrow>
      (\<exists>s'. batch_supply X db b' = (Inr s' :: 'e fail + _) \<and> amt s' = amt s + minted r))"
  proof (cases v)
    case (OwnerTx t)
    then have "b' = b\<lparr>wb_owner := Some (rc_tx r)\<rparr>" "is_owner_tx (rc_tx r)"
      using assms by (auto simp: index_receipt_def v dest: set_owner_Inr)
    then show ?thesis
      using OwnerTx by (auto simp: v minted_def wf_receipt_def batch_supply_def wf_batch_def)
  next
    case (MintTx t)
    then obtain s0 b1 a where m: "batch_supply X db b = (Inr s0 :: 'e fail + _)"
      "Asset_checked_add s0 (mint_amount t) = Some a" "b1 = b\<lparr>wb_token_supply := Some a\<rparr>"
      "add_bal X db b1 (mint_to t) (mint_amount t) = (Inr b' :: 'e fail + _)"
      using assms by (auto simp: index_receipt_def v fallible_iffs add_token_supply_eq)
    then show ?thesis
      using add_bal_rest [OF m(4)]
      by (auto simp: v MintTx minted_def same_rest_def batch_supply_def Asset_checked_add_iff split: option.splits)
  next
    case (CreateAccountTx t)
    then obtain a b1 where a: "sub_bal X db b (creator t) a = (Inr b1 :: 'e fail + _)"
      "b' = put_account_mut b1 (acc_id (ca_account t)) (ca_account t)"
      using assms by (auto simp: index_receipt_def v fallible_iffs insert_account_eq)
    then show ?thesis
      using sub_bal_rest [OF a(1)]
      by (auto simp: v CreateAccountTx minted_def same_rest_def wf_receipt_def wf_body_def batch_supply_def)
  next
    case (UpdateAccountTx t)
    then obtain acc b1 bal where u: "get_account_mut X db b (ua_account_id t) = (Inr (acc, b1) :: 'e fail + _)"
      "b' = put_account_mut b1 (ua_account_id t) (apply_update t (acc\<lparr>balance := bal\<rparr>))"
      using assms by (auto simp: index_receipt_def v fallible_iffs)
    then show ?thesis
      using get_mut_rest [OF u(1)] wf_apply_update [of t acc bal]
      by (auto simp: v UpdateAccountTx minted_def same_rest_def wf_receipt_def batch_supply_def)
  next
    case (TransferTx t)
    then obtain a b1 where a: "sub_bal X db b (tr_from t) a = (Inr b1 :: 'e fail + _)"
      "index_log X db (tr_from t) (rc_log r) b1 = (Inr b' :: 'e fail + _)"
      using assms by (auto simp: index_receipt_def v fallible_iffs)
    then show ?thesis
      using same_rest_trans [OF sub_bal_rest [OF a(1)] index_log_rest [OF a(2)]]
      by (auto simp: v TransferTx minted_def same_rest_def batch_supply_def)
  qed
  then show "wb_chain_height b' = wb_chain_height b" "wb_block_byte_pos b' = wb_block_byte_pos b"
    "wf_batch b \<Longrightarrow> wf_receipt r \<Longrightarrow> wf_batch b'"
    "wb_owner b' = (if is_owner_tx (rc_tx r) then Some (rc_tx r) else wb_owner b)"
    "batch_supply X db b = (Inr s :: 'e fail + _) \<Longrightarrow>
      \<exists>s'. batch_supply X db b' = (Inr s' :: 'e fail + _) \<and> amt s' = amt s + minted r"
    by blast+
qed

section \<open>Blocks\<close>

definition fresh_creates :: "'db ext \<Rightarrow> 'db \<Rightarrow> write_batch \<Rightarrow> receipt list \<Rightarrow> bool" where
  "fresh_creates X db b rs \<longleftrightarrow>
     distinct (concat (map created rs)) \<and> list_all (absent X db b) (concat (map created rs))"

definition log_matches :: "receipt \<Rightarrow> bool" where
  "log_matches r = (case rc_tx r of TxV0 t \<Rightarrow>
     (case t of TransferTx t \<Rightarrow> log_amt (rc_log r) = amt (tr_amount t) | _ \<Rightarrow> True))"

lemma conserving_iff: "conserving X db b r \<longleftrightarrow> log_matches r \<and> list_all (absent X db b) (created r)"
  by (auto simp: conserving_def log_matches_def created_def absent_def split: tx_variant.splits tx_variant_v0.splits)

lemma index_receipts_totals:
  "index_receipts X db rs b = (Inr b' :: 'e fail + _) \<Longrightarrow> fresh_creates X db b rs \<Longrightarrow> list_all log_matches rs \<Longrightarrow>
   batch_supply X db b = (Inr s :: 'e fail + _) \<Longrightarrow>
   total_bal X db b' = total_bal X db b + sum_list (map minted rs) - sum_list (map charged_fee rs) \<and>
   (\<exists>s'. batch_supply X db b' = (Inr s' :: 'e fail + _) \<and> amt s' = amt s + sum_list (map minted rs))"
proof (induction rs arbitrary: b s)
  case (Cons r rs)
  obtain b1 where b1: "index_receipt X db b r = (Inr b1 :: 'e fail + _)"
    "index_receipts X db rs b1 = (Inr b' :: 'e fail + _)"
    using Cons.prems(1) by (auto simp: fallible_iffs)
  have "conserving X db b r"
    using Cons.prems(2,3) by (simp add: conserving_iff fresh_creates_def)
  note t = index_receipt_total [OF b1(1) this]
  obtain s1 where s1: "batch_supply X db b1 = (Inr s1 :: 'e fail + _)" "amt s1 = amt s + minted r"
    using index_receipt_rest(5) [OF b1(1) Cons.prems(4)] by blast
  have "fresh_creates X db b1 rs"
    using Cons.prems(2) index_receipt_absent [OF b1(1)]
    by (fastforce simp: fresh_creates_def list_all_iff)
  from Cons.IH [OF b1(2) this _ s1(1)] Cons.prems(3) show ?case
    using t s1(2) by auto
qed simp

lemma index_block_totals:
  assumes "index_block X c b block = (Inr b' :: 'e fail + _)" "fresh_creates X (bc_db c) b (Block_receipts block)"
    and "list_all log_matches (Block_receipts block)" "batch_supply X (bc_db c) b = (Inr s :: 'e fail + _)"
  shows "total_bal X (bc_db c) b' = total_bal X (bc_db c) b + sum_list (map minted (Block_receipts block)) -
      sum_list (map charged_fee (Block_receipts block)) + amt (Block_rewards block) \<and>
    (\<exists>s'. batch_supply X (bc_db c) b' = (Inr s' :: 'e fail + _) \<and>
      amt s' = amt s + sum_list (map minted (Block_receipts block)))"
proof -
  obtain b1 ow where b1: "index_receipts X (bc_db c) (Block_receipts block) b = (Inr b1 :: 'e fail + _)"
    "add_bal X (bc_db c) b1 (wallet ow) (Block_rewards block) = (Inr b' :: 'e fail + _)"
    "(case wb_owner b1 of Some t \<Rightarrow> Inr t | None \<Rightarrow> chain_get_owner X c) =
      (Inr (TxV0 (OwnerTx ow)) :: 'e fail + _)"
    using assms(1) by (rule index_block_Inr)
  have "batch_supply X (bc_db c) b' = (batch_supply X (bc_db c) b1 :: 'e fail + _)"
    using add_bal_rest [OF b1(2)] by (simp add: same_rest_def batch_supply_def)
  then show ?thesis
    using index_receipts_totals [OF b1(1) assms(2-4)] add_bal_total [OF b1(2)] by simp
qed

end
