(* ===== verification/Chain_Steps.thy ===== *)
theory Chain_Steps
  imports Supply
begin

text \<open>
  The life of a chain: \<open>insert_block\<close> appends a block to the list of blocks the state represents,
  and every state reachable from a genesis block represents a chain of linked, signed blocks of
  consecutive heights, in the log, in the index and in the cache alike.
\<close>

section \<open>Indexing a block\<close>

lemma index_receipts_rest:
  "index_receipts X db rs b = (Inr b' :: 'e fail + _) \<Longrightarrow>
    wb_chain_height b' = wb_chain_height b \<and> wb_block_byte_pos b' = wb_block_byte_pos b \<and>
    (wf_batch b \<longrightarrow> list_all wf_receipt rs \<longrightarrow> wf_batch b')"
proof (induction rs arbitrary: b)
  case (Cons r rs)
  obtain b1 where b1: "index_receipt X db b r = (Inr b1 :: 'e fail + _)"
    "index_receipts X db rs b1 = (Inr b' :: 'e fail + _)"
    using Cons.prems by (auto simp: fallible_iffs)
  then show ?case
    using Cons.IH [OF b1(2)] index_receipt_rest(1-3) [OF b1(1)] by simp
qed simp

lemma index_block_rest:
  assumes "index_block X c b block = (Inr b' :: 'e fail + _)"
  shows "wb_chain_height b' = wb_chain_height b" "wb_block_byte_pos b' = wb_block_byte_pos b"
    "wf_batch b \<Longrightarrow> list_all wf_receipt (Block_receipts block) \<Longrightarrow> wf_batch b'"
proof -
  obtain b1 ow where b1: "index_receipts X (bc_db c) (Block_receipts block) b = (Inr b1 :: 'e fail + _)"
    "add_bal X (bc_db c) b1 (wallet ow) (Block_rewards block) = (Inr b' :: 'e fail + _)"
    "(case wb_owner b1 of Some t \<Rightarrow> Inr t | None \<Rightarrow> chain_get_owner X c) =
      (Inr (TxV0 (OwnerTx ow)) :: 'e fail + _)"
    using assms(1) by (rule index_block_Inr)
  show "wb_chain_height b' = wb_chain_height b" "wb_block_byte_pos b' = wb_block_byte_pos b"
    "wf_batch b \<Longrightarrow> list_all wf_receipt (Block_receipts block) \<Longrightarrow> wf_batch b'"
    using index_receipts_rest [OF b1(1)] add_bal_rest [OF b1(2)] by (simp_all add: same_rest_def)
qed

section \<open>Inserting a block\<close>

text \<open>Room for one more block: offsets and heights stay within a \<open>u64\<close>.\<close>

definition room :: "'db ext \<Rightarrow> 'db blockchain \<Rightarrow> block \<Rightarrow> bool" where
  "room X c b \<longleftrightarrow> length (st_file (bc_store c)) + length (disk_record X b) < 2 ^ 64 \<and>
     unat (st_height (bc_store c)) + 2 < 2 ^ 64"

definition link_ok :: "'db ext \<Rightarrow> block \<Rightarrow> block \<Rightarrow> bool" where
  "link_ok X prev b \<longleftrightarrow> Block_height b = Block_height prev + 1 \<and> verify_previous_hash X b prev \<and>
     verify_receipt_root X b \<and>
     (\<exists>sp. Block_signer b = Some sp \<and> SigPair_verify X sp (digest_bytes (calc_header_hash X b)))"

lemma verified_block_stored:
  assumes "chain_repr X c bs" "verify_block X c b (last bs) = Inr ()"
    and "index_block X c WriteBatch_new b = (Inr batch :: block_err fail + _)"
    and "db_ok X" "storable b" "room X c b"
  obtains st' bt' where "store_insert X (bc_store c) batch b = (Inr (st', bt') :: block_err fail + _)"
    "bt' = record_block batch (of_nat (length bs)) (of_nat (length (log_bytes X bs)))"
    "store_repr X (commit X (bc_db c) bt') st' (bs @ [b])" "wf_batch batch" "link_ok X (last bs) b"
proof -
  have r: "store_repr X (bc_db c) (bc_store c) bs" using assms(1) by (simp add: chain_repr_def)
  have len: "0 < length bs" "length bs < 2 ^ 64" using chain_repr_length [OF assms(1)] by simp_all
  obtain sp ow where v: "Block_height b = Block_height (last bs) + 1" "verify_receipt_root X b"
    "verify_previous_hash X b (last bs)" "Block_signer b = Some sp"
    "chain_get_owner X c = (Inr (TxV0 (OwnerTx ow)) :: block_err fail + _)" "pub_key sp = minter ow"
    "SigPair_verify X sp (digest_bytes (calc_header_hash X b))"
    "verify_receipts X c [] (Block_receipts b) = Inr ()"
    using assms(2) by (rule verify_block_Inr)
  have link: "link_ok X (last bs) b"
    using v by (simp add: link_ok_def)
  have "Block_height (last bs) = of_nat (length bs - 1)"
    using r len(1) by (simp add: last_conv_nth store_repr_def chain_ok_def)
  then have h: "Block_height b = of_nat (length bs)"
    using v(1) len(1) by (cases bs) simp_all
  have wf: "wf_batch batch"
    using index_block_rest(3) [OF assms(3)] assms(5) by (simp add: storable_def wf_block_def)
  have pos: "wb_block_byte_pos batch = []"
    using index_block_rest(2) [OF assms(3)] by (simp add: WriteBatch_new_def)
  have "length bs - 1 + 2 < 2 ^ 64"
    using assms(6) unfolding room_def store_repr_height [OF r] by simp
  then have b1: "length bs + 1 < 2 ^ 64" using len(1) by linarith
  have b2: "length (log_bytes X (bs @ [b])) < 2 ^ 64"
    using assms(6) r by (simp add: room_def store_repr_def)
  show ?thesis
    using store_insert_repr [OF r assms(5) h b1 b2 assms(4) wf pos] that wf link by metis
qed

lemma insert_block_repr:
  assumes "chain_repr X c bs" "insert_block X c b = Inr c'" "db_ok X" "storable b" "room X c b"
  shows "chain_repr X c' (bs @ [b])" "link_ok X (last bs) b"
    and "\<exists>batch. index_block X c WriteBatch_new b = (Inr batch :: block_err fail + _) \<and> wf_batch batch \<and>
      (\<forall>i. idx_get_account X (bc_db c') i = (batch_account X (bc_db c) batch i :: 'e fail + _)) \<and>
      get_token_supply X (bc_db c') = (batch_supply X (bc_db c) batch :: 'e fail + _) \<and>
      (get_owner X (bc_db c') :: 'e fail + _) =
        (case wb_owner batch of Some t \<Rightarrow> Inr (Some t) | None \<Rightarrow> get_owner X (bc_db c))"
proof -
  obtain prev batch store batch' where i: "get_chain_head X c = (Inr prev :: block_err fail + _)"
    "verify_block X c b prev = Inr ()"
    "index_block X c WriteBatch_new b = (Inr batch :: block_err fail + _)"
    "store_insert X (bc_store c) batch b = (Inr (store, batch') :: block_err fail + _)"
    "c' = \<lparr>bc_db = commit X (bc_db c) batch', bc_store = store\<rparr>"
    using assms(2) by (rule insert_block_Inr)
  have prev: "prev = last bs"
    using i(1) by (simp add: get_chain_head_repr [OF assms(1)])
  obtain st' bt' where s: "store_insert X (bc_store c) batch b = (Inr (st', bt') :: block_err fail + _)"
    "bt' = record_block batch (of_nat (length bs)) (of_nat (length (log_bytes X bs)))"
    "store_repr X (commit X (bc_db c) bt') st' (bs @ [b])" "wf_batch batch" "link_ok X (last bs) b"
    using assms(1) i(2) [unfolded prev] i(3) assms(3-5) by (rule verified_block_stored)
  show "link_ok X (last bs) b" by (rule s(5))
  have c': "c' = \<lparr>bc_db = commit X (bc_db c) bt', bc_store = st'\<rparr>"
    using i(4,5) s(1) by simp
  have wf': "wf_batch bt'" using s(4) by (simp add: s(2))
  show "chain_repr X c' (bs @ [b])"
    using s(3) by (simp add: chain_repr_def c' height_stored_def commit_default [OF assms(3)] s(2))
  show "\<exists>batch. index_block X c WriteBatch_new b = (Inr batch :: block_err fail + _) \<and> wf_batch batch \<and>
      (\<forall>i. idx_get_account X (bc_db c') i = (batch_account X (bc_db c) batch i :: 'e fail + _)) \<and>
      get_token_supply X (bc_db c') = (batch_supply X (bc_db c) batch :: 'e fail + _) \<and>
      (get_owner X (bc_db c') :: 'e fail + _) =
        (case wb_owner batch of Some t \<Rightarrow> Inr (Some t) | None \<Rightarrow> get_owner X (bc_db c))"
    using i(3) s(4) by (intro exI [of _ batch])
      (simp add: c' idx_get_account_commit [OF assms(3) wf'] get_token_supply_commit [OF assms(3)]
        get_owner_commit [OF assms(3) wf'], simp add: s(2))
qed

text \<open>A block that verifies and indexes is inserted: storing it does not fail.\<close>

lemma insert_block_total:
  assumes "chain_repr X c bs" "verify_block X c b (last bs) = Inr ()"
    and "index_block X c WriteBatch_new b = (Inr batch :: block_err fail + _)"
    and "db_ok X" "storable b" "room X c b"
  shows "\<exists>c'. insert_block X c b = Inr c'"
proof -
  obtain st' bt' where s: "store_insert X (bc_store c) batch b = (Inr (st', bt') :: block_err fail + _)"
    "bt' = record_block batch (of_nat (length bs)) (of_nat (length (log_bytes X bs)))"
    "store_repr X (commit X (bc_db c) bt') st' (bs @ [b])" "wf_batch batch" "link_ok X (last bs) b"
    using assms by (rule verified_block_stored)
  show ?thesis
    by (simp add: insert_block_def get_chain_head_repr [OF assms(1)] assms(2,3) s(1))
qed

section \<open>Reachable states\<close>

text \<open>A block arrives with the receipts and the signature it was decoded with.\<close>

inductive chain_step :: "'db ext \<Rightarrow> 'db blockchain \<Rightarrow> 'db blockchain \<Rightarrow> bool" for X where
  insert: "insert_block X c b = Inr c' \<Longrightarrow> storable b \<Longrightarrow> room X c b \<Longrightarrow> chain_step X c c'"
| accept_tx: "chain_step X c (c\<lparr>bc_db := insert_txid X (bc_db c) i e\<rparr>)"

inductive_cases chain_stepE: "chain_step X c c'"

text \<open>Every two neighbours are linked.\<close>

definition linked :: "'db ext \<Rightarrow> block list \<Rightarrow> bool" where
  "linked X bs \<longleftrightarrow> (\<forall>i < length bs - 1. link_ok X (bs ! i) (bs ! Suc i))"

lemma linked_snoc:
  assumes "bs \<noteq> []"
  shows "linked X (bs @ [b]) \<longleftrightarrow> linked X bs \<and> link_ok X (last bs) b"
proof -
  obtain n where n: "length bs = Suc n" using assms by (cases bs) auto
  have "linked X (bs @ [b]) \<longleftrightarrow> (\<forall>i < Suc n. link_ok X ((bs @ [b]) ! i) ((bs @ [b]) ! Suc i))"
    by (simp add: linked_def n)
  also have "\<dots> \<longleftrightarrow> link_ok X (bs ! n) b \<and> (\<forall>i < n. link_ok X (bs ! i) (bs ! Suc i))"
    by (simp add: All_less_Suc nth_append n)
  finally show ?thesis
    using assms by (auto simp: linked_def last_conv_nth n)
qed

lemma insert_txid_positions: "db_ok X \<Longrightarrow>
    db_get X (insert_txid X db i e) CF_BLOCK_BYTE_POS k = db_get X db CF_BLOCK_BYTE_POS k"
  by (simp add: insert_txid_def db_get_write)

lemma chain_repr_insert_txid:
  assumes "db_ok X" "chain_repr X c bs"
  shows "chain_repr X (c\<lparr>bc_db := insert_txid X (bc_db c) i e\<rparr>) bs"
  using assms
  by (simp add: chain_repr_def store_repr_def positions_ok_def insert_txid_positions height_stored_def)
    (simp add: insert_txid_def db_get_write)

lemma chain_step_repr:
  assumes "db_ok X" "chain_step X c c'" "chain_repr X c bs" "linked X bs"
  shows "\<exists>bs'. chain_repr X c' bs' \<and> linked X bs' \<and> (bs' = bs \<or> (\<exists>b. bs' = bs @ [b]))"
  using assms(2)
proof cases
  case (insert b)
  note r = insert_block_repr [OF assms(3) insert(1) assms(1) insert(2,3)]
  have "bs \<noteq> []" using chain_repr_length [OF assms(3)] by auto
  then have "linked X (bs @ [b])"
    using r(2) assms(4) by (simp add: linked_snoc)
  then show ?thesis using r(1) by blast
next
  case (accept_tx i e)
  then show ?thesis using chain_repr_insert_txid [OF assms(1,3)] assms(4) by blast
qed

lemma chain_steps_repr:
  assumes "db_ok X" "(chain_step X)\<^sup>*\<^sup>* c c'" "chain_repr X c bs" "linked X bs"
  shows "\<exists>bs'. chain_repr X c' (bs @ bs') \<and> linked X (bs @ bs')"
  using assms(2)
proof (induction rule: rtranclp_induct)
  case base
  show ?case using assms(3,4) by (intro exI [of _ "[]"]) simp
next
  case (step c1 c2)
  then obtain bs1 where "chain_repr X c1 (bs @ bs1)" "linked X (bs @ bs1)" by blast
  from chain_step_repr [OF assms(1) step(2) this] show ?case
    by (metis append.assoc)
qed

section \<open>Genesis\<close>

text \<open>An empty node: nothing in the log, nothing in the index.\<close>

definition empty_node :: "'db ext \<Rightarrow> 'db blockchain \<Rightarrow> bool" where
  "empty_node X c \<longleftrightarrow> bc_store c = \<lparr>st_height = 0, st_blocks = [], st_genesis = None, st_file = [], st_byte_pos_tail = 0\<rparr> \<and>
     (\<forall>cf k. db_get X (bc_db c) cf k = None)"

lemma Blockchain_new_empty:
  assumes "\<And>cf k. db_get X db cf k = None"
  shows "Blockchain_new X db [] = Inr \<lparr>bc_db = db, bc_store = \<lparr>st_height = 0, st_blocks = [],
    st_genesis = None, st_file = [], st_byte_pos_tail = 0\<rparr>\<rparr>"
  by (simp add: Blockchain_new_def BlockStore_new_def init_state_def get_chain_height_def assms
      store_get_def read_from_disk_def get_block_byte_pos_def store_is_empty_def)

lemma Block_height_genesis [simp]: "Block_height (genesis_block X now info) = 0"
  by (simp add: genesis_block_def Let_def) (simp add: Block_height_def)

lemma set_index_status_get:
  assumes "db_ok X"
  shows "db_get X (set_index_status X db s) cf k =
    (if cf = CF_DEFAULT \<and> k = KEY_INDEX_STATUS
     then Some [case s of StatusNone \<Rightarrow> 0 | StatusPartial \<Rightarrow> 1 | StatusComplete \<Rightarrow> 2]
     else db_get X db cf k)"
  by (auto simp: set_index_status_def db_get_write [OF assms])

lemma get_index_status_set:
  "db_ok X \<Longrightarrow> get_index_status X (set_index_status X db s) = Inr s"
  by (cases s) (simp_all add: get_index_status_def set_index_status_get)

lemma set_index_status_reads:
  assumes "db_ok X"
  shows "idx_get_account X (set_index_status X db s) i = idx_get_account X db i"
    "get_token_supply X (set_index_status X db s) = get_token_supply X db"
    "get_owner X (set_index_status X db s) = get_owner X db"
    "positions_ok X (set_index_status X db s) bs = positions_ok X db bs"
    "height_stored X (set_index_status X db s) n = height_stored X db n"
  by (simp_all add: idx_get_account_def get_token_supply_def get_owner_def positions_ok_def height_stored_def
      set_index_status_get [OF assms])

lemma create_genesis_repr:
  assumes "create_genesis_block X now seeds c mk = (Inr (c', info) :: 'e fail + _)" "empty_node X c" "db_ok X"
    and "storable (genesis_block X now info)" "length (disk_record X (genesis_block X now info)) < 2 ^ 64"
    and "wf_account (genesis_owner_wallet info)" "wf_tx (genesis_owner_tx now info)"
  shows "chain_repr X c' [genesis_block X now info]"
    and "get_owner X (bc_db c') = (Inr (Some (genesis_owner_tx now info)) :: 'f fail + _)"
    and "idx_get_account X (bc_db c') i =
      (Inr (if i = gi_owner_id info then Some (genesis_owner_wallet info) else None) :: 'f fail + _)"
    and "get_token_supply X (bc_db c') = (Inr Asset_default :: 'f fail + _)"
    and "get_index_status X (bc_db c') = (Inr StatusComplete :: 'f fail + _)"
proof -
  let ?g = "genesis_block X now info" and ?w = "genesis_owner_wallet info"
  obtain st b where s: "insert_genesis X (bc_store c) WriteBatch_new ?g = (Inr (st, b) :: 'e fail + _)"
    "c' = \<lparr>bc_db = set_index_status X (commit X (bc_db c)
        (insert_or_update_account (b\<lparr>wb_owner := Some (genesis_owner_tx now info)\<rparr>) ?w)) StatusComplete, bc_store = st\<rparr>"
    using assms(1) by (auto simp: create_genesis_block_def fallible_iffs Let_def dest!: set_owner_Inr(2))
  let ?b0 = "set_block_byte_pos WriteBatch_new 0 0"
  obtain st' where g: "insert_genesis X (bc_store c) WriteBatch_new ?g = (Inr (st', ?b0) :: 'e fail + _)"
    "store_repr X (commit X (bc_db c) ?b0) st' [?g]"
  proof (rule insert_genesis_repr [OF assms(4) Block_height_genesis assms(3) wf_batch_new _ assms(5),
        where st = "bc_store c" and db = "bc_db c" and 'e = 'e])
  qed (use assms(2) in \<open>auto simp: empty_node_def WriteBatch_new_def\<close>)
  have b: "b = ?b0" "st = st'" using s(1) g(1) by simp_all
  let ?b = "put_account_mut (?b0\<lparr>wb_owner := Some (genesis_owner_tx now info)\<rparr>) (acc_id ?w) ?w"
  have c': "c' = \<lparr>bc_db = set_index_status X (commit X (bc_db c) ?b) StatusComplete, bc_store = st'\<rparr>"
    using s(2) by (simp add: b insert_account_eq)
  have wf: "wf_batch ?b"
    using assms(6,7) by (intro put_account_mut_simps) (auto simp: wf_batch_def set_block_byte_pos_def WriteBatch_new_def genesis_owner_tx_def)
  have e: "\<And>cf k. db_get X (bc_db c) cf k = None" using assms(2) by (simp add: empty_node_def)
  have "positions_ok X (commit X (bc_db c) ?b) ([] @ [?g])"
    using wf by (intro positions_ok_commit [OF assms(3)])
      (auto simp: positions_ok_def WriteBatch_new_def set_block_byte_pos_def put_account_mut_def)
  moreover have "height_stored X (commit X (bc_db c) ?b) 0"
    by (simp add: height_stored_def commit_default [OF assms(3)] e) (simp add: WriteBatch_new_def)
  ultimately show "chain_repr X c' [?g]"
    using g(2) by (simp add: chain_repr_def c' store_repr_def set_index_status_reads [OF assms(3)])
  show "get_owner X (bc_db c') = (Inr (Some (genesis_owner_tx now info)) :: 'f fail + _)"
    by (simp add: c' set_index_status_reads [OF assms(3)] get_owner_commit [OF assms(3) wf])
  have "idx_get_account X (bc_db c') i = (batch_account X (bc_db c) ?b i :: 'f fail + _)"
    by (simp add: c' set_index_status_reads [OF assms(3)] idx_get_account_commit [OF assms(3) wf])
  moreover have "acc_id ?w = gi_owner_id info" by (simp add: genesis_owner_wallet_def)
  ultimately show "idx_get_account X (bc_db c') i =
      (Inr (if i = gi_owner_id info then Some ?w else None) :: 'f fail + _)"
    by (simp add: idx_get_account_def e)
  show "get_token_supply X (bc_db c') = (Inr Asset_default :: 'f fail + _)"
    by (simp add: c' set_index_status_reads [OF assms(3)] get_token_supply_commit [OF assms(3)])
      (simp add: get_token_supply_def e)
  show "get_index_status X (bc_db c') = (Inr StatusComplete :: 'f fail + _)"
    by (simp add: c' get_index_status_set [OF assms(3)])
qed

end
