(* ===== verification/Pool.thy ===== *)
theory Pool
  imports Same_Reads Chain_Steps
begin

text \<open>
  The receipt pool of \<open>blockchain/receipt.rs\<close> and the minter of the server,
  \<open>server/minter.rs\<close>: accepting a transaction into the pool, and producing a block from it.  The
  pool and the minter share the chain; time is a parameter.  An operation that can fail after it
  changed the state returns both the result and the state.
\<close>

section \<open>The receipt pool\<close>

record 'db receipt_pool =
  rp_chain :: "'db blockchain"
  rp_receipts :: "receipt list"

definition ReceiptPool_new :: "'db blockchain \<Rightarrow> 'db receipt_pool" where
  "ReceiptPool_new chain = \<lparr>rp_chain = chain, rp_receipts = []\<rparr>"

definition pool_get_account_info :: "'db ext \<Rightarrow> 'db receipt_pool \<Rightarrow> account_id \<Rightarrow> 'e fail + account_info option" where
  "pool_get_account_info X self i = get_account_info X (rp_chain self) i (rp_receipts self)"

definition pool_push :: "'db ext \<Rightarrow> u64 \<Rightarrow> 'db receipt_pool \<Rightarrow> tx_precomp_data \<Rightarrow> tx_err fail + 'db receipt_pool" where
  "pool_push X now self data =
     (let e = tx_expiry (pd_tx data)
      in if e \<le> now \<or> e - now > TX_MAX_EXPIRY_TIME then Inl (Err TxExpired)
         else if has_txid X (bc_db (rp_chain self)) (pd_txid data) then Inl (Err TxDupe)
         else
           and_then (execute_tx X (rp_chain self) data (rp_receipts self)) (\<lambda>log.
             Inr (self\<lparr>rp_chain := (rp_chain self)\<lparr>bc_db := insert_txid X (bc_db (rp_chain self)) (pd_txid data) e\<rparr>,
                       rp_receipts := rp_receipts self @ [\<lparr>rc_tx = pd_tx data, rc_log = log\<rparr>]\<rparr>)))"

definition pool_flush :: "'db ext \<Rightarrow> u64 \<Rightarrow> 'db receipt_pool \<Rightarrow> 'e fail + (receipt list \<times> 'db receipt_pool)" where
  "pool_flush X now self =
     (let rcs = rp_receipts self; self = self\<lparr>rp_receipts := []\<rparr>
      in and_then (purge_expired_txids X now (bc_db (rp_chain self))) (\<lambda>db.
           Inr (rcs, self\<lparr>rp_chain := (rp_chain self)\<lparr>bc_db := db\<rparr>\<rparr>)))"

section \<open>The minter\<close>

record 'db minter =
  mt_pool :: "'db receipt_pool"
  mt_key :: key_pair
  mt_enable_stale :: bool

definition Minter_new :: "'db ext \<Rightarrow> 'db blockchain \<Rightarrow> key_pair \<Rightarrow> bool \<Rightarrow> 'e fail + 'db minter" where
  "Minter_new X chain mk enable_stale =
     and_then (chain_get_owner X chain) (\<lambda>owner.
       case owner of
         TxV0 (OwnerTx t) \<Rightarrow>
           if minter t \<noteq> kp_public mk then Inl Panic
           else Inr \<lparr>mt_pool = ReceiptPool_new chain, mt_key = mk, mt_enable_stale = enable_stale\<rparr>
       | _ \<Rightarrow> Inl Panic)"

definition should_produce :: "'db ext \<Rightarrow> 'db minter \<Rightarrow> bool \<Rightarrow> receipt list \<Rightarrow> 'e fail + bool" where
  "should_produce X self force rcs =
     (if force \<or> mt_enable_stale self \<or> rcs \<noteq> [] then Inr True
      else and_then (get_chain_head X (rp_chain (mt_pool self))) (\<lambda>current_head.
        Inr (Block_receipts current_head \<noteq> [])))"

text \<open>\<open>produce\<close>: the block for the subscribers, when there is one, and the new state.  The pool is
  empty afterwards even when the block is refused.\<close>

definition produce :: "'db ext \<Rightarrow> u64 \<Rightarrow> u64 \<Rightarrow> bool \<Rightarrow> 'db minter \<Rightarrow> (block_err fail + block option) \<times> 'db minter" where
  "produce X now child_time force self =
     (case pool_flush X now (mt_pool self) of
        Inl e \<Rightarrow> (Inl e, self)
      | Inr (rcs, pool) \<Rightarrow>
          let self = self\<lparr>mt_pool := pool\<rparr>
          in (case and_then (should_produce X self force rcs) (\<lambda>go.
                if \<not> go then Inr None
                else
                  and_then (get_chain_head X (rp_chain pool)) (\<lambda>head_block.
                  and_then (new_child X child_time (block_v0 head_block) rcs) (\<lambda>b.
                  let block = Block_sign X b (mt_key self)
                  in and_then (insert_block X (rp_chain pool) block) (\<lambda>chain. Inr (Some (block, chain)))))) of
                Inl e \<Rightarrow> (Inl e, self)
              | Inr None \<Rightarrow> (Inr None, self)
              | Inr (Some (block, chain)) \<Rightarrow> (Inr (Some block), self\<lparr>mt_pool := pool\<lparr>rp_chain := chain\<rparr>\<rparr>)))"

definition minter_push_tx :: "'db ext \<Rightarrow> u64 \<Rightarrow> 'db minter \<Rightarrow> tx_variant \<Rightarrow> tx_err fail + 'db minter" where
  "minter_push_tx X now self t =
     and_then (pool_push X now (mt_pool self) (TxPrecompData_from_tx X t)) (\<lambda>pool.
       Inr (self\<lparr>mt_pool := pool\<rparr>))"

definition minter_get_account_info :: "'db ext \<Rightarrow> 'db minter \<Rightarrow> account_id \<Rightarrow> tx_err fail + account_info" where
  "minter_get_account_info X self i =
     and_then (pool_get_account_info X (mt_pool self) i) (\<lambda>r. ok_or r (Err Arithmetic))"

section \<open>What verification of the receipts establishes\<close>

lemma verify_receipts_append:
  "verify_receipts X c before (rs @ rs') =
    and_then (verify_receipts X c before rs) (\<lambda>_. verify_receipts X c (before @ rs) rs')"
  by (induction rs arbitrary: before) (simp_all add: and_then_assoc)

lemma check_Inr: "check bad e = Inr u \<longleftrightarrow> \<not> bad"
  by (simp add: check_def)

lemma execute_tx_fee_free:
  assumes "execute_tx X c data rs = Inr log" "rc_tx r = pd_tx data"
  shows "charged_fee r = receipt_fee r"
proof -
  obtain v where "pd_tx data = TxV0 v" by (cases "pd_tx data")
  then show ?thesis
    using assms
    by (cases v) (auto simp: execute_tx_def execute_owner_tx_def execute_mint_tx_def charged_fee_def
        receipt_fee_def fallible_iffs check_Inr amt_def split: if_splits)
qed

lemma execute_tx_log_matches:
  assumes "execute_tx X c data rs = Inr log"
  shows "log_matches \<lparr>rc_tx = pd_tx data, rc_log = log\<rparr>"
proof -
  obtain v where v: "pd_tx data = TxV0 v" by (cases "pd_tx data")
  show ?thesis
  proof (cases v)
    case (TransferTx t)
    then obtain scr where "0 \<le> amt (tr_amount t)" "run_script X c scr data rs = Inr log"
      using assms v by (auto simp: execute_tx_def execute_transfer_tx_def fallible_iffs check_Inr split: if_splits)
    then have "eval X \<lparr>ed_script = scr, ed_tx_data = data, ed_chain = c, ed_receipts = rs\<rparr> = Inr log"
      by (simp add: run_script_def map_err_Inr_iff)
    from eval_transfer [OF this, of t] show ?thesis
      using v TransferTx \<open>0 \<le> amt (tr_amount t)\<close> by (simp add: log_matches_def)
  qed (simp_all add: v log_matches_def)
qed

lemma execute_create_fresh:
  assumes "execute_tx X c data rs = Inr log" "rc_tx r = pd_tx data" "i \<in> set (created r)"
  shows "\<not> account_exists X (bc_db c) i \<and> (\<forall>r' \<in> set rs. i \<notin> set (created r'))"
proof -
  obtain v where v: "pd_tx data = TxV0 v" by (cases "pd_tx data")
  have "pending_create i r' \<longleftrightarrow> i \<in> set (created r')" for r'
    by (auto simp: pending_create_def created_def split: tx_variant.splits tx_variant_v0.splits)
  then show ?thesis
    using assms v
    by (cases v) (auto simp: created_def execute_tx_def execute_create_account_tx_def Let_def list_ex_iff
        split: if_splits)
qed

text \<open>What a list of executed receipts satisfies: each accepted behind those in front of it.\<close>

lemma verify_receipts_fees:
  "verify_receipts X c before rs = Inr () \<Longrightarrow> sum_list (map charged_fee rs) = sum_list (map receipt_fee rs)"
proof (induction rs arbitrary: before)
  case (Cons r rs)
  obtain log where e: "execute_tx X c (TxPrecompData_from_tx X (rc_tx r)) before = Inr log"
    "verify_receipts X c (before @ [r]) rs = Inr ()"
    using Cons.prems by (auto simp: fallible_iffs)
  have "charged_fee r = receipt_fee r"
    using execute_tx_fee_free [OF e(1)] by (simp add: TxPrecompData_from_tx_def)
  then show ?case using Cons.IH [OF e(2)] by simp
qed simp

lemma account_exists_absent:
  "\<not> account_exists X db i \<Longrightarrow> absent X db WriteBatch_new i"
  by (simp add: account_exists_def absent_def idx_get_account_def)

lemma verify_receipts_fresh:
  "verify_receipts X c before rs = Inr () \<Longrightarrow>
    fresh_creates X (bc_db c) WriteBatch_new rs \<and>
    (\<forall>r \<in> set rs. \<forall>r' \<in> set before. set (created r) \<inter> set (created r') = {})"
proof (induction rs arbitrary: before)
  case Nil
  then show ?case by (simp add: fresh_creates_def)
next
  case (Cons r rs)
  obtain log where e: "execute_tx X c (TxPrecompData_from_tx X (rc_tx r)) before = Inr log"
    "verify_receipts X c (before @ [r]) rs = Inr ()"
    using Cons.prems by (auto simp: fallible_iffs)
  have f: "\<not> account_exists X (bc_db c) i" "\<forall>r' \<in> set before. i \<notin> set (created r')"
    if "i \<in> set (created r)" for i
    using execute_create_fresh [OF e(1) _ that] by (auto simp: TxPrecompData_from_tx_def)
  have "distinct (created r)"
    by (simp add: created_def split: tx_variant.splits tx_variant_v0.splits)
  then show ?case
    using Cons.IH [OF e(2)] f account_exists_absent
    by (fastforce simp: fresh_creates_def list_all_iff)
qed

section \<open>The invariant of the node\<close>

text \<open>
  \<open>pool_ok\<close>: the pooled receipts verify against the chain as a block's receipts would, and each log
  hands out the amount of its transfer.
\<close>

definition pool_ok :: "'db ext \<Rightarrow> 'db receipt_pool \<Rightarrow> bool" where
  "pool_ok X p \<longleftrightarrow> verify_receipts X (rp_chain p) [] (rp_receipts p) = Inr () \<and>
     list_all log_matches (rp_receipts p)"

lemma same_reads_verify_receipts:
  assumes "same_reads X c c'"
  shows "verify_receipts X c' before rs = verify_receipts X c before rs"
  by (induction rs arbitrary: before) (simp_all add: same_reads_execute_tx [OF assms])

lemma pool_push_ok:
  assumes "db_ok X" "pool_ok X p" "pool_push X now p (TxPrecompData_from_tx X t) = Inr p'"
  shows "pool_ok X p'" "same_reads X (rp_chain p) (rp_chain p')"
    and "\<exists>i e. rp_chain p' = (rp_chain p)\<lparr>bc_db := insert_txid X (bc_db (rp_chain p)) i e\<rparr>"
proof -
  let ?data = "TxPrecompData_from_tx X t"
  obtain log e where l: "execute_tx X (rp_chain p) ?data (rp_receipts p) = Inr log"
    "p' = p\<lparr>rp_chain := (rp_chain p)\<lparr>bc_db := insert_txid X (bc_db (rp_chain p)) (pd_txid ?data) e\<rparr>,
       rp_receipts := rp_receipts p @ [\<lparr>rc_tx = t, rc_log = log\<rparr>]\<rparr>"
    using assms(3)
    by (auto simp: pool_push_def Let_def fallible_iffs TxPrecompData_from_tx_def split: if_splits)
  have s: "same_reads X (rp_chain p) (rp_chain p')"
    by (simp add: l(2) same_reads_insert_txid [OF assms(1)])
  then show "same_reads X (rp_chain p) (rp_chain p')" .
  show "\<exists>i e. rp_chain p' = (rp_chain p)\<lparr>bc_db := insert_txid X (bc_db (rp_chain p)) i e\<rparr>"
    using l(2) by auto
  have "verify_receipts X (rp_chain p) [] (rp_receipts p') = Inr ()"
    using assms(2) l(1) by (simp add: pool_ok_def l(2) verify_receipts_append)
  then show "pool_ok X p'"
    using execute_tx_log_matches [OF l(1)] assms(2) same_reads_verify_receipts [OF s]
    by (simp add: pool_ok_def) (simp add: l(2) TxPrecompData_from_tx_def)
qed

text \<open>The balances and the supply of an index.\<close>

definition index_total :: "'db ext \<Rightarrow> 'db \<Rightarrow> int" where
  "index_total X db = total_bal X db WriteBatch_new"

definition index_supply :: "'db ext \<Rightarrow> 'db \<Rightarrow> int" where
  "index_supply X db = (case get_token_supply X db :: unit fail + asset of Inr a \<Rightarrow> amt a | Inl _ \<Rightarrow> 0)"

definition supply_readable :: "'db ext \<Rightarrow> 'db \<Rightarrow> bool" where
  "supply_readable X db \<longleftrightarrow> (\<exists>a. get_token_supply X db = (Inr a :: unit fail + asset))"

lemma supply_retype:
  "get_token_supply X db = (Inr a :: 'e fail + asset) \<Longrightarrow> get_token_supply X db = (Inr a :: 'f fail + asset)"
  by (auto simp: get_token_supply_def fallible_iffs split: option.splits)

lemma index_total_cong:
  assumes "\<And>i. (idx_get_account X db i :: unit fail + _) = idx_get_account X db' i"
  shows "index_total X db = index_total X db'"
  by (simp add: index_total_def total_bal_def batch_bal_def [abs_def] assms)

lemma same_reads_supply:
  assumes "same_reads X c c'"
  shows "index_total X (bc_db c) = index_total X (bc_db c')"
    "index_supply X (bc_db c) = index_supply X (bc_db c')"
    "supply_readable X (bc_db c) = supply_readable X (bc_db c')"
  by (simp_all add: index_total_cong [of X "bc_db c" "bc_db c'"] index_supply_def supply_readable_def same_reads_index [OF assms])

text \<open>Inserting a block whose logs match and whose rewards are its fees keeps the difference between
  the balances and the supply.\<close>

lemma insert_block_supply:
  assumes "chain_repr X c bs" "insert_block X c b = Inr c'" "db_ok X" "storable b" "room X c b"
    and "list_all log_matches (Block_receipts b)"
    and "amt (Block_rewards b) = sum_list (map receipt_fee (Block_receipts b))"
    and "supply_readable X (bc_db c)"
  shows "index_total X (bc_db c') = index_total X (bc_db c) + sum_list (map minted (Block_receipts b))"
    and "index_supply X (bc_db c') = index_supply X (bc_db c) + sum_list (map minted (Block_receipts b))"
    and "supply_readable X (bc_db c')"
proof -
  obtain prev where v: "verify_block X c b prev = Inr ()"
    using assms(2) by (auto simp: insert_block_def fallible_iffs)
  have vr: "verify_receipts X c [] (Block_receipts b) = Inr ()"
    using v by (rule verify_block_Inr)
  have "\<exists>batch. index_block X c WriteBatch_new b = (Inr batch :: block_err fail + _) \<and> wf_batch batch \<and>
      (\<forall>i. idx_get_account X (bc_db c') i = (batch_account X (bc_db c) batch i :: unit fail + _)) \<and>
      get_token_supply X (bc_db c') = (batch_supply X (bc_db c) batch :: unit fail + _) \<and>
      (get_owner X (bc_db c') :: unit fail + _) =
        (case wb_owner batch of Some t \<Rightarrow> Inr (Some t) | None \<Rightarrow> get_owner X (bc_db c))"
    by (rule insert_block_repr(3) [OF assms(1-5)])
  then obtain batch where ib: "index_block X c WriteBatch_new b = (Inr batch :: block_err fail + _)"
    and acc: "\<And>i. idx_get_account X (bc_db c') i = (batch_account X (bc_db c) batch i :: unit fail + _)"
    and sup: "get_token_supply X (bc_db c') = (batch_supply X (bc_db c) batch :: unit fail + _)"
    by blast
  obtain s where s: "get_token_supply X (bc_db c) = (Inr s :: unit fail + asset)"
    using assms(8) by (auto simp: supply_readable_def)
  have s': "batch_supply X (bc_db c) WriteBatch_new = (Inr s :: block_err fail + _)"
    using supply_retype [OF s] by (auto simp: batch_supply_def WriteBatch_new_def)
  note t = index_block_totals [OF ib conjunct1 [OF verify_receipts_fresh [OF vr]] assms(6) s']
  have e: "sum_list (map charged_fee (Block_receipts b)) = amt (Block_rewards b)"
    using verify_receipts_fees [OF vr] assms(7) by simp
  have "index_total X (bc_db c') = total_bal X (bc_db c) batch"
    by (simp add: index_total_def total_bal_def batch_bal_def [abs_def] acc)
  then show "index_total X (bc_db c') = index_total X (bc_db c) + sum_list (map minted (Block_receipts b))"
    using t e by (simp add: index_total_def)
  obtain s2 where s2: "batch_supply X (bc_db c) batch = (Inr s2 :: block_err fail + _)"
    "amt s2 = amt s + sum_list (map minted (Block_receipts b))"
    using t by blast
  have "batch_supply X (bc_db c) batch = (Inr s2 :: unit fail + _)"
    using s2(1) by (auto simp: batch_supply_def dest: supply_retype split: option.splits)
  then show "index_supply X (bc_db c') = index_supply X (bc_db c) + sum_list (map minted (Block_receipts b))"
    "supply_readable X (bc_db c')"
    using s s2(2) sup by (simp_all add: index_supply_def supply_readable_def)
qed

end
