(* ===== verification/Node.thy ===== *)
theory Node
  imports Pool
begin

text \<open>
  The node as a state machine over the minter: transactions are accepted into the pool and blocks
  produced from it.  Producing on the owner's node always passes the chain's own verification, and in
  every state reachable from genesis the balances of the index add up to the token supply.
\<close>

section \<open>Producing a block\<close>

lemma chain_repr_same_reads:
  assumes "same_reads X c c'" "chain_repr X c bs"
  shows "chain_repr X c' bs"
  using assms by (simp add: same_reads_def chain_repr_def store_repr_def positions_ok_def height_stored_def)

lemma pool_flush_Inr:
  assumes "pool_flush X now p = (Inr (rcs, p') :: 'e fail + _)" "db_ok X"
  shows "rcs = rp_receipts p" "rp_receipts p' = []" "same_reads X (rp_chain p) (rp_chain p')"
  using assms same_reads_purge [OF assms(2)]
  by (auto simp: pool_flush_def Let_def fallible_iffs)

text \<open>The block a child of the head becomes once signed.\<close>

lemma new_child_link:
  assumes "new_child X now (block_v0 prev) rcs = (Inr b :: 'e fail + _)" "wf_key_pair X kp" "sign_ok X"
  shows "link_ok X prev (Block_sign X b kp)" "Block_receipts (Block_sign X b kp) = rcs"
    and "amt (Block_rewards (Block_sign X b kp)) = sum_list (map receipt_fee rcs)"
    and "Block_signer (Block_sign X b kp) = Some (KeyPair_sign X kp (digest_bytes (calc_header_hash X b)))"
proof -
  obtain rew where rew: "sum_fees Asset_default rcs = (Inr rew :: 'e fail + _)"
    "b = BlockV0 \<lparr>header = \<lparr>previous_hash = BlockV0_calc_header_hash X (block_v0 prev),
          height = height (header (block_v0 prev)) + 1, timestamp = now, receipt_root = calc_receipt_root X rcs\<rparr>,
        signer = None, rewards = rew, receipts = rcs\<rparr>"
    using assms(1) by (auto simp: new_child_def fallible_iffs)
  have v: "SigPair_verify X (KeyPair_sign X kp msg) msg" for msg
    using assms(2,3)
    by (fastforce simp: SigPair_verify_def KeyPair_sign_def PrivateKey_sign_def wf_key_pair_def sign_ok_def
        size_constants)
  have h: "calc_header_hash X (Block_sign X b kp) = calc_header_hash X b"
    by (simp add: calc_header_hash_sign)
  show "link_ok X prev (Block_sign X b kp)"
    using v by (simp add: link_ok_def h) (simp add: rew(2) Block_sign_def verify_previous_hash_def
      verify_receipt_root_def block_accessors calc_header_hash_def)
  show "Block_receipts (Block_sign X b kp) = rcs"
    by simp (simp add: rew(2) block_accessors)
  show "amt (Block_rewards (Block_sign X b kp)) = sum_list (map receipt_fee rcs)"
    using sum_fees_Inr [OF rew(1)] by simp (simp add: rew(2) block_accessors)
  show "Block_signer (Block_sign X b kp) = Some (KeyPair_sign X kp (digest_bytes (calc_header_hash X b)))"
    by simp
qed

lemma verify_block_intro:
  assumes "link_ok X prev b" "Block_signer b = Some sp" "pub_key sp = minter ow"
    and "chain_get_owner X c = (Inr (TxV0 (OwnerTx ow)) :: block_err fail + _)"
    and "verify_receipts X c [] (Block_receipts b) = Inr ()"
  shows "verify_block X c b prev = Inr ()"
  using assms by (auto simp: verify_block_def link_ok_def)

text \<open>What production comes to: the chain's own verification never refuses the block, so it fails only where
  the fees do not add up or the block cannot be indexed.\<close>

lemma produce_result:
  assumes "db_ok X" "sign_ok X" "wf_key_pair X (mt_key m)" "pool_ok X (mt_pool m)"
    and "chain_repr X (rp_chain (mt_pool m)) bs"
    and "chain_get_owner X (rp_chain (mt_pool m)) = (Inr (TxV0 (OwnerTx ow)) :: block_err fail + _)"
      "minter ow = kp_public (mt_key m)"
    and fl: "pool_flush X now (mt_pool m) = (Inr (rcs, p) :: block_err fail + _)"
    and st: "\<And>b. new_child X child_time (block_v0 (last bs)) rcs = (Inr b :: block_err fail + _) \<Longrightarrow>
      storable (Block_sign X b (mt_key m)) \<and> room X (rp_chain p) (Block_sign X b (mt_key m))"
  shows "if force \<or> mt_enable_stale m \<or> rcs \<noteq> [] \<or> Block_receipts (last bs) \<noteq> [] then
      (case new_child X child_time (block_v0 (last bs)) rcs of
         Inl e \<Rightarrow> produce X now child_time force m = (Inl e, m\<lparr>mt_pool := p\<rparr>)
       | Inr b \<Rightarrow>
           verify_block X (rp_chain p) (Block_sign X b (mt_key m)) (last bs) = Inr () \<and>
           (case index_block X (rp_chain p) WriteBatch_new (Block_sign X b (mt_key m)) of
              Inl e \<Rightarrow> produce X now child_time force m = (Inl e, m\<lparr>mt_pool := p\<rparr>)
            | Inr batch \<Rightarrow>
                \<exists>chain. produce X now child_time force m =
                  (Inr (Some (Block_sign X b (mt_key m))), m\<lparr>mt_pool := p\<lparr>rp_chain := chain\<rparr>\<rparr>) \<and>
                  chain_repr X chain (bs @ [Block_sign X b (mt_key m)])))
    else produce X now child_time force m = (Inr None, m\<lparr>mt_pool := p\<rparr>)"
proof -
  note f = pool_flush_Inr [OF fl assms(1)]
  have repr: "chain_repr X (rp_chain p) bs" by (rule chain_repr_same_reads [OF f(3) assms(5)])
  have hd: "get_chain_head X (rp_chain p) = (Inr (last bs) :: block_err fail + _)"
    by (rule get_chain_head_repr [OF repr])
  let ?go = "force \<or> mt_enable_stale m \<or> rcs \<noteq> [] \<or> Block_receipts (last bs) \<noteq> []"
  have go: "should_produce X (m\<lparr>mt_pool := p\<rparr>) force rcs = (Inr ?go :: block_err fail + _)"
    by (auto simp: should_produce_def hd)
  show ?thesis
  proof (cases ?go)
    case False
    then show ?thesis by (simp add: produce_def fl Let_def should_produce_def hd)
  next
    case True
    show ?thesis
    proof (cases "new_child X child_time (block_v0 (last bs)) rcs :: block_err fail + block")
      case (Inl e)
      then show ?thesis using True by (simp add: produce_def fl Let_def go hd)
    next
      case (Inr b)
      let ?b = "Block_sign X b (mt_key m)"
      note l = new_child_link [OF Inr assms(3,2)]
      have "verify_receipts X (rp_chain p) [] (Block_receipts ?b) = Inr ()"
        using assms(4) unfolding l(2) f(1) pool_ok_def same_reads_verify_receipts [OF f(3)] by simp
      moreover have "chain_get_owner X (rp_chain p) = (Inr (TxV0 (OwnerTx ow)) :: block_err fail + _)"
        using assms(6) by (simp add: chain_get_owner_def same_reads_index [OF f(3)])
      ultimately have v: "verify_block X (rp_chain p) ?b (last bs) = Inr ()"
        by (intro verify_block_intro [OF l(1) l(4)]) (use assms(7) in \<open>simp_all add: KeyPair_sign_def\<close>)
      show ?thesis
      proof (cases "index_block X (rp_chain p) WriteBatch_new ?b :: block_err fail + write_batch")
        case ix: (Inl e)
        have "insert_block X (rp_chain p) ?b = Inl e" by (simp add: insert_block_def hd v ix)
        then show ?thesis using True by (simp add: produce_def fl Let_def go hd Inr v ix)
      next
        case ix: (Inr batch)
        obtain chain where ch: "insert_block X (rp_chain p) ?b = Inr chain"
          using insert_block_total [OF repr v ix assms(1)] st [OF Inr] by blast
        have "produce X now child_time force m = (Inr (Some ?b), m\<lparr>mt_pool := p\<lparr>rp_chain := chain\<rparr>\<rparr>)"
          using True by (simp add: produce_def fl Let_def go hd Inr ch)
        then show ?thesis
          using True insert_block_repr(1) [OF repr ch assms(1)] st [OF Inr] by (simp add: Inr v ix) blast
      qed
    qed
  qed
qed

lemma produce_inserts:
  assumes "db_ok X" "sign_ok X" "wf_key_pair X (mt_key m)" "pool_ok X (mt_pool m)"
    and "chain_repr X (rp_chain (mt_pool m)) bs"
    and "chain_get_owner X (rp_chain (mt_pool m)) = (Inr (TxV0 (OwnerTx ow)) :: block_err fail + _)"
      "minter ow = kp_public (mt_key m)"
    and fl: "pool_flush X now (mt_pool m) = (Inr (rcs, p) :: block_err fail + _)"
    and go: "force \<or> mt_enable_stale m \<or> rcs \<noteq> []"
    and nc: "new_child X child_time (block_v0 (last bs)) rcs = (Inr b :: block_err fail + _)"
    and ix: "index_block X (rp_chain p) WriteBatch_new (Block_sign X b (mt_key m)) = (Inr batch :: block_err fail + _)"
    and st: "storable (Block_sign X b (mt_key m))" "room X (rp_chain p) (Block_sign X b (mt_key m))"
  shows "\<exists>chain. produce X now child_time force m =
      (Inr (Some (Block_sign X b (mt_key m))), m\<lparr>mt_pool := p\<lparr>rp_chain := chain\<rparr>\<rparr>) \<and>
      chain_repr X chain (bs @ [Block_sign X b (mt_key m)])"
proof -
  have s: "storable (Block_sign X b' (mt_key m)) \<and> room X (rp_chain p) (Block_sign X b' (mt_key m))"
    if "new_child X child_time (block_v0 (last bs)) rcs = (Inr b' :: block_err fail + _)" for b'
    using that nc st by simp
  have "force \<or> mt_enable_stale m \<or> rcs \<noteq> [] \<or> Block_receipts (last bs) \<noteq> []" using go by blast
  then show ?thesis using produce_result [OF assms(1-8) s, of child_time force] by (simp add: nc ix)
qed

section \<open>The node\<close>

text \<open>
  One operation of the node: a transaction pushed into the pool, or a production attempt, which
  inserts a block, produces nothing, or fails and drops the pooled receipts.  A produced block is
  well formed, its record fits its 32 bit length and the log and the heights stay within 64 bits.
\<close>

inductive node_step :: "'db ext \<Rightarrow> 'db minter \<Rightarrow> 'db minter \<Rightarrow> bool" for X where
  push: "minter_push_tx X now m t = Inr m' \<Longrightarrow> node_step X m m'"
| produce: "produce X now child_time force m = (r, m') \<Longrightarrow>
    (\<And>b. r = Inr (Some b) \<Longrightarrow> storable b \<and> room X (rp_chain (mt_pool m)) b) \<Longrightarrow> node_step X m m'"

inductive_cases node_stepE: "node_step X m m'"

definition node_ok :: "'db ext \<Rightarrow> 'db minter \<Rightarrow> block list \<Rightarrow> bool" where
  "node_ok X m bs \<longleftrightarrow> chain_repr X (rp_chain (mt_pool m)) bs \<and> linked X bs \<and> pool_ok X (mt_pool m) \<and>
     supply_readable X (bc_db (rp_chain (mt_pool m))) \<and>
     index_total X (bc_db (rp_chain (mt_pool m))) = index_supply X (bc_db (rp_chain (mt_pool m)))"

lemma node_ok_same_reads:
  assumes "node_ok X m bs" "same_reads X (rp_chain (mt_pool m)) (rp_chain (mt_pool m'))" "pool_ok X (mt_pool m')"
  shows "node_ok X m' bs"
  using assms(1,3) chain_repr_same_reads [OF assms(2)] same_reads_supply [OF assms(2)]
  by (simp add: node_ok_def)

text \<open>Every way a production attempt ends.\<close>

lemma produce_cases:
  assumes "produce X now child_time force m = (r, m')"
  obtains (failed) e where "r = Inl e" "m' = m" "pool_flush X now (mt_pool m) = (Inl e :: block_err fail + _)"
  | (dropped) rcs p where "pool_flush X now (mt_pool m) = (Inr (rcs, p) :: block_err fail + _)"
      "m' = m\<lparr>mt_pool := p\<rparr>" "\<And>b. r \<noteq> Inr (Some b)"
  | (inserted) rcs p hd b c where "pool_flush X now (mt_pool m) = (Inr (rcs, p) :: block_err fail + _)"
      "get_chain_head X (rp_chain p) = (Inr hd :: block_err fail + _)"
      "new_child X child_time (block_v0 hd) rcs = (Inr b :: block_err fail + _)"
      "insert_block X (rp_chain p) (Block_sign X b (mt_key m)) = Inr c"
      "r = Inr (Some (Block_sign X b (mt_key m)))" "m' = m\<lparr>mt_pool := p\<lparr>rp_chain := c\<rparr>\<rparr>"
proof (cases "pool_flush X now (mt_pool m) :: block_err fail + _")
  case (Inl e)
  then show ?thesis using assms by (intro failed [of e]) (simp_all add: produce_def)
next
  case (Inr x)
  obtain rcs p where x: "x = (rcs, p)" by (cases x)
  let ?rest = "and_then (should_produce X (m\<lparr>mt_pool := p\<rparr>) force rcs) (\<lambda>go.
      if \<not> go then Inr None
      else
        and_then (get_chain_head X (rp_chain p)) (\<lambda>head_block.
        and_then (new_child X child_time (block_v0 head_block) rcs) (\<lambda>b.
        and_then (insert_block X (rp_chain p) (Block_sign X b (mt_key (m\<lparr>mt_pool := p\<rparr>)))) (\<lambda>chain.
          Inr (Some (Block_sign X b (mt_key (m\<lparr>mt_pool := p\<rparr>)), chain))))))"
  have p: "(case ?rest of
        Inl e \<Rightarrow> (Inl e, m\<lparr>mt_pool := p\<rparr>)
      | Inr None \<Rightarrow> (Inr None, m\<lparr>mt_pool := p\<rparr>)
      | Inr (Some (block, chain)) \<Rightarrow> (Inr (Some block), m\<lparr>mt_pool := p, mt_pool := p\<lparr>rp_chain := chain\<rparr>\<rparr>)) = (r, m')"
    using assms unfolding produce_def Inr x Let_def prod.case sum.case .
  show ?thesis
  proof (cases ?rest)
    case (Inl e)
    then show ?thesis using p \<open>_ = Inr x\<close> x by (intro dropped [of rcs p]) auto
  next
    case r: (Inr y)
    show ?thesis
    proof (cases y)
      case None
      then show ?thesis using p r \<open>_ = Inr x\<close> x by (intro dropped [of rcs p]) auto
    next
      case (Some z)
      then obtain hd b c where i: "get_chain_head X (rp_chain p) = (Inr hd :: block_err fail + _)"
        "new_child X child_time (block_v0 hd) rcs = (Inr b :: block_err fail + _)"
        "insert_block X (rp_chain p) (Block_sign X b (mt_key m)) = Inr c" "z = (Block_sign X b (mt_key m), c)"
        using r by (auto simp: fallible_iffs Let_def split: if_splits)
      show ?thesis
        using p r Some i \<open>_ = Inr x\<close> x by (intro inserted [of rcs p hd b c]) auto
    qed
  qed
qed

lemma pool_ok_empty: "rp_receipts p = [] \<Longrightarrow> pool_ok X p"
  by (simp add: pool_ok_def)

lemma room_same_reads: "same_reads X c c' \<Longrightarrow> room X c b \<longleftrightarrow> room X c' b"
  by (simp add: room_def same_reads_def)

lemma node_step_ok:
  assumes "node_step X m m'" "node_ok X m bs" "db_ok X" "sign_ok X" "wf_key_pair X (mt_key m)"
  shows "mt_key m' = mt_key m \<and> (node_ok X m' bs \<or> (\<exists>b. node_ok X m' (bs @ [b])))"
  using assms(1)
proof cases
  case (push now t)
  then obtain p where p: "pool_push X now (mt_pool m) (TxPrecompData_from_tx X t) = Inr p" "m' = m\<lparr>mt_pool := p\<rparr>"
    by (auto simp: minter_push_tx_def fallible_iffs)
  have "pool_ok X (mt_pool m)" using assms(2) by (simp add: node_ok_def)
  note k = pool_push_ok [OF assms(3) this p(1)]
  then show ?thesis using node_ok_same_reads [OF assms(2), of m'] p(2) by simp
next
  case (produce now child_time force r)
  from produce(1) show ?thesis
  proof (cases rule: produce_cases)
    case (failed e)
    then show ?thesis using assms(2) by simp
  next
    case (dropped rcs p)
    note f = pool_flush_Inr [OF dropped(1) assms(3)]
    show ?thesis
      using node_ok_same_reads [OF assms(2), of m'] f(3) pool_ok_empty [OF f(2)] dropped(2) by simp
  next
    case (inserted rcs p hd b c)
    note f = pool_flush_Inr [OF inserted(1) assms(3)]
    let ?b = "Block_sign X b (mt_key m)"
    have ok: "node_ok X (m\<lparr>mt_pool := p\<rparr>) bs"
      using node_ok_same_reads [OF assms(2), of "m\<lparr>mt_pool := p\<rparr>"] f(3) pool_ok_empty [OF f(2)] by simp
    have st: "storable ?b" "room X (rp_chain p) ?b"
      using produce(2) inserted(5) room_same_reads [OF f(3)] by simp_all
    note l = new_child_link [OF inserted(3) assms(5,4)]
    have lm: "list_all log_matches (Block_receipts ?b)"
      using assms(2) unfolding l(2) f(1) by (simp add: node_ok_def pool_ok_def)
    have re: "amt (Block_rewards ?b) = sum_list (map receipt_fee (Block_receipts ?b))"
      using l(2,3) by simp
    have cr: "chain_repr X (rp_chain p) bs" "supply_readable X (bc_db (rp_chain p))"
      using ok by (simp_all add: node_ok_def)
    note r = insert_block_repr(1,2) [OF cr(1) inserted(4) assms(3) st]
    note s = insert_block_supply [OF cr(1) inserted(4) assms(3) st lm re cr(2)]
    have "bs \<noteq> []" using chain_repr_length [OF cr(1)] by auto
    then have "node_ok X m' (bs @ [?b])"
      using ok r s pool_ok_empty [of "p\<lparr>rp_chain := c\<rparr>" X] f(2)
      by (simp add: node_ok_def inserted(6) linked_snoc)
    then show ?thesis using inserted(6) by auto
  qed
qed

lemma node_steps_ok:
  assumes "(node_step X)\<^sup>*\<^sup>* m m'" "node_ok X m bs" "db_ok X" "sign_ok X" "wf_key_pair X (mt_key m)"
  shows "mt_key m' = mt_key m \<and> (\<exists>bs'. node_ok X m' (bs @ bs'))"
  using assms(1)
proof (induction rule: rtranclp_induct)
  case base
  show ?case using assms(2) by (intro conjI exI [of _ "[]"]) simp_all
next
  case (step m1 m2)
  then obtain bs1 where "mt_key m1 = mt_key m" "node_ok X m1 (bs @ bs1)" by blast
  then show ?case
    using node_step_ok [OF step(2) _ assms(3,4), of "bs @ bs1"] assms(5) by (metis append.assoc)
qed

section \<open>From genesis\<close>

lemma linked_single: "linked X [b]"
  by (simp add: linked_def)

lemma genesis_node_ok:
  assumes "create_genesis_block X now seeds c mk = (Inr (c', info) :: 'e fail + _)" "empty_node X c" "db_ok X"
    and "storable (genesis_block X now info)" "length (disk_record X (genesis_block X now info)) < 2 ^ 64"
    and "wf_account (genesis_owner_wallet info)" "wf_tx (genesis_owner_tx now info)"
    and "Minter_new X c' mkey stale = (Inr m :: 'f fail + _)"
  shows "node_ok X m [genesis_block X now info]" "mt_key m = mkey"
proof -
  note g = create_genesis_repr [OF assms(1-7)]
  have m: "rp_chain (mt_pool m) = c'" "rp_receipts (mt_pool m) = []" "mt_key m = mkey"
    using assms(8) by (simp_all add: Minter_new_def ReceiptPool_new_def chain_get_owner_def g(2)
        genesis_owner_tx_def split: if_splits) auto
  show "mt_key m = mkey" by (rule m(3))
  have "batch_bal X (bc_db c') WriteBatch_new i = 0" for i
    by (auto simp: batch_bal_def view_bal_def g(3) genesis_owner_wallet_def)
  then have "index_total X (bc_db c') = 0"
    by (simp add: index_total_def total_bal_def total_of_def)
  then show "node_ok X m [genesis_block X now info]"
    using g(1) pool_ok_empty [OF m(2)]
    by (simp add: node_ok_def m(1) linked_single supply_readable_def index_supply_def g(4))
qed

end
