(* ===== verification/Server.thy ===== *)
theory Server
  imports Node Net_Msg
begin

text \<open>
  The server: the subscription pool (\<open>server/pool.rs\<close>), the block ranges
  (\<open>server/client/block_range.rs\<close>) and the handling of a client's messages
  (\<open>server/client/mod.rs\<close>), with the production of \<open>server/minter.rs\<close> broadcast to the
  subscribers.  An address has type \<open>'a\<close> and a client's channel type \<open>'c\<close>; a message sent is a
  value the operation returns.  Metrics and logging are left out.
\<close>

section \<open>Web socket messages and clients\<close>

datatype ws_message = WsBinary bytes | WsText string | WsPing bytes | WsPong bytes
  | WsClose "(nat \<times> string) option"

record ('a, 'c) ws_client =
  wc_filter :: "account_id set option"
  wc_addr :: 'a
  wc_tx :: 'c
  wc_needs_pong :: bool

definition WsClient_new :: "'a \<Rightarrow> 'c \<Rightarrow> ('a, 'c) ws_client" where
  "WsClient_new addr tx = \<lparr>wc_filter = None, wc_addr = addr, wc_tx = tx, wc_needs_pong = False\<rparr>"

text \<open>The \<open>SubscriptionPool\<close>: a map from addresses to channels, and the message a broadcast sends to
  every channel in it.\<close>

type_synonym ('a, 'c) sub_pool = "'a \<rightharpoonup> 'c"

definition sub_insert :: "'a \<Rightarrow> 'c \<Rightarrow> ('a, 'c) sub_pool \<Rightarrow> ('a, 'c) sub_pool" where
  "sub_insert addr tx clients = clients(addr \<mapsto> tx)"

definition sub_remove :: "'a \<Rightarrow> ('a, 'c) sub_pool \<Rightarrow> ('a, 'c) sub_pool" where
  "sub_remove addr clients = clients(addr := None)"

definition broadcast :: "('a, 'c) sub_pool \<Rightarrow> response \<Rightarrow> 'e fail + ('a \<rightharpoonup> 'c \<times> ws_message)" where
  "broadcast clients res =
     and_then (Msg_serialize \<lparr>msg_id = - 1, msg_body = BodyResponse res\<rparr>) (\<lambda>buf.
       Inr (\<lambda>addr. map_option (\<lambda>tx. (tx, WsBinary buf)) (clients addr)))"

record ('db, 'a, 'c) server =
  sv_minter :: "'db minter"
  sv_subs :: "('a, 'c) sub_pool"

text \<open>\<open>data.chain\<close> is the chain of the minter's pool.\<close>

definition sv_chain :: "('db, 'a, 'c) server \<Rightarrow> 'db blockchain" where
  "sv_chain data = rp_chain (mt_pool (sv_minter data))"

text \<open>\<open>Minter::produce\<close> with its broadcast.\<close>

definition produce_and_broadcast ::
  "'db ext \<Rightarrow> u64 \<Rightarrow> u64 \<Rightarrow> bool \<Rightarrow> ('db, 'a, 'c) server \<Rightarrow>
   (block_err fail + ('a \<rightharpoonup> 'c \<times> ws_message)) \<times> ('db, 'a, 'c) server" where
  "produce_and_broadcast X now child_time force data =
     (case produce X now child_time force (sv_minter data) of
        (Inl e, m) \<Rightarrow> (Inl e, data\<lparr>sv_minter := m\<rparr>)
      | (Inr None, m) \<Rightarrow> (Inr Map.empty, data\<lparr>sv_minter := m\<rparr>)
      | (Inr (Some b), m) \<Rightarrow>
          (broadcast (sv_subs data) (ResGetBlock (FilteredBlock b)), data\<lparr>sv_minter := m\<rparr>))"

section \<open>Block ranges\<close>

record block_range =
  br_filter :: "account_id set option"
  br_min :: u64
  br_max :: u64

definition block_range_try_new :: "'db ext \<Rightarrow> 'db blockchain \<Rightarrow> u64 \<Rightarrow> u64 \<Rightarrow> 'e fail + block_range option" where
  "block_range_try_new X chain lo hi =
     (if lo > hi then Inr None
      else
        and_then (chain_height X chain) (\<lambda>h.
          Inr (if hi > h then None else Some \<lparr>br_filter = None, br_min = lo, br_max = hi\<rparr>)))"

definition block_range_set_filter :: "account_id set option \<Rightarrow> block_range \<Rightarrow> block_range" where
  "block_range_set_filter f self = self\<lparr>br_filter := f\<rparr>"

definition poll_next :: "'db ext \<Rightarrow> 'db blockchain \<Rightarrow> block_range \<Rightarrow> 'e fail + (filtered_block option \<times> block_range)" where
  "poll_next X chain self =
     (if br_min self \<le> br_max self then
        and_then
          (case br_filter self of
             Some f \<Rightarrow> and_then (get_filtered_block X chain (br_min self) f) unwrap
           | None \<Rightarrow> and_then (and_then (get_block X chain (br_min self)) unwrap) (\<lambda>b. Inr (FilteredBlock b)))
          (\<lambda>b. Inr (Some b, self\<lparr>br_min := br_min self + 1\<rparr>))
      else Inr (None, self))"

text \<open>The \<open>while let\<close> loop over a range; it would not end on a range up to the last \<open>u64\<close>.\<close>

partial_function (option) range_blocks ::
  "'db ext \<Rightarrow> 'db blockchain \<Rightarrow> block_range \<Rightarrow> (unit fail + filtered_block list) option" where
  "range_blocks X chain self =
     (case poll_next X chain self of
        Inl e \<Rightarrow> Some (Inl e)
      | Inr (next_block, self') \<Rightarrow>
          (case next_block of
             None \<Rightarrow> Some (Inr [])
           | Some b \<Rightarrow> Option.bind (range_blocks X chain self') (\<lambda>rest.
               Some (and_then rest (\<lambda>bs. Inr (b # bs))))))"

text \<open>What the spawned task sends: one message per block and the closing one.\<close>

primrec block_messages :: "u32 \<Rightarrow> filtered_block list \<Rightarrow> 'e fail + ws_message list" where
  "block_messages i [] =
     and_then (Msg_serialize \<lparr>msg_id = i, msg_body = BodyResponse ResGetBlockRange\<rparr>) (\<lambda>buf. Inr [WsBinary buf])"
| "block_messages i (b # bs) =
     and_then (Msg_serialize \<lparr>msg_id = i, msg_body = BodyResponse (ResGetBlock b)\<rparr>) (\<lambda>buf.
     and_then (block_messages i bs) (\<lambda>ms. Inr (WsBinary buf # ms)))"

definition range_messages :: "'db ext \<Rightarrow> 'db blockchain \<Rightarrow> u32 \<Rightarrow> block_range \<Rightarrow> (unit fail + ws_message list) option" where
  "range_messages X chain i self =
     map_option (\<lambda>r. and_then r (block_messages i)) (range_blocks X chain self)"

section \<open>Requests\<close>

text \<open>
  The reply, the range a task was spawned for, and the new state.
\<close>

record ('db, 'a, 'c) handled =
  hd_reply :: "body option"
  hd_spawned :: "block_range option"
  hd_data :: "('db, 'a, 'c) server"
  hd_client :: "('a, 'c) ws_client"

definition reply :: "('db, 'a, 'c) server \<Rightarrow> ('a, 'c) ws_client \<Rightarrow> body \<Rightarrow> ('db, 'a, 'c) handled" where
  "reply data state b = \<lparr>hd_reply = Some b, hd_spawned = None, hd_data = data, hd_client = state\<rparr>"

definition no_reply :: "('db, 'a, 'c) server \<Rightarrow> ('a, 'c) ws_client \<Rightarrow> ('db, 'a, 'c) handled" where
  "no_reply data state = \<lparr>hd_reply = None, hd_spawned = None, hd_data = data, hd_client = state\<rparr>"

fun handle_rpc_request ::
  "'db ext \<Rightarrow> u64 \<Rightarrow> ('db, 'a, 'c) server \<Rightarrow> ('a, 'c) ws_client \<Rightarrow> request \<Rightarrow> unit fail + ('db, 'a, 'c) handled" where
  "handle_rpc_request X now data state (ReqBroadcast t) =
     (case minter_push_tx X now (sv_minter data) t of
        Inr m \<Rightarrow> Inr (reply (data\<lparr>sv_minter := m\<rparr>) state (BodyResponse ResBroadcast))
      | Inl (Err e) \<Rightarrow> Inr (reply data state (BodyError (TxValidation e)))
      | Inl Panic \<Rightarrow> Inl Panic)"
| "handle_rpc_request X now data state (ReqSetBlockFilter f) =
     (if card f > 16 then Inr (reply data state (BodyError InvalidRequest))
      else Inr (reply data (state\<lparr>wc_filter := Some f\<rparr>) (BodyResponse ResSetBlockFilter)))"
| "handle_rpc_request X now data state ReqClearBlockFilter =
     Inr (reply data (state\<lparr>wc_filter := None\<rparr>) (BodyResponse ResClearBlockFilter))"
| "handle_rpc_request X now data state ReqSubscribe =
     Inr (reply (data\<lparr>sv_subs := sub_insert (wc_addr state) (wc_tx state) (sv_subs data)\<rparr>) state
       (BodyResponse ResSubscribe))"
| "handle_rpc_request X now data state ReqUnsubscribe =
     Inr (reply (data\<lparr>sv_subs := sub_remove (wc_addr state) (sv_subs data)\<rparr>) state (BodyResponse ResUnsubscribe))"
| "handle_rpc_request X now data state ReqGetProperties =
     and_then (get_properties X (sv_chain data)) (\<lambda>props.
       Inr (reply data state (BodyResponse (ResGetProperties props))))"
| "handle_rpc_request X now data state (ReqGetBlock h) =
     and_then
       (case wc_filter state of
          Some f \<Rightarrow>
            and_then (get_filtered_block X (sv_chain data) h f) (\<lambda>r.
              Inr (case r of Some b \<Rightarrow> BodyResponse (ResGetBlock b) | None \<Rightarrow> BodyError InvalidHeight))
        | None \<Rightarrow>
            and_then (get_block X (sv_chain data) h) (\<lambda>r.
              Inr (case r of Some b \<Rightarrow> BodyResponse (ResGetBlock (FilteredBlock b)) | None \<Rightarrow> BodyError InvalidHeight)))
       (\<lambda>b. Inr (reply data state b))"
| "handle_rpc_request X now data state (ReqGetFullBlock h) =
     and_then (get_block X (sv_chain data) h) (\<lambda>r.
       Inr (reply data state
         (case r of Some b \<Rightarrow> BodyResponse (ResGetFullBlock b) | None \<Rightarrow> BodyError InvalidHeight)))"
| "handle_rpc_request X now data state (ReqGetBlockRange lo hi) =
     and_then (block_range_try_new X (sv_chain data) lo hi) (\<lambda>r.
       Inr (case r of
         Some rg0 \<Rightarrow>
           let rg = (case wc_filter state of
               Some f \<Rightarrow> block_range_set_filter (Some f) rg0 | None \<Rightarrow> rg0)
           in (no_reply data state)\<lparr>hd_spawned := Some rg\<rparr>
       | None \<Rightarrow> reply data state (BodyError InvalidHeight)))"
| "handle_rpc_request X now data state (ReqGetAccountInfo i) =
     (case minter_get_account_info X (sv_minter data) i of
        Inr info \<Rightarrow> Inr (reply data state (BodyResponse (ResGetAccountInfo info)))
      | Inl (Err e) \<Rightarrow> Inr (reply data state (BodyError (TxValidation e)))
      | Inl Panic \<Rightarrow> Inl Panic)"

definition handle_protocol_msg ::
  "'db ext \<Rightarrow> u64 \<Rightarrow> ('db, 'a, 'c) server \<Rightarrow> ('a, 'c) ws_client \<Rightarrow> msg \<Rightarrow> unit fail + ('db, 'a, 'c) handled" where
  "handle_protocol_msg X now data state m =
     (case msg_body m of
        BodyError e \<Rightarrow> Inr (no_reply data state)
      | BodyRequest req \<Rightarrow> handle_rpc_request X now data state req
      | BodyResponse res \<Rightarrow> Inr (no_reply data state)
      | BodyPing n \<Rightarrow> Inr (reply data state (BodyPong n))
      | BodyPong n \<Rightarrow> Inr (no_reply data state))"

section \<open>Messages\<close>

record ('db, 'a, 'c) processed =
  ps_out :: "ws_message option"
  ps_spawned :: "(u32 \<times> block_range) option"
  ps_data :: "('db, 'a, 'c) server"
  ps_client :: "('a, 'c) ws_client"

definition answer :: "u32 \<Rightarrow> body \<Rightarrow> unit fail + ws_message option" where
  "answer i b = and_then (Msg_serialize \<lparr>msg_id = i, msg_body = b\<rparr>) (\<lambda>buf. Inr (Some (WsBinary buf)))"

fun process_ws_msg ::
  "'db ext \<Rightarrow> u64 \<Rightarrow> ('db, 'a, 'c) server \<Rightarrow> ('a, 'c) ws_client \<Rightarrow> ws_message \<Rightarrow> unit fail + ('db, 'a, 'c) processed" where
  "process_ws_msg X now data state (WsBinary buf) =
     (let state = state\<lparr>wc_needs_pong := False\<rparr>
      in case Msg_deserialize buf of
           Inr (m, rest) \<Rightarrow>
             if rest \<noteq> [] then
               and_then (answer (msg_id m) (BodyError BytesRemaining)) (\<lambda>out.
                 Inr \<lparr>ps_out = out, ps_spawned = None, ps_data = data, ps_client = state\<rparr>)
             else
               and_then (handle_protocol_msg X now data state m) (\<lambda>r.
               and_then (case hd_reply r of Some b \<Rightarrow> answer (msg_id m) b | None \<Rightarrow> Inr None) (\<lambda>out.
                 Inr \<lparr>ps_out = out, ps_spawned = map_option (\<lambda>rg. (msg_id m, rg)) (hd_spawned r),
                      ps_data = hd_data r, ps_client = hd_client r\<rparr>))
         | Inl e \<Rightarrow>
             and_then (answer (- 1) (BodyError Io)) (\<lambda>out.
               Inr \<lparr>ps_out = out, ps_spawned = None, ps_data = data, ps_client = state\<rparr>))"
| "process_ws_msg X now data state (WsText t) =
     Inr \<lparr>ps_out = Some (WsClose (Some (1003, ''text is not supported''))), ps_spawned = None,
          ps_data = data, ps_client = state\<rparr>"
| "process_ws_msg X now data state _ =
     Inr \<lparr>ps_out = None, ps_spawned = None, ps_data = data, ps_client = state\<rparr>"

text \<open>One tick of the heartbeat: \<^const>\<open>None\<close> when the peer did not answer the last ping, else the ping.\<close>

definition heartbeat :: "u64 \<Rightarrow> ('a, 'c) ws_client \<Rightarrow> (unit fail + ws_message) option \<times> ('a, 'c) ws_client" where
  "heartbeat now state =
     (let state' = state\<lparr>wc_needs_pong := True\<rparr>
      in if wc_needs_pong state then (None, state')
         else (Some (and_then (Msg_serialize \<lparr>msg_id = - 1, msg_body = BodyPing now\<rparr>) (\<lambda>buf. Inr (WsBinary buf))), state'))"

section \<open>Ranges send every block of the range once, in order\<close>

definition filtered :: "account_id set option \<Rightarrow> block \<Rightarrow> filtered_block" where
  "filtered f b =
     (case f of
        None \<Rightarrow> FilteredBlock b
      | Some f \<Rightarrow>
          if \<exists>r \<in> set (Block_receipts b). involved r \<inter> f \<noteq> {} then FilteredBlock b
          else FilteredHeader (Block_header b) (the (Block_signer b)))"

lemma poll_next_repr:
  assumes "chain_repr X c bs" "br_min r \<le> br_max r" "unat (br_max r) < length bs"
  shows "poll_next X c r =
    Inr (Some (filtered (br_filter r) (bs ! unat (br_min r))), r\<lparr>br_min := br_min r + 1\<rparr>)"
proof -
  have "unat (br_min r) < length bs"
    using assms(2,3) by (simp add: word_le_nat_alt)
  then show ?thesis
    using assms(2) by (simp add: poll_next_def filtered_def get_block_repr [OF assms(1)]
        get_filtered_block_repr [OF assms(1)] Let_def split: option.split)
qed

lemma range_blocks_repr:
  assumes "chain_repr X c bs" "unat (br_max r) < length bs" "br_max r \<noteq> - 1"
  shows "range_blocks X c r =
    Some (Inr (map (\<lambda>i. filtered (br_filter r) (bs ! i)) [unat (br_min r)..<Suc (unat (br_max r))]))"
  using assms(2,3)
proof (induction "Suc (unat (br_max r)) - unat (br_min r)" arbitrary: r)
  case 0
  then have "\<not> br_min r \<le> br_max r" by (simp add: word_le_nat_alt)
  then show ?case
    using "0.hyps" by (subst range_blocks.simps) (simp add: poll_next_def)
next
  case (Suc n)
  have le: "br_min r \<le> br_max r" using Suc.hyps(2) by (simp add: word_le_nat_alt)
  have "br_min r \<noteq> - 1" using le Suc.prems(2) by (metis word_order.extremum_uniqueI)
  then have u: "unat (br_min r + 1) = Suc (unat (br_min r))"
    by (metis unatSuc add.commute add_eq_0_iff add.inverse_inverse)
  let ?r = "r\<lparr>br_min := br_min r + 1\<rparr>"
  have "range_blocks X c ?r =
      Some (Inr (map (\<lambda>i. filtered (br_filter r) (bs ! i)) [Suc (unat (br_min r))..<Suc (unat (br_max r))]))"
    using Suc.hyps(1) [of ?r] Suc.hyps(2) Suc.prems by (simp add: u)
  moreover have "[unat (br_min r)..<Suc (unat (br_max r))] =
      unat (br_min r) # [Suc (unat (br_min r))..<Suc (unat (br_max r))]"
    using Suc.hyps(2) by (intro upt_conv_Cons) simp
  ultimately show ?case
    by (subst range_blocks.simps)
      (simp add: poll_next_repr [OF assms(1) le Suc.prems(1)] del: upt_Suc)
qed

section \<open>The state of the server\<close>

text \<open>
  The server with its connected clients: a connection opens on an address no client uses, a client's
  message is processed, the heartbeat ticks, the connection closes (which drops its subscription), and
  blocks are produced.
\<close>

record ('db, 'a, 'c) net =
  nt_server :: "('db, 'a, 'c) server"
  nt_clients :: "'a \<rightharpoonup> ('a, 'c) ws_client"

inductive net_step :: "'db ext \<Rightarrow> ('db, 'a, 'c) net \<Rightarrow> ('db, 'a, 'c) net \<Rightarrow> bool" for X where
  connect: "nt_clients n addr = None \<Longrightarrow>
    net_step X n (n\<lparr>nt_clients := (nt_clients n)(addr \<mapsto> WsClient_new addr tx)\<rparr>)"
| receive: "nt_clients n addr = Some cl \<Longrightarrow>
    process_ws_msg X now (nt_server n) cl m = Inr r \<Longrightarrow>
    net_step X n \<lparr>nt_server = ps_data r, nt_clients = (nt_clients n)(addr \<mapsto> ps_client r)\<rparr>"
| tick: "nt_clients n addr = Some cl \<Longrightarrow> heartbeat now cl = (out, cl') \<Longrightarrow>
    net_step X n (n\<lparr>nt_clients := (nt_clients n)(addr \<mapsto> cl')\<rparr>)"
| disconnect: "nt_clients n addr = Some cl \<Longrightarrow>
    net_step X n \<lparr>nt_server = (nt_server n)\<lparr>sv_subs := sub_remove addr (sv_subs (nt_server n))\<rparr>,
                  nt_clients = (nt_clients n)(addr := None)\<rparr>"
| mint: "produce_and_broadcast X now child_time force (nt_server n) = (r, sv) \<Longrightarrow>
    (\<And>b m. produce X now child_time force (sv_minter (nt_server n)) = (Inr (Some b), m) \<Longrightarrow>
      storable b \<and> room X (sv_chain (nt_server n)) b) \<Longrightarrow>
    net_step X n (n\<lparr>nt_server := sv\<rparr>)"

inductive_cases net_stepE: "net_step X n n'"

text \<open>A client's record carries its own address, its filter holds at most 16 accounts, and the
  subscriptions are those of connected clients, with their channels.\<close>

definition clients_ok :: "('db, 'a, 'c) net \<Rightarrow> bool" where
  "clients_ok n \<longleftrightarrow>
     (\<forall>addr cl. nt_clients n addr = Some cl \<longrightarrow>
        wc_addr cl = addr \<and> (\<forall>f. wc_filter cl = Some f \<longrightarrow> card f \<le> 16)) \<and>
     (\<forall>addr tx. sv_subs (nt_server n) addr = Some tx \<longrightarrow>
        (\<exists>cl. nt_clients n addr = Some cl \<and> wc_tx cl = tx))"

text \<open>What one message can change: nothing, the client's filter or flag, its subscription, or the
  minter by a pushed transaction.\<close>

definition effect ::
  "'db ext \<Rightarrow> u64 \<Rightarrow> ('db, 'a, 'c) server \<Rightarrow> ('a, 'c) ws_client \<Rightarrow> ('db, 'a, 'c) server \<Rightarrow> ('a, 'c) ws_client \<Rightarrow> bool" where
  "effect X now data state data' state' \<longleftrightarrow>
     data' = data \<and> state' = state \<or>
     data' = data \<and> (\<exists>f. card f \<le> 16 \<and> state' = state\<lparr>wc_filter := Some f\<rparr>) \<or>
     data' = data \<and> state' = state\<lparr>wc_filter := None\<rparr> \<or>
     state' = state \<and> data' = data\<lparr>sv_subs := sub_insert (wc_addr state) (wc_tx state) (sv_subs data)\<rparr> \<or>
     state' = state \<and> data' = data\<lparr>sv_subs := sub_remove (wc_addr state) (sv_subs data)\<rparr> \<or>
     state' = state \<and> (\<exists>t m. minter_push_tx X now (sv_minter data) t = Inr m \<and> data' = data\<lparr>sv_minter := m\<rparr>)"

lemma effect_refl: "effect X now data state data state"
  by (simp add: effect_def)

lemma handle_rpc_request_effect:
  assumes "handle_rpc_request X now data state req = Inr r"
  shows "effect X now data state (hd_data r) (hd_client r)"
proof (cases req)
  case (ReqBroadcast t)
  show ?thesis
  proof (cases "minter_push_tx X now (sv_minter data) t")
    case (Inl e)
    then show ?thesis
      using assms by (cases e) (auto simp: ReqBroadcast reply_def effect_refl)
  next
    case (Inr m)
    then have "hd_data r = data\<lparr>sv_minter := m\<rparr>" "hd_client r = state"
      using assms by (auto simp: ReqBroadcast reply_def)
    then show ?thesis using Inr unfolding effect_def by blast
  qed
next
  case (ReqSetBlockFilter f)
  then show ?thesis
    using assms by (cases "card f \<le> 16") (auto simp: reply_def effect_def)
next
  case (ReqGetBlockRange lo hi)
  obtain rg where "block_range_try_new X (sv_chain data) lo hi = (Inr rg :: unit fail + _)"
    "r = (case rg of
         Some rg0 \<Rightarrow>
           let rg = (case wc_filter state of
               Some f \<Rightarrow> block_range_set_filter (Some f) rg0 | None \<Rightarrow> rg0)
           in (no_reply data state)\<lparr>hd_spawned := Some rg\<rparr>
       | None \<Rightarrow> reply data state (BodyError InvalidHeight))"
    using assms unfolding ReqGetBlockRange handle_rpc_request.simps and_then_Inr_iff by blast
  then show ?thesis
    by (cases rg) (simp_all add: reply_def no_reply_def Let_def effect_refl)
next
  case (ReqGetAccountInfo i)
  show ?thesis
  proof (cases "minter_get_account_info X (sv_minter data) i")
    case (Inl e)
    then show ?thesis
      using assms by (cases e) (auto simp: ReqGetAccountInfo reply_def effect_refl)
  qed (use assms in \<open>auto simp: ReqGetAccountInfo reply_def effect_refl\<close>)
next
  case ReqClearBlockFilter
  then show ?thesis using assms by (auto simp: reply_def effect_def)
next
  case ReqSubscribe
  then show ?thesis using assms by (auto simp: reply_def effect_def)
next
  case ReqUnsubscribe
  then show ?thesis using assms by (auto simp: reply_def effect_def)
qed (use assms in \<open>auto simp: reply_def fallible_iffs effect_refl\<close>)

lemma process_ws_msg_effect:
  assumes "process_ws_msg X now data state m = Inr r"
  shows "\<exists>st \<in> {state, state\<lparr>wc_needs_pong := False\<rparr>}. effect X now data st (ps_data r) (ps_client r)"
proof (cases m)
  case (WsBinary buf)
  let ?st = "state\<lparr>wc_needs_pong := False\<rparr>"
  have "effect X now data ?st (ps_data r) (ps_client r)"
  proof (cases "Msg_deserialize buf")
    case (Inl e)
    then show ?thesis using assms by (auto simp: WsBinary fallible_iffs Let_def effect_refl)
  next
    case (Inr y)
    obtain msg rest where y: "y = (msg, rest)" by (cases y)
    show ?thesis
    proof (cases "rest = []")
      case True
      then obtain h out where h: "handle_protocol_msg X now data ?st msg = Inr h"
        "ps_data r = hd_data h" "ps_client r = hd_client h"
        using assms by (auto simp: WsBinary Inr y Let_def fallible_iffs)
      have "effect X now data ?st (hd_data h) (hd_client h)"
        using h(1) handle_rpc_request_effect [of X now data ?st _ h]
        by (cases "msg_body msg") (auto simp: handle_protocol_msg_def reply_def no_reply_def effect_refl)
      then show ?thesis by (simp add: h(2,3))
    qed (use assms in \<open>auto simp: WsBinary Inr y fallible_iffs Let_def effect_refl\<close>)
  qed
  then show ?thesis by blast
qed (use assms in \<open>auto simp: effect_refl\<close>)

lemma clients_ok_effect:
  assumes "clients_ok n" "nt_clients n addr = Some cl" "cl' \<in> {cl, cl\<lparr>wc_needs_pong := b\<rparr>}"
    and "effect X now (nt_server n) cl' data' cl2"
  shows "clients_ok \<lparr>nt_server = data', nt_clients = (nt_clients n)(addr \<mapsto> cl2)\<rparr>"
proof -
  have a: "wc_addr cl' = addr" "\<forall>f. wc_filter cl' = Some f \<longrightarrow> card f \<le> 16" "wc_tx cl' = wc_tx cl"
    using assms(1-3) by (auto simp: clients_ok_def)
  have sub: "\<exists>cl. nt_clients n a = Some cl \<and> wc_tx cl = tx" if "sv_subs (nt_server n) a = Some tx" for a tx
    using assms(1) that by (simp add: clients_ok_def)
  have others: "wc_addr c = a \<and> (\<forall>f. wc_filter c = Some f \<longrightarrow> card f \<le> 16)" if "nt_clients n a = Some c" for a c
    using assms(1) that by (simp add: clients_ok_def)
  from assms(4) have c2: "wc_addr cl2 = addr" "\<forall>f. wc_filter cl2 = Some f \<longrightarrow> card f \<le> 16" "wc_tx cl2 = wc_tx cl"
    using a by (auto simp: effect_def)
  have "\<exists>c. ((nt_clients n)(addr \<mapsto> cl2)) a' = Some c \<and> wc_tx c = tx" if "sv_subs data' a' = Some tx" for a' tx
  proof (cases "a' = addr")
    case True
    have "tx = wc_tx cl"
      using that True assms(2,4) a sub [of addr]
      by (auto simp: effect_def sub_insert_def sub_remove_def)
    then show ?thesis using c2 True by simp
  next
    case False
    then have "sv_subs (nt_server n) a' = Some tx"
      using that assms(4) a(1) by (auto simp: effect_def sub_insert_def sub_remove_def)
    then show ?thesis using sub False by simp
  qed
  then show ?thesis
    using c2 others by (simp add: clients_ok_def)
qed

lemma net_step_clients_ok:
  assumes "net_step X n n'" "clients_ok n"
  shows "clients_ok n'"
  using assms(1)
proof cases
  case (connect addr tx)
  then show ?thesis
    using assms(2) by (fastforce simp: clients_ok_def WsClient_new_def)
next
  case (receive addr cl now m r)
  obtain st where "st \<in> {cl, cl\<lparr>wc_needs_pong := False\<rparr>}" "effect X now (nt_server n) st (ps_data r) (ps_client r)"
    using process_ws_msg_effect [OF receive(3)] by blast
  then show ?thesis
    using clients_ok_effect [OF assms(2) receive(2)] receive(1) by blast
next
  case (tick addr cl now out cl')
  then have "cl' \<in> {cl, cl\<lparr>wc_needs_pong := True\<rparr>}"
    by (auto simp: heartbeat_def Let_def split: if_splits)
  from clients_ok_effect [OF assms(2) tick(2) this effect_refl] show ?thesis
    using tick(1) by (cases n) simp
next
  case (disconnect addr cl)
  then show ?thesis
    using assms(2) by (auto simp: clients_ok_def sub_remove_def)
next
  case (mint now child_time force r sv)
  then have "sv_subs sv = sv_subs (nt_server n)"
    by (auto simp: produce_and_broadcast_def split: prod.splits sum.splits option.splits)
  then show ?thesis
    using assms(2) mint(1) by (simp add: clients_ok_def)
qed

text \<open>The minter of the server takes steps of the node only.\<close>

lemma net_step_node:
  assumes "net_step X n n'"
  shows "sv_minter (nt_server n') = sv_minter (nt_server n) \<or>
    node_step X (sv_minter (nt_server n)) (sv_minter (nt_server n'))"
  using assms
proof cases
  case (receive addr cl now m r)
  obtain st where "effect X now (nt_server n) st (ps_data r) (ps_client r)"
    using process_ws_msg_effect [OF receive(3)] by blast
  then have "sv_minter (ps_data r) = sv_minter (nt_server n) \<or>
      (\<exists>t. minter_push_tx X now (sv_minter (nt_server n)) t = Inr (sv_minter (ps_data r)))"
    by (auto simp: effect_def)
  then show ?thesis
    using receive(1) by (auto intro: node_step.push)
next
  case (mint now child_time force r sv)
  obtain out m where p: "produce X now child_time force (sv_minter (nt_server n)) = (out, m)"
    by (cases "produce X now child_time force (sv_minter (nt_server n))")
  have "sv_minter sv = m"
    using mint(2) p by (auto simp: produce_and_broadcast_def split: sum.splits option.splits)
  moreover have "node_step X (sv_minter (nt_server n)) m"
    using p mint(3) by (intro node_step.produce [OF p]) (auto simp: sv_chain_def)
  ultimately show ?thesis using mint(1) by simp
qed simp_all

lemma net_steps_node:
  assumes "(net_step X)\<^sup>*\<^sup>* n n'"
  shows "(node_step X)\<^sup>*\<^sup>* (sv_minter (nt_server n)) (sv_minter (nt_server n'))"
  using assms
proof (induction rule: rtranclp_induct)
  case (step n1 n2)
  then show ?case
    using net_step_node [OF step(2)] by (metis rtranclp.rtrancl_into_rtrancl)
qed simp

lemma net_steps_clients_ok: "(net_step X)\<^sup>*\<^sup>* n n' \<Longrightarrow> clients_ok n \<Longrightarrow> clients_ok n'"
  by (induction rule: rtranclp_induct) (auto intro: net_step_clients_ok)

end
