(* ===== verification/Default_Script.thy ===== *)
theory Default_Script
  imports Engine
begin

text \<open>
  The engine on code the builder wrote: one step of its loop per frame, and from it the behaviour of
  the script \<open>Account::create_default\<close> gives every plain account (\<open>account.rs\<close>).
\<close>

section \<open>Running built code\<close>

text \<open>One step of the loop on code written by the builder.\<close>

lemma consume_op_drop:
  assumes "drop pos scr = code @ post" "frame_code f = Inr code" "pos \<le> length scr"
  shows "consume_op scr pos = Inr (Some f, pos + length code)"
  using consume_op_frame_code [OF assms(2), of "take pos scr" post] assms(1,3)
  by (metis append_take_drop_id length_take min.absorb2)

lemma run_loop_step:
  assumes "drop (eg_pos (rs_engine rs)) (ed_script d) = code @ post" "frame_code f = Inr code" "code \<noteq> []"
  shows "run_loop X d rs =
    (case exec_op X d f (set_pos rs (eg_pos (rs_engine rs) + length code)) of
       Inl e \<Rightarrow> Inl e | Inr (Break rs) \<Rightarrow> Inr rs | Inr (Continue rs) \<Rightarrow> run_loop X d rs)"
proof -
  have "eg_pos (rs_engine rs) \<le> length (ed_script d)"
    using assms(1,3) by (metis append_is_Nil_conv drop_all nat_le_linear)
  then show ?thesis
    using consume_op_drop [OF assms(1,2)] by (subst run_loop.simps) simp
qed

lemma run_loop_end:
  "eg_pos (rs_engine rs) = length (ed_script d) \<Longrightarrow> run_loop X d rs = Inr rs"
  by (subst run_loop.simps) (simp add: consume_op_def set_pos_def)

text \<open>The script of a default account: its definition, and the four operations behind it.\<close>

lemma default_script:
  assumes "Account_create_default aid perms = (Inr acc :: 'e fail + account)"
  obtains pos where
    "get_fn_ptr (acc_script acc) 0 = Inr (Some (of_nat pos))" "pos < 2 ^ 32" "pos \<le> length (acc_script acc)"
    "drop pos (acc_script acc) = define_code [ArgAccountId, ArgAsset] @
       (operand_byte operand.PushAccountId # be_bytes 8 aid) @ [operand_byte operand.OpCheckPermsFastFail] @
       [operand_byte operand.OpTransfer] @ [operand_byte operand.PushTrue]"
proof -
  let ?code = "define_code [ArgAccountId, ArgAsset] @
       (operand_byte operand.PushAccountId # be_bytes 8 aid) @ [operand_byte operand.OpCheckPermsFastFail] @
       [operand_byte operand.OpTransfer] @ [operand_byte operand.PushTrue]"
  let ?f = "\<lparr>fb_id = 0, byte_code = ?code\<rparr>"
  obtain b where b: "Builder_push Builder_new ?f = (Inr b :: 'e fail + builder)"
    "build b = Inr (acc_script acc)"
    using assms by (auto simp: Account_create_default_def FnBuilder_new_def FnBuilder_push_def define_code_def
        fallible_iffs)
  then have "Builder_push_all Builder_new ([] @ ?f # []) = (Inr b :: 'e fail + builder)" by simp
  from built_function_found [OF this b(2)] obtain ptr where
    "get_fn_ptr (acc_script acc) 0 = Inr (Some ptr)" "unat ptr \<le> length (acc_script acc)"
    "drop (unat ptr) (acc_script acc) = ?code"
    by auto
  moreover have "unat ptr < 2 ^ 32" using unsigned_less [of ptr, where 'a = nat] by simp
  ultimately show ?thesis using that [of "unat ptr"] by simp
qed

section \<open>The default script\<close>

lemma drop_behind: "drop pos scr = code @ rest \<Longrightarrow> drop (pos + length code) scr = rest"
  by (metis add.commute append_eq_conv_conj drop_drop)

text \<open>The engine right behind the definition, with its two arguments on the stack.\<close>

definition default_entry :: "'db engine_data \<Rightarrow> transfer_tx \<Rightarrow> nat \<Rightarrow> account_id \<Rightarrow> asset \<Rightarrow> run_state" where
  "default_entry d t pos to a =
     \<lparr>rs_engine = \<lparr>eg_pos = pos + 4, eg_stack = [FrameAsset a, FrameAccountId to], eg_log = [],
        eg_total_amt = tr_amount t, eg_remaining_amt = tr_amount t\<rparr>,
      rs_if_marker = 0, rs_ignore_else = False\<rparr>"

lemma enter_default:
  assumes "pd_tx (ed_tx_data d) = TxV0 (TransferTx t)" "tr_args t = push_u64 to @ push_asset a @ extra"
    and "get_fn_ptr (ed_script d) 0 = Inr (Some (of_nat pos))" "pos < 2 ^ 32" "pos \<le> length (ed_script d)"
    and "drop pos (ed_script d) = define_code [ArgAccountId, ArgAsset] @ post"
  shows "enter_fn d (ScriptEngine_new d) 0 = Inr (rs_engine (default_entry d t pos to a))"
proof -
  have "unat (of_nat pos :: u32) = pos" using assms(4) by (simp add: unat_of_nat)
  moreover have "consume_op (ed_script d) pos = Inr (Some (OpDefine [ArgAccountId, ArgAsset]), pos + 4)"
  proof -
    have "take pos (ed_script d) @ define_code [ArgAccountId, ArgAsset] @ post = ed_script d"
      using assms(6) by (metis append_take_drop_id)
    moreover have "length (take pos (ed_script d)) = pos" "length (define_code [ArgAccountId, ArgAsset]) = 4"
      using assms(5) by (simp_all add: define_code_def)
    ultimately show ?thesis
      using consume_op_define_code [of "[ArgAccountId, ArgAsset]" "take pos (ed_script d)" post] by simp
  qed
  ultimately show ?thesis
    using assms(1-3)
    by (simp add: enter_fn_def tx_args_def Let_def ScriptEngine_new_def default_entry_def eng_push_def
        stack_push_def MAX_FRAME_STACK_def)
qed

text \<open>The states of the run, and its four steps.\<close>

definition at_state :: "transfer_tx \<Rightarrow> nat \<Rightarrow> stack \<Rightarrow> log_entry list \<Rightarrow> asset \<Rightarrow> run_state" where
  "at_state t pos st log rem =
     \<lparr>rs_engine = \<lparr>eg_pos = pos, eg_stack = st, eg_log = log, eg_total_amt = tr_amount t, eg_remaining_amt = rem\<rparr>,
      rs_if_marker = 0, rs_ignore_else = False\<rparr>"

lemma set_pos_at_state [simp]: "set_pos (at_state t pos st log rem) pos' = at_state t pos' st log rem"
  by (simp add: set_pos_def at_state_def)

lemma at_state_simps [simp]:
  "rs_engine (at_state t pos st log rem) =
     \<lparr>eg_pos = pos, eg_stack = st, eg_log = log, eg_total_amt = tr_amount t, eg_remaining_amt = rem\<rparr>"
  "(at_state t pos st log rem)\<lparr>rs_engine := \<lparr>eg_pos = p, eg_stack = s, eg_log = l,
     eg_total_amt = tr_amount t, eg_remaining_amt = r\<rparr>\<rparr> = at_state t p s l r"
  by (simp_all add: at_state_def)

lemma step_push_account:
  "length st < 64 \<Longrightarrow> exec_op X d (FrameAccountId i) (at_state t pos st log rem) =
    Inr (Continue (at_state t pos (FrameAccountId i # st) log rem))"
  by (simp add: with_engine_def eng_push_def stack_push_def MAX_FRAME_STACK_def)

lemma step_push_true:
  "length st < 64 \<Longrightarrow> exec_op X d FrameTrue (at_state t pos st log rem) =
    Inr (Continue (at_state t pos (FrameTrue # st) log rem))"
  by (simp add: with_engine_def eng_push_def stack_push_def MAX_FRAME_STACK_def)

definition perms_ok :: "'db ext \<Rightarrow> 'db engine_data \<Rightarrow> account \<Rightarrow> bool" where
  "perms_ok X d acc \<longleftrightarrow> Permissions_verify X (permissions acc) (txid_bytes (pd_txid (ed_tx_data d)))
     (tx_sigs (pd_tx (ed_tx_data d))) = Inr ()"

lemma step_check_perms:
  assumes "get_account X (ed_chain d) i (ed_receipts d) = (Inr (Some acc) :: eval_err fail + account option)"
  shows "exec_op X d OpCheckPermsFastFail (at_state t pos (FrameAccountId i # st) log rem) =
    (if perms_ok X d acc then Inr (Continue (at_state t pos st log rem)) else Inl (new_err pos ScriptRetFalse))"
  by (auto simp: with_engine_def exec_check_perms_def eng_pop_def pop_account_id_def check_acc_perms_def
      assms perms_ok_def fail_unless_def eng_err_def
      split: sum.splits perms_sig_verify_err.splits)

lemma get_account_no_Err: "get_account X c i rs \<noteq> Inl (Err e)"
  by (auto simp: get_account_def and_then_some_def and_then_Inl_iff idx_get_account_def unwrap_def
      split: option.splits)

lemma check_receiver_eq:
  assumes "chain_readable X d"
  shows "check_receiver X d eg i =
    (if receivable X d i then Inr () else Inl (new_err (eg_pos eg) eval_err_kind.AccountNotFound))"
proof (cases "get_account X (ed_chain d) i (ed_receipts d) :: eval_err fail + account option")
  case (Inl e)
  then show ?thesis
    using assms by (cases e) (auto simp: chain_readable_def get_account_no_Err)
qed (auto simp: check_receiver_def receivable_def eng_err_def split: option.splits)

lemma checked_sub_in_range:
  assumes "0 \<le> amt a" "a \<le> r"
  shows "Asset_checked_sub r a = Some (Asset (amount r - amount a))"
proof -
  have "fits 64 (amt r - amt a)"
    using assms amt_bounds [of r] by (simp add: fits_def asset_le_iff)
  then have "amt (Asset (word_of_int (amt r - amt a))) = amt r - amt a"
    by (rule amt_Asset_of_int)
  moreover have "(word_of_int (amt r - amt a) :: i64) = amount r - amount a"
    by (simp add: amt_def flip: wi_hom_sub)
  ultimately show ?thesis by (simp add: Asset_checked_sub_iff)
qed

lemma step_transfer:
  assumes "chain_readable X d"
  shows "exec_op X d OpTransfer (at_state t pos [FrameAsset a, FrameAccountId to] log rem) =
    (if amt a < 0 \<or> rem < a then Inl (new_err pos eval_err_kind.InvalidAmount)
     else if \<not> receivable X d to then Inl (new_err pos eval_err_kind.AccountNotFound)
     else Inr (Continue (at_state t pos [] (log @ [LogTransfer to a]) (Asset (amount rem - amount a)))))"
  by (auto simp: with_engine_def exec_transfer_def eng_pop_def pop_asset_def pop_account_id_def
      check_receiver_eq [OF assms] checked_sub_in_range eng_err_def not_less)

text \<open>The whole script, from behind its definition: every outcome.\<close>

lemma run_default:
  assumes code: "drop pos (ed_script d) = (operand_byte operand.PushAccountId # be_bytes 8 aid) @
       [operand_byte operand.OpCheckPermsFastFail] @ [operand_byte operand.OpTransfer] @
       [operand_byte operand.PushTrue]"
    and acc: "get_account X (ed_chain d) aid (ed_receipts d) = (Inr (Some acc) :: eval_err fail + account option)"
    and "chain_readable X d"
  shows "run_loop X d (at_state t pos [FrameAsset a, FrameAccountId to] [] rem) =
    (if \<not> perms_ok X d acc then Inl (new_err (pos + 10) ScriptRetFalse)
     else if amt a < 0 \<or> rem < a then Inl (new_err (pos + 11) eval_err_kind.InvalidAmount)
     else if \<not> receivable X d to then Inl (new_err (pos + 11) eval_err_kind.AccountNotFound)
     else Inr (at_state t (pos + 12) [FrameTrue] [LogTransfer to a] (Asset (amount rem - amount a))))"
proof -
  note c1 = drop_behind [OF code]
  note c2 = drop_behind [OF c1]
  note c3 = drop_behind [OF c2]
  have cs: "drop (pos + 9) (ed_script d) = [operand_byte operand.OpCheckPermsFastFail] @
       [operand_byte operand.OpTransfer] @ [operand_byte operand.PushTrue]"
    "drop (pos + 10) (ed_script d) = [operand_byte operand.OpTransfer] @ [operand_byte operand.PushTrue]"
    "drop (pos + 11) (ed_script d) = [operand_byte operand.PushTrue] @ []"
    using c1 c2 c3 by (simp_all add: add.commute)
  have "length (ed_script d) = pos + 12"
  proof -
    have "length (drop pos (ed_script d)) = 12" unfolding code by simp
    then show ?thesis by simp
  qed
  then have e: "run_loop X d (at_state t (pos + 12) st log r) = Inr (at_state t (pos + 12) st log r)" for st log r
    by (intro run_loop_end) simp
  have s4: "run_loop X d (at_state t (pos + 11) [] log r) = Inr (at_state t (pos + 12) [FrameTrue] log r)" for log r
    using cs(3) e by (subst run_loop_step [where f = FrameTrue])
      (auto simp: step_push_true add.assoc simp del: exec_op.simps)
  have s3: "run_loop X d (at_state t (pos + 10) [FrameAsset a, FrameAccountId to] [] rem) =
    (if amt a < 0 \<or> rem < a then Inl (new_err (pos + 11) eval_err_kind.InvalidAmount)
     else if \<not> receivable X d to then Inl (new_err (pos + 11) eval_err_kind.AccountNotFound)
     else Inr (at_state t (pos + 12) [FrameTrue] [LogTransfer to a] (Asset (amount rem - amount a))))"
    using cs(2) s4 by (subst run_loop_step [where f = OpTransfer])
      (auto simp: step_transfer [OF assms(3)] add.assoc simp del: exec_op.simps)
  have s2: "run_loop X d (at_state t (pos + 9) (FrameAccountId aid # st) [] rem) =
    (if perms_ok X d acc then run_loop X d (at_state t (pos + 10) st [] rem)
     else Inl (new_err (pos + 10) ScriptRetFalse))" for st
    using cs(1) by (subst run_loop_step [where f = OpCheckPermsFastFail])
      (auto simp: step_check_perms [OF acc] add.assoc simp del: exec_op.simps)
  have s1: "run_loop X d (at_state t pos [FrameAsset a, FrameAccountId to] [] rem) =
    run_loop X d (at_state t (pos + 9) [FrameAccountId aid, FrameAsset a, FrameAccountId to] [] rem)"
    using code by (subst run_loop_step [where f = "FrameAccountId aid"])
      (auto simp: step_push_account simp del: exec_op.simps)
  show ?thesis
    unfolding s1 s2 s3 by simp
qed

lemma finish_at_state:
  assumes "pd_tx (ed_tx_data d) = TxV0 (TransferTx t)"
  shows "finish d (at_state t pos [FrameTrue] [LogTransfer to a] rem) =
    Inr (LogTransfer to a # (if 0 < amt rem then [LogTransfer (tr_from t) rem] else []))"
  using assms by (simp add: finish_def at_state_def Let_def eng_pop_def pop_bool_def)

lemma default_script_eval:
  assumes "Account_create_default aid perms = (Inr dflt :: 'e fail + account)" "ed_script d = acc_script dflt"
    and "pd_tx (ed_tx_data d) = TxV0 (TransferTx t)" "call_fn t = 0"
    and "tr_args t = push_u64 to @ push_asset a @ extra"
    and "get_account X (ed_chain d) aid (ed_receipts d) = (Inr (Some acc) :: eval_err fail + account option)"
    and "chain_readable X d"
  shows "eval X d = Inr log \<longleftrightarrow>
    perms_ok X d acc \<and> 0 \<le> amt a \<and> a \<le> tr_amount t \<and> receivable X d to \<and>
    (let rem = Asset (amount (tr_amount t) - amount a)
     in log = LogTransfer to a # (if 0 < amt rem then [LogTransfer (tr_from t) rem] else []))"
proof -
  obtain pos where p: "get_fn_ptr (ed_script d) 0 = Inr (Some (of_nat pos))" "pos < 2 ^ 32"
    "pos \<le> length (ed_script d)"
    "drop pos (ed_script d) = define_code [ArgAccountId, ArgAsset] @
       (operand_byte operand.PushAccountId # be_bytes 8 aid) @ [operand_byte operand.OpCheckPermsFastFail] @
       [operand_byte operand.OpTransfer] @ [operand_byte operand.PushTrue]"
    using default_script [OF assms(1)] assms(2) by metis
  have e: "enter_fn d (ScriptEngine_new d) 0 = Inr (rs_engine (default_entry d t pos to a))"
    by (rule enter_default [OF assms(3,5) p])
  have entry: "default_entry d t pos to a =
      at_state t (pos + 4) [FrameAsset a, FrameAccountId to] [] (tr_amount t)"
    by (simp add: default_entry_def at_state_def)
  have "drop (pos + 4) (ed_script d) = (operand_byte operand.PushAccountId # be_bytes 8 aid) @
      [operand_byte operand.OpCheckPermsFastFail] @ [operand_byte operand.OpTransfer] @ [operand_byte operand.PushTrue]"
  proof -
    have "length (define_code [ArgAccountId, ArgAsset]) = 4" by (simp add: define_code_def)
    then show ?thesis using drop_behind [OF p(4)] by simp
  qed
  note run = run_default [OF this assms(6,7)]
  have "eval X d = and_then (run_loop X d (default_entry d t pos to a)) (finish d)"
    using e assms(3,4) by (simp add: eval_def call_function_def entry at_state_def)
  then show ?thesis
    unfolding entry run
    by (auto simp: finish_at_state [OF assms(3)] Let_def not_less)
qed

end
