(* ===== verification/Sample_Chain.thy ===== *)
theory Sample_Chain
  imports Sample Server Default_Script
begin

text \<open>
  A small run of the node on the sample environment, evaluated by the kernel: a genesis block, a
  signed mint accepted into the pool.  The properties of the chain are instantiated on it.
\<close>

definition sample_seeds :: "bytes list" where
  "sample_seeds = [replicate 32 1, replicate 32 2, replicate 32 3, replicate 32 4]"

definition keypair_of :: "u8 \<Rightarrow> key_pair" where
  "keypair_of n = KeyPair (PublicKey (replicate 32 n)) \<lparr>seed = replicate 32 n, key = replicate 64 n\<rparr>"

definition minter_key :: key_pair where "minter_key = keypair_of 9"

definition empty_chain :: "sample_db blockchain" where
  "empty_chain = \<lparr>bc_db = [], bc_store = \<lparr>st_height = 0, st_blocks = [], st_genesis = None, st_file = [], st_byte_pos_tail = 0\<rparr>\<rparr>"

definition genesis_run :: "unit fail + sample_db blockchain \<times> genesis_block_info" where
  "genesis_run = create_genesis_block sample 1000 sample_seeds empty_chain minter_key"

definition chain1 :: "sample_db blockchain" where "chain1 = fst (projr genesis_run)"
definition info1 :: genesis_block_info where "info1 = snd (projr genesis_run)"
definition genesis1 :: block where "genesis1 = genesis_block sample 1000 info1"

definition minter_run :: "unit fail + sample_db minter" where
  "minter_run = Minter_new sample chain1 minter_key False"

definition minter1 :: "sample_db minter" where "minter1 = projr minter_run"

text \<open>A mint of five tokens to the owner's wallet, signed by two of its keys.\<close>

definition mint_tx1 :: tx_variant where
  "mint_tx1 = append_sign sample (append_sign sample
     (TxV0 (MintTx \<lparr>mint_base = \<lparr>nonce = 1, expiry = 3000, fee = Asset 0, signature_pairs = []\<rparr>,
        mint_to = 0, mint_amount = Asset 500000, attachment = [], attachment_name = []\<rparr>))
     (keypair_of 1)) (keypair_of 3)"

definition push_run :: "tx_err fail + sample_db minter" where
  "push_run = minter_push_tx sample 2000 minter1 mint_tx1"

definition minter2 :: "sample_db minter" where "minter2 = projr push_run"

lemma not_isl_projr: "\<not> isl x \<Longrightarrow> x = Inr (projr x)"
  by (cases x) simp_all

lemma genesis_run_ok: "create_genesis_block sample 1000 sample_seeds empty_chain minter_key =
    (Inr (chain1, info1) :: unit fail + _)"
proof -
  have "\<not> isl genesis_run" by code_simp
  from not_isl_projr [OF this] show ?thesis by (simp add: genesis_run_def chain1_def info1_def)
qed

lemma minter_run_ok: "Minter_new sample chain1 minter_key False = (Inr minter1 :: unit fail + _)"
proof -
  have "\<not> isl minter_run" by code_simp
  from not_isl_projr [OF this] show ?thesis by (simp add: minter_run_def minter1_def)
qed

lemma push_run_ok: "minter_push_tx sample 2000 minter1 mint_tx1 = Inr minter2"
proof -
  have "\<not> isl push_run" by code_simp
  from not_isl_projr [OF this] show ?thesis by (simp add: push_run_def minter2_def)
qed

section \<open>The genesis block is well formed\<close>

lemma wf_keypair_of: "wf_key_pair sample (keypair_of n)"
  by (simp add: wf_key_pair_def keypair_of_def sample_def SEEDBYTES_def replicate_add [symmetric])

lemma info1_eq:
  "gi_owner_id info1 = 0 \<and> gi_minter_key info1 = minter_key \<and>
   gi_wallet_keys info1 = map keypair_of [1, 2, 3, 4] \<and> length (gi_script info1) = 39"
  by code_simp

lemma genesis1_length: "length (block_bytes genesis1) = 452"
  by code_simp

lemma wf_wallet1: "wf_account (genesis_owner_wallet info1)"
  using info1_eq by (simp add: wf_account_def genesis_owner_wallet_def wf_bytes_def wf_permissions_def
      wf_public_key_def keypair_of_def PUBLICKEYBYTES_def)

lemma wf_genesis_txs: "wf_tx (genesis_owner_tx now info1)" "wf_tx (genesis_create_tx now info1)"
  using info1_eq wf_wallet1
  by (simp_all add: genesis_owner_tx_def genesis_create_tx_def genesis_base_def wf_body_def wf_sigs_def
      wf_public_key_def minter_key_def keypair_of_def PUBLICKEYBYTES_def)

lemma genesis1_storable: "storable genesis1"
proof -
  have "wf_block genesis1"
    unfolding genesis1_def genesis_block_def Let_def
    using wf_genesis_txs wf_double_sha256 [OF sample_sha256_ok]
    by (intro wf_Block_sign sample_sign_ok)
      (simp_all add: block_accessors wf_receipt_def info1_eq minter_key_def wf_keypair_of wf_digest_def
        size_constants calc_receipt_root_eq [OF sample_sha256_ok])
  then show ?thesis by (simp add: storable_def genesis1_length)
qed

lemma genesis1_record: "length (disk_record sample genesis1) < 2 ^ 64"
  by (simp add: disk_record_def disk_meta_eq genesis1_length)

lemma empty_chain_empty: "empty_node sample empty_chain"
  by (simp add: empty_node_def empty_chain_def sample_def)

text \<open>The chain after genesis, and the node that serves it.\<close>

lemmas genesis1_facts = genesis_run_ok empty_chain_empty sample_db_ok genesis1_storable [unfolded genesis1_def]
  genesis1_record [unfolded genesis1_def] wf_wallet1 wf_genesis_txs(1)

lemma chain1_repr: "chain_repr sample chain1 [genesis1]"
  unfolding genesis1_def by (rule create_genesis_repr [OF genesis1_facts])

lemma minter1_ok: "node_ok sample minter1 [genesis1]" "mt_key minter1 = minter_key"
  using genesis_node_ok [OF genesis1_facts minter_run_ok] by (simp_all add: genesis1_def)

section \<open>A child of the genesis block\<close>

definition child1 :: "block_err fail + block" where
  "child1 = new_child sample 2500 (block_v0 genesis1) []"

definition block1 :: block where "block1 = Block_sign sample (projr child1) minter_key"

definition index1 :: "block_err fail + write_batch" where
  "index1 = index_block sample chain1 WriteBatch_new block1"

lemma flush1: "pool_flush sample 2500 (mt_pool minter1) = (Inr ([], mt_pool minter1) :: block_err fail + _)"
  by code_simp

lemma child1_ok: "new_child sample 2500 (block_v0 genesis1) [] = (Inr (projr child1) :: block_err fail + block)"
  by (simp add: child1_def new_child_def and_then_def)

lemma block1_parts: "Block_receipts block1 = [] \<and> Block_height block1 = 1 \<and> length (block_bytes block1) = 183"
  by code_simp

lemma index1_ok: "index_block sample chain1 WriteBatch_new block1 = (Inr (projr index1) :: block_err fail + _)"
proof -
  have "\<not> isl index1" by code_simp
  from not_isl_projr [OF this] show ?thesis by (simp only: index1_def)
qed

lemma chain1_parts: "st_height (bc_store chain1) = 0 \<and> length (st_file (bc_store chain1)) = 460"
  by code_simp

lemma wf_minter_key: "wf_key_pair sample minter_key"
  by (simp add: minter_key_def wf_keypair_of)

lemma block1_storable: "storable block1"
proof -
  have "wf_block block1"
    unfolding block1_def
    by (intro wf_Block_sign sample_sign_ok wf_minter_key)
      (simp_all add: child1_def new_child_def and_then_def block_accessors wf_digest_def BlockV0_calc_header_hash_def
        wf_double_sha256 [OF sample_sha256_ok, unfolded wf_digest_def] calc_receipt_root_eq [OF sample_sha256_ok])
  then show ?thesis by (simp add: storable_def block1_parts)
qed

lemma block1_room: "room sample chain1 block1"
  by (simp add: room_def chain1_parts disk_record_def disk_meta_eq block1_parts)

lemma chain1_owner: "chain_get_owner sample chain1 =
    (Inr (TxV0 (OwnerTx \<lparr>own_base = genesis_base 1000, minter = kp_public minter_key, wallet = 0\<rparr>)) :: 'e fail + _)"
  using create_genesis_repr(2) [OF genesis1_facts, where 'f = 'e] info1_eq
  by (simp add: chain_get_owner_def genesis_owner_tx_def)

lemma minter1_parts: "rp_chain (mt_pool minter1) = chain1" "rp_receipts (mt_pool minter1) = []"
    "mt_key minter1 = minter_key"
proof -
  have e: "minter1 = \<lparr>mt_pool = ReceiptPool_new chain1, mt_key = minter_key, mt_enable_stale = False\<rparr>"
    using minter_run_ok by (auto simp: Minter_new_def chain1_owner)
  show "rp_chain (mt_pool minter1) = chain1" "rp_receipts (mt_pool minter1) = []" "mt_key minter1 = minter_key"
    unfolding e by (simp_all add: ReceiptPool_new_def)
qed

lemma block1_verifies: "verify_block sample chain1 block1 genesis1 = Inr ()"
proof (rule verify_block_intro [OF _ _ _ chain1_owner])
  note l = new_child_link [OF child1_ok wf_minter_key sample_sign_ok, folded block1_def]
  show "link_ok sample genesis1 block1" by (rule l(1))
  show "Block_signer block1 =
      Some (KeyPair_sign sample minter_key (digest_bytes (calc_header_hash sample (projr child1))))"
    by (rule l(4))
  show "verify_receipts sample chain1 [] (Block_receipts block1) = Inr ()"
    by (simp add: l(2))
qed (simp add: KeyPair_sign_def)

end
