(* ===== verification/Sample_Pending.thy ===== *)
theory Sample_Pending
  imports Sample_Chain
begin

text \<open>
  What the sample chain answers about its wallet behind a pending mint of five tokens: the account,
  its fee and its permissions, the values the instances of the properties start from.
\<close>

definition mint_receipt :: receipt where
  "mint_receipt = \<lparr>rc_tx = mint_tx1, rc_log = []\<rparr>"

lemma chain1_wallet: "idx_get_account sample (bc_db chain1) 0 = (Inr (Some (genesis_owner_wallet info1)) :: 'e fail + _)"
  using create_genesis_repr(3) [OF genesis1_facts, where 'f = 'e] info1_eq by simp

lemma genesis1_receipts:
  "Block_receipts genesis1 = [\<lparr>rc_tx = genesis_create_tx 1000 info1, rc_log = []\<rparr>,
     \<lparr>rc_tx = genesis_owner_tx 1000 info1, rc_log = []\<rparr>]"
  unfolding genesis1_def genesis_block_def Let_def by simp (simp add: block_accessors)

lemma genesis1_charges: "window_charges 0 0 (rev [genesis1]) = 1"
  by (simp add: Let_def genesis1_receipts charge_count_def charges_def genesis_create_tx_def genesis_owner_tx_def
      FEE_RESET_WINDOW_def)

definition info_minted :: account_info where
  "info_minted = \<lparr>ai_account = genesis_owner_wallet info1\<lparr>balance := Asset 500000\<rparr>, ai_net_fee = Asset 25, ai_account_fee = Asset 100\<rparr>"

lemma wallet_minted: "get_account sample chain1 0 [mint_receipt] = (Inr (Some (ai_account info_minted)) :: 'e fail + _)"
  by (simp add: get_account_def chain1_wallet and_then_some_def and_then_def apply_receipt_def mint_receipt_def
      mint_tx1_def append_sign_def info_minted_def genesis_owner_wallet_def Asset_default_def
      Asset_checked_add_def int_checked_add_def checked_def fits_def)

lemma info_minted_ok: "get_account_info sample chain1 0 [mint_receipt] = (Inr (Some info_minted) :: 'e fail + _)"
proof -
  have f: "get_account_fee sample chain1 0 [mint_receipt] = (Inr (Some (Asset 100)) :: 'e fail + _)"
    using get_account_fee_repr [OF chain1_repr sample_bigint_ok refl, of 0 "[mint_receipt]", where 'e = 'e] genesis1_charges
    by (simp add: charge_count_def charges_def mint_receipt_def mint_tx1_def append_sign_def)
  have n: "get_network_fee sample chain1 = (Inr (Some (Asset 25)) :: 'e fail + _)"
    using get_network_fee_repr [OF chain1_repr refl, where 'e = 'e]
    by (simp add: fee_window_def genesis1_receipts scaled_fee_0 [OF sample_bigint_ok] GRAEL_FEE_MIN_def)
  show ?thesis
    by (simp add: get_account_info_def wallet_minted f n and_then_some_def and_then_def info_minted_def)
qed


lemma chain1_readable:
  assumes "ed_chain d = chain1"
  shows "chain_readable sample d"
proof -
  have "idx_get_account sample (bc_db chain1) i \<noteq> (Inl Panic :: eval_err fail + account option)" for i
    using create_genesis_repr(3) [OF genesis1_facts, of i, where 'f = eval_err] by simp
  then show ?thesis
    using assms by (simp add: chain_readable_def get_account_def and_then_some_def and_then_Inl_iff
        get_chain_head_repr [OF chain1_repr] split: sum.splits option.splits)
qed

end
