(* ===== verification/Reopen.thy ===== *)
theory Reopen
  imports Chain_Steps
begin

text \<open>
  Starting again: the node opened on the log and the index it left, and the index rebuilt from the
  log alone, also when the last record of the log was cut off.
\<close>

section \<open>Opening\<close>

lemma reopen_repr:
  assumes "chain_repr X c bs" "get_index_status X (bc_db c) = (Inr status :: 'e fail + _)"
  shows "\<exists>c'. Blockchain_new X (bc_db c) (st_file (bc_store c)) = (Inr c' :: 'e fail + _) \<and>
    chain_repr X c' bs \<and> bc_db c' = bc_db c"
proof -
  let ?st = "\<lparr>st_height = 0, st_blocks = [], st_genesis = None, st_file = st_file (bc_store c),
      st_byte_pos_tail = of_nat (length (st_file (bc_store c)))\<rparr> :: block_store"
  have r: "store_repr X (bc_db c) (bc_store c) bs" and h: "height_stored X (bc_db c) (length bs - 1)"
    using assms(1) by (simp_all add: chain_repr_def)
  have p: "bs \<noteq> []" "chain_ok X bs" "positions_ok X (bc_db c) bs" "st_file ?st = log_bytes X bs"
    "st_byte_pos_tail ?st = of_nat (length (log_bytes X bs))"
    "st_genesis ?st = None \<or> st_genesis ?st = Some (bs ! 0)" "cache_ok (st_blocks ?st) bs"
    using r by (simp_all add: store_repr_def cache_ok_def)
  obtain st where "init_state X (bc_db c) ?st = (Inr st :: 'e fail + _)" "store_repr X (bc_db c) st bs"
    by (rule init_state_repr [OF p(1-3) height_stored_get [OF h] p(4-7) assms(2)])
  then show ?thesis
    using h by (simp add: Blockchain_new_def BlockStore_new_def chain_repr_def)
qed

section \<open>What the loop leaves in the batch\<close>

definition indexer_ok :: "(write_batch \<Rightarrow> block \<Rightarrow> 'e fail + write_batch) \<Rightarrow> bool" where
  "indexer_ok f \<longleftrightarrow> (\<forall>batch b batch'. f batch b = Inr batch' \<longrightarrow>
     wb_chain_height batch' = wb_chain_height batch \<and> wb_block_byte_pos batch' = wb_block_byte_pos batch \<and>
     (wf_batch batch \<longrightarrow> storable b \<longrightarrow> wf_batch batch'))"

lemma index_block_indexer: "indexer_ok (index_block X c :: write_batch \<Rightarrow> block \<Rightarrow> 'e fail + write_batch)"
  unfolding indexer_ok_def
proof (intro allI impI)
  fix batch b batch'
  assume "index_block X c batch b = (Inr batch' :: 'e fail + _)"
  note r = index_block_rest [OF this]
  show "wb_chain_height batch' = wb_chain_height batch \<and> wb_block_byte_pos batch' = wb_block_byte_pos batch \<and>
      (wf_batch batch \<longrightarrow> storable b \<longrightarrow> wf_batch batch')"
    using r by (simp add: storable_def wf_block_def)
qed

lemma index_chain_append:
  "index_chain X f pos (bs @ cs) batch =
    and_then (index_chain X f pos bs batch) (index_chain X f (pos + length (log_bytes X bs)) cs)"
proof (induction bs arbitrary: pos batch)
  case (Cons b bs)
  have "index_chain X f p (bs @ cs) =
      (\<lambda>batch. and_then (index_chain X f p bs batch) (index_chain X f (p + length (log_bytes X bs)) cs))" for p
    by (rule ext) (rule Cons.IH)
  then show ?case by (simp add: and_then_assoc add.assoc)
qed simp

lemma chain_ok_butlast:
  assumes "chain_ok X (bs @ [b])"
  shows "chain_ok X bs" "storable b" "Block_height b = of_nat (length bs)" "length bs < 2 ^ 64"
proof -
  show "chain_ok X bs"
    using assms chain_ok_nth [OF assms] by (simp add: chain_ok_def nth_append) (metis less_SucI)
  show "storable b" "length bs < 2 ^ 64" using assms by (simp_all add: chain_ok_def)
  show "Block_height b = of_nat (length bs)"
    using chain_ok_nth [OF assms, of "length bs"] by simp
qed

lemma index_chain_positions:
  assumes "index_chain X f 0 bs WriteBatch_new = Inr batch" "indexer_ok f" "chain_ok X bs"
  shows "wf_batch batch \<and> wb_chain_height batch = (if bs = [] then None else Some (of_nat (length bs - 1))) \<and>
    (\<forall>i < length bs. map_of (wb_block_byte_pos batch) (of_nat i) = Some (of_nat (offset X bs i)))"
  using assms(1,3)
proof (induction bs arbitrary: batch rule: rev_induct)
  case Nil
  then have "batch = WriteBatch_new" by simp
  then show ?case using wf_batch_new by (simp add: WriteBatch_new_def)
next
  case (snoc b bs)
  note ok = chain_ok_butlast [OF snoc.prems(2)]
  obtain b1 where b1: "index_chain X f 0 bs WriteBatch_new = Inr b1"
    "f (record_block b1 (Block_height b) (of_nat (length (log_bytes X bs)))) b = Inr batch"
    using snoc.prems(1) by (auto simp: index_chain_append fallible_iffs)
  note ih = snoc.IH [OF b1(1) ok(1)]
  have f: "wb_chain_height batch = Some (of_nat (length bs))"
    "map_of (wb_block_byte_pos batch) =
      (map_of (wb_block_byte_pos b1))(of_nat (length bs) \<mapsto> of_nat (length (log_bytes X bs)))"
    "wf_batch batch"
    using assms(2) b1(2) ih ok(2,3) by (auto simp: indexer_ok_def)
  have "(of_nat i :: u64) \<noteq> of_nat (length bs)" if "i < length bs" for i
    using that ok(4) unat_height [of i] unat_height [of "length bs"] by (metis less_irrefl less_trans)
  then show ?case
    using ih f by (auto simp: less_Suc_eq offset_append) (simp add: offset_def)
qed

section \<open>Rebuilding the index\<close>

lemma reindex_commit_repr:
  assumes "index_chain X f 0 bs WriteBatch_new = Inr batch" "indexer_ok f" "chain_ok X bs" "bs \<noteq> []" "db_ok X"
  shows "positions_ok X (set_index_status X (commit X db batch) s) bs"
    and "height_stored X (set_index_status X (commit X db batch) s) (length bs - 1)"
proof -
  note p = index_chain_positions [OF assms(1-3)]
  show "positions_ok X (set_index_status X (commit X db batch) s) bs"
    unfolding set_index_status_reads [OF assms(5)]
    using p by (simp add: positions_ok_def wf_batch_def commit_positions [OF assms(5)])
  show "height_stored X (set_index_status X (commit X db batch) s) (length bs - 1)"
    unfolding set_index_status_reads [OF assms(5)]
    using p assms(4) by (simp add: height_stored_def commit_default [OF assms(5)])
qed

text \<open>The whole log, or the log with a torn record whose header is complete.\<close>

definition torn_log :: "'db ext \<Rightarrow> block list \<Rightarrow> bytes \<Rightarrow> bool" where
  "torn_log X bs file \<longleftrightarrow> (\<exists>b n. storable b \<and> n < length (disk_record X b) \<and> (n = 0 \<or> 8 \<le> n) \<and>
     file = log_bytes X bs @ take n (disk_record X b))"

lemma reindex_blocks_repr:
  assumes "torn_log X bs (st_file self)" "chain_ok X bs" "bs \<noteq> []" "db_ok X" "indexer_ok f"
    and "index_chain X f 0 bs WriteBatch_new = (Inr batch :: 'e fail + _)"
    and "st_genesis self = None" "st_blocks self = []" "st_byte_pos_tail self = of_nat (length (st_file self))"
  shows "\<exists>st. reindex_blocks X True f db self = Inr (set_index_status X (commit X db batch) StatusComplete, st) \<and>
    store_repr X (set_index_status X (commit X db batch) StatusComplete) st bs"
proof -
  let ?db = "set_index_status X (commit X db batch) StatusComplete"
  obtain b n where t: "storable b" "n < length (disk_record X b)" "n = 0 \<or> 8 \<le> n"
    "st_file self = log_bytes X bs @ take n (disk_record X b)"
    using assms(1) by (auto simp: torn_log_def)
  have "list_all storable bs" using assms(2) by (simp add: chain_ok_def)
  from reindex_loop_recovers [OF this chain_ok_heights_follow [OF assms(2)] t(1,2), of f WriteBatch_new]
  have loop: "reindex_loop X True f (st_file self) WriteBatch_new 0 0 =
      Inr (batch, if n < 8 then None else Some (length (log_bytes X bs)))"
    by (simp add: t(4) assms(6))
  have set_len: "set_len (st_file self) (length (log_bytes X bs)) = log_bytes X bs"
    by (simp add: t(4) set_len_def)
  let ?self = "if n < 8 then self
      else self\<lparr>st_file := log_bytes X bs, st_byte_pos_tail := of_nat (length (log_bytes X bs))\<rparr>"
  note p = reindex_commit_repr [OF assms(6,5,2,3,4), of db StatusComplete]
  obtain st where st: "init_state X ?db ?self = (Inr st :: 'e fail + _)" "store_repr X ?db st bs"
    by (rule init_state_repr [OF assms(3,2) p(1), of ?self StatusComplete])
      (use height_stored_get [OF p(2)] get_index_status_set [OF assms(4)] assms(7-9) t(3,4) in
        \<open>auto simp: cache_ok_def\<close>)
  have "reindex_blocks X True f db self = and_then (init_state X ?db ?self) (\<lambda>self. Inr (?db, self))"
    using t(3) by (auto simp: reindex_blocks_def loop Let_def set_len)
  also have "\<dots> = Inr (?db, st)" unfolding st(1) by simp
  finally show ?thesis using st(2) by blast
qed

section \<open>The identifiers of recent transactions\<close>

lemma store_repr_insert_txid:
  "db_ok X \<Longrightarrow> store_repr X (insert_txid X db i e) st bs = store_repr X db st bs"
  by (simp add: store_repr_def positions_ok_def insert_txid_positions)

lemma height_stored_insert_txid:
  "db_ok X \<Longrightarrow> height_stored X (insert_txid X db i e) n = height_stored X db n"
  by (simp add: height_stored_def insert_txid_def db_get_write)

text \<open>Replaying receipts writes identifiers only.\<close>

definition txids_only :: "'db ext \<Rightarrow> 'db \<Rightarrow> 'db \<Rightarrow> bool" where
  "txids_only X db db' \<longleftrightarrow> (\<forall>cf k. cf \<noteq> CF_TX_EXPIRY \<longrightarrow> db_get X db' cf k = db_get X db cf k)"

lemma txids_only_refl [simp]: "txids_only X db db"
  by (simp add: txids_only_def)

lemma txids_only_trans: "txids_only X a b \<Longrightarrow> txids_only X b c \<Longrightarrow> txids_only X a c"
  by (simp add: txids_only_def)

lemma reindex_txid_only: "db_ok X \<Longrightarrow> txids_only X db (reindex_txid X now db r)"
  by (simp add: reindex_txid_def Let_def txids_only_def insert_txid_def db_get_write)

lemma reindex_txid_fold_only: "db_ok X \<Longrightarrow> txids_only X db (foldl (reindex_txid X now) db rs)"
proof (induction rs arbitrary: db)
  case (Cons r rs)
  then show ?case using txids_only_trans [OF reindex_txid_only] by fastforce
qed simp

lemma families_distinct: "CF_DEFAULT \<noteq> CF_TX_EXPIRY" "CF_BLOCK_BYTE_POS \<noteq> CF_TX_EXPIRY" "CF_ACCOUNT \<noteq> CF_TX_EXPIRY"
  by (simp_all add: CF_DEFAULT_def CF_BLOCK_BYTE_POS_def CF_TX_EXPIRY_def CF_ACCOUNT_def)

lemma txids_only_reads:
  assumes "txids_only X db db'"
  shows "store_repr X db' st bs = store_repr X db st bs" "height_stored X db' n = height_stored X db n"
    "idx_get_account X db' i = idx_get_account X db i" "get_token_supply X db' = get_token_supply X db"
    "get_owner X db' = get_owner X db" "get_index_status X db' = get_index_status X db"
  using assms families_distinct
  by (simp_all add: txids_only_def store_repr_def positions_ok_def height_stored_def idx_get_account_def
      get_token_supply_def get_owner_def get_index_status_def)

lemma reindex_txids_repr:
  assumes "store_repr X db st bs" "n < length bs" "length bs < 2 ^ 64" "db_ok X"
  shows "\<exists>db'. reindex_txids X now st n db = (Inr db' :: 'e fail + 'db) \<and> txids_only X db db'"
  using assms(1,2)
proof (induction n arbitrary: db)
  case 0
  then show ?case
    using reindex_txid_fold_only [OF assms(4)]
    by (auto simp: store_get_repr [OF 0(1)] unwrap_def)
next
  case (Suc n)
  have u: "unat (of_nat (Suc n) :: u64) = Suc n"
    by (rule unat_height) (use Suc.prems(2) assms(3) in linarith)
  let ?b = "bs ! Suc n"
  let ?db = "foldl (reindex_txid X now) db (Block_receipts ?b)"
  have o: "txids_only X db ?db" by (rule reindex_txid_fold_only [OF assms(4)])
  have r: "store_repr X ?db st bs" using Suc.prems(1) txids_only_reads(1) [OF o] by simp
  obtain db' where d: "reindex_txids X now st n ?db = (Inr db' :: 'e fail + 'db)" "txids_only X ?db db'"
    using Suc.IH [OF r] Suc.prems(2) by auto
  have "and_then (store_get X db st (of_nat (Suc n))) unwrap = (Inr ?b :: 'e fail + block)"
    using Suc.prems(2) unfolding store_get_repr [OF Suc.prems(1)] u by (simp add: unwrap_def)
  then show ?case
    using d txids_only_trans [OF o d(2)] unfolding reindex_txids.simps by auto
qed

section \<open>Reindexing\<close>

definition genesis_accounts :: "'db ext \<Rightarrow> 'db \<Rightarrow> block \<Rightarrow> 'db" where
  "genesis_accounts X db g = foldl (preindex_receipt X) db (Block_receipts g)"

text \<open>On an index that was removed, the command rebuilds it for the complete blocks of the log.\<close>

lemma reindex_repr:
  assumes "torn_log X bs (st_file (bc_store c))" "chain_ok X bs" "bs \<noteq> []" "db_ok X"
    and "get_index_status X (bc_db c) = (Inr StatusNone :: 'e fail + _)"
    and "st_height (bc_store c) = 0" "st_genesis (bc_store c) = None" "st_blocks (bc_store c) = []"
    and "st_byte_pos_tail (bc_store c) = of_nat (length (st_file (bc_store c)))"
    and "length (Block_receipts (bs ! 0)) = 2"
    and "index_chain X (index_block X (c\<lparr>bc_db := genesis_accounts X (bc_db c) (bs ! 0)\<rparr>)) 0 bs WriteBatch_new =
      (Inr batch :: 'e fail + _)"
  shows "\<exists>c'. reindex X now True c = (Inr c' :: 'e fail + _) \<and> chain_repr X c' bs \<and>
    txids_only X (set_index_status X (commit X (genesis_accounts X (bc_db c) (bs ! 0)) batch) StatusComplete) (bc_db c')"
proof -
  let ?db0 = "genesis_accounts X (bc_db c) (bs ! 0)"
  let ?f = "index_block X (c\<lparr>bc_db := ?db0\<rparr>) :: write_batch \<Rightarrow> block \<Rightarrow> 'e fail + write_batch"
  let ?db1 = "set_index_status X (commit X ?db0 batch) StatusComplete"
  obtain junk where "st_file (bc_store c) = log_bytes X bs @ junk"
    using assms(1) unfolding torn_log_def by blast
  then have "raw_read_from_disk X (st_file (bc_store c)) 0 = Inr (bs ! 0, offset X bs (Suc 0))"
    using assms(2,3) raw_read_nth [of bs 0 X junk] by (simp add: chain_ok_def offset_def [of X bs 0])
  then have pre: "preindex_genesis X c = (Inr ?db0 :: 'e fail + _)"
    using assms(6,10) by (simp add: preindex_genesis_def genesis_accounts_def)
  obtain st where st: "reindex_blocks X True ?f ?db0 (bc_store c) = (Inr (?db1, st) :: 'e fail + _)"
    "store_repr X ?db1 st bs"
    using reindex_blocks_repr [OF assms(1-4) index_block_indexer assms(11,7-9)] by blast
  have h: "height_stored X ?db1 (length bs - 1)"
    by (rule reindex_commit_repr [OF assms(11) index_block_indexer assms(2,3,4)])
  have len: "length bs < 2 ^ 64" "length bs - 1 < length bs" using assms(2,3) by (auto simp: chain_ok_def)
  have u: "unat (of_nat (length bs - 1) :: u64) = length bs - 1"
    by (rule unat_height) (use len in linarith)
  obtain db2 where d: "reindex_txids X now st (length bs - 1) ?db1 = (Inr db2 :: 'e fail + _)" "txids_only X ?db1 db2"
    using reindex_txids_repr [OF st(2) len(2,1) assms(4)] by blast
  have "reindex X now True c = (Inr \<lparr>bc_db = db2, bc_store = st\<rparr> :: 'e fail + _)"
    by (simp add: reindex_def assms(5) pre st(1) height_stored_get [OF h] u [simplified] d(1) [simplified])
  moreover have "chain_repr X \<lparr>bc_db = db2, bc_store = st\<rparr> bs"
    using st(2) h by (simp add: chain_repr_def txids_only_reads [OF d(2)])
  ultimately show ?thesis using d(2) by auto
qed

end
