(* ===== verification/Rebuild.thy ===== *)
theory Rebuild
  imports Node Reopen
begin

text \<open>
  Rebuilding agrees with running: the index a node maintained block by block, one commit each, and
  the index rebuilt from its log by one batch over all blocks answer alike.
\<close>

section \<open>Two batches with the same view\<close>

definition batch_owner :: "'db ext \<Rightarrow> 'db \<Rightarrow> write_batch \<Rightarrow> 'e fail + tx_variant option" where
  "batch_owner X db b = (case wb_owner b of Some t \<Rightarrow> Inr (Some t) | None \<Rightarrow> get_owner X db)"

lemma batch_owner_simps [simp]:
  "batch_owner X db (put_account_mut b i acc) = batch_owner X db b"
  "batch_owner X db (record_block b h pos) = batch_owner X db b"
  "batch_owner X db (b\<lparr>wb_token_supply := s\<rparr>) = batch_owner X db b"
  "batch_owner X db (b\<lparr>wb_owner := Some t\<rparr>) = Inr (Some t)"
  "batch_owner X db WriteBatch_new = get_owner X db"
  by (simp_all add: batch_owner_def) (simp add: WriteBatch_new_def)

type_synonym index_result = "block_err fail + write_batch"

definition eqv :: "'db ext \<Rightarrow> 'db \<Rightarrow> 'db \<Rightarrow> write_batch \<Rightarrow> write_batch \<Rightarrow> bool" where
  "eqv X db db2 b b2 \<longleftrightarrow>
     (\<forall>i. batch_account X db b i = (batch_account X db2 b2 i :: block_err fail + account option)) \<and>
     batch_supply X db b = (batch_supply X db2 b2 :: block_err fail + asset) \<and>
     batch_owner X db b = (batch_owner X db2 b2 :: block_err fail + tx_variant option)"

abbreviation same_result :: "'db ext \<Rightarrow> 'db \<Rightarrow> 'db \<Rightarrow> index_result \<Rightarrow> index_result \<Rightarrow> bool" where
  "same_result X db db2 \<equiv> rel_sum (=) (eqv X db db2)"

lemma rel_and_then:
  assumes "rel_sum (=) R x y" "\<And>a b. R a b \<Longrightarrow> rel_sum (=) S (f a) (g b)"
  shows "rel_sum (=) S (and_then x f) (and_then y g)"
  using assms by (cases x; cases y) auto

lemma rel_same:
  assumes "\<And>a. rel_sum (=) S (f a) (g a)"
  shows "rel_sum (=) S (and_then x f) (and_then x g)"
  using assms by (cases x) auto

lemma rel_unwrap: "(\<And>a. x = Some a \<Longrightarrow> rel_sum (=) S (f a) (g a)) \<Longrightarrow>
    rel_sum (=) S (and_then (unwrap x) f) (and_then (unwrap x) g)"
  by (cases x) (simp_all add: unwrap_def)

section \<open>Every indexing operation keeps the views together\<close>

lemma put_account_eqv: "eqv X db db2 b b2 \<Longrightarrow> eqv X db db2 (put_account_mut b i acc) (put_account_mut b2 i acc)"
  by (simp add: eqv_def)

lemma get_account_mut_eqv:
  assumes "eqv X db db2 b b2"
  shows "rel_sum (=) (rel_prod (=) (eqv X db db2))
    (get_account_mut X db b i :: block_err fail + _) (get_account_mut X db2 b2 i)"
proof -
  have v: "batch_account X db b i = (batch_account X db2 b2 i :: block_err fail + account option)"
    using assms by (simp add: eqv_def)
  have keep: "eqv X db db2 (if c then put_account_mut b i acc else b) (if c' then put_account_mut b2 i acc else b2)"
    if "batch_account X db2 b2 i = (Inr (Some acc) :: block_err fail + account option)" for c c' acc
    using assms that v by (auto simp: eqv_def)
  show ?thesis
  proof (cases "batch_account X db2 b2 i :: block_err fail + account option")
    case (Inr r)
    then show ?thesis
      unfolding get_account_mut_eq v by (cases r) (simp_all add: keep split del: if_split)
  qed (simp add: get_account_mut_eq v)
qed

lemma add_bal_eqv: "eqv X db db2 b b2 \<Longrightarrow> same_result X db db2 (add_bal X db b i a) (add_bal X db2 b2 i a)"
  unfolding add_bal_def
  by (rule rel_and_then [OF get_account_mut_eqv], assumption)
    (auto simp del: put_account_mut_simps intro!: rel_unwrap put_account_eqv)

lemma sub_bal_eqv: "eqv X db db2 b b2 \<Longrightarrow> same_result X db db2 (sub_bal X db b i a) (sub_bal X db2 b2 i a)"
  unfolding sub_bal_def
  by (rule rel_and_then [OF get_account_mut_eqv], assumption)
    (auto simp del: put_account_mut_simps intro!: rel_unwrap put_account_eqv)

lemma add_token_supply_eqv:
  assumes "eqv X db db2 b b2"
  shows "same_result X db db2 (add_token_supply X db b a) (add_token_supply X db2 b2 a)"
proof -
  have "batch_supply X db b = (batch_supply X db2 b2 :: block_err fail + asset)" using assms by (simp add: eqv_def)
  then show ?thesis
    using assms unfolding add_token_supply_eq
    by (auto intro!: rel_same rel_unwrap simp: eqv_def)
qed

lemma set_owner_eqv: "eqv X db db2 b b2 \<Longrightarrow> same_result X db db2 (set_owner b t) (set_owner b2 t)"
  by (simp add: set_owner_def eqv_def)

lemma index_log_entry_eqv:
  "eqv X db db2 b b2 \<Longrightarrow> same_result X db db2 (index_log_entry X db s b e) (index_log_entry X db2 s b2 e)"
  unfolding index_log_entry_def
  by (auto intro!: add_bal_eqv put_account_eqv rel_and_then [OF get_account_mut_eqv] simp: Let_def
      simp del: put_account_mut_simps split: log_entry.splits)

lemma index_log_eqv:
  "eqv X db db2 b b2 \<Longrightarrow> same_result X db db2 (index_log X db s es b) (index_log X db2 s es b2)"
  by (induction es arbitrary: b b2) (auto intro!: rel_and_then [OF index_log_entry_eqv])

lemma index_receipt_eqv:
  assumes "eqv X db db2 b b2"
  shows "same_result X db db2 (index_receipt X db b r) (index_receipt X db2 b2 r)"
proof -
  obtain t where t: "rc_tx r = TxV0 t" by (cases "rc_tx r")
  show ?thesis
  proof (cases t)
    case (OwnerTx o)
    then show ?thesis using set_owner_eqv [OF assms] by (simp add: index_receipt_def t)
  next
    case (MintTx m)
    then show ?thesis
      by (auto simp: index_receipt_def t intro!: rel_and_then [OF add_token_supply_eqv [OF assms]] add_bal_eqv)
  next
    case (CreateAccountTx c)
    then show ?thesis
      by (auto simp: index_receipt_def t insert_account_eq simp del: put_account_mut_simps
          intro!: rel_unwrap rel_and_then [OF sub_bal_eqv [OF assms]] put_account_eqv)
  next
    case (UpdateAccountTx u)
    then show ?thesis
      by (auto simp: index_receipt_def t simp del: put_account_mut_simps
          intro!: rel_unwrap rel_and_then [OF get_account_mut_eqv [OF assms]] put_account_eqv)
  next
    case (TransferTx x)
    then show ?thesis
      by (auto simp: index_receipt_def t intro!: rel_unwrap rel_and_then [OF sub_bal_eqv [OF assms]] index_log_eqv)
  qed
qed

lemma index_receipts_eqv:
  "eqv X db db2 b b2 \<Longrightarrow> same_result X db db2 (index_receipts X db rs b) (index_receipts X db2 rs b2)"
  by (induction rs arbitrary: b b2) (auto intro!: rel_and_then [OF index_receipt_eqv])

lemma index_block_owner:
  "(case wb_owner b of Some t \<Rightarrow> Inr t | None \<Rightarrow> chain_get_owner X c) =
    (and_then (batch_owner X (bc_db c) b) unwrap :: 'e fail + tx_variant)"
  by (simp add: batch_owner_def chain_get_owner_def unwrap_def split: option.split)

lemma index_block_eqv:
  assumes "eqv X (bc_db c) (bc_db c2) b b2"
  shows "same_result X (bc_db c) (bc_db c2) (index_block X c b block) (index_block X c2 b2 block)"
  unfolding index_block_def index_block_owner
proof (rule rel_and_then [OF index_receipts_eqv [OF assms]])
  fix b b2
  assume e: "eqv X (bc_db c) (bc_db c2) b b2"
  then have o: "batch_owner X (bc_db c) b = (batch_owner X (bc_db c2) b2 :: block_err fail + _)" by (simp add: eqv_def)
  show "same_result X (bc_db c) (bc_db c2)
    (and_then (and_then (batch_owner X (bc_db c) b) unwrap) (\<lambda>owner_tx. case owner_tx of
       TxV0 (OwnerTx t) \<Rightarrow> add_bal X (bc_db c) b (wallet t) (Block_rewards block) | _ \<Rightarrow> Inl Panic))
    (and_then (and_then (batch_owner X (bc_db c2) b2) unwrap) (\<lambda>owner_tx. case owner_tx of
       TxV0 (OwnerTx t) \<Rightarrow> add_bal X (bc_db c2) b2 (wallet t) (Block_rewards block) | _ \<Rightarrow> Inl Panic))"
    unfolding o by (rule rel_same) (auto intro: add_bal_eqv [OF e] split: tx_variant.splits tx_variant_v0.splits)
qed

section \<open>Rebuilding a running node\<close>

text \<open>Over the blocks \<open>bs\<close> one batch on top of \<open>c0\<close> reaches the view of the index of \<open>c\<close>.\<close>

definition rebuilds :: "'db ext \<Rightarrow> 'db blockchain \<Rightarrow> block list \<Rightarrow> 'db blockchain \<Rightarrow> bool" where
  "rebuilds X c0 bs c \<longleftrightarrow>
     (\<exists>batch. index_chain X (index_block X c0) 0 bs WriteBatch_new = (Inr batch :: index_result) \<and>
        eqv X (bc_db c) (bc_db c0) WriteBatch_new batch)"

lemma eqv_record: "eqv X db db2 b b2 \<Longrightarrow> eqv X db db2 b (record_block b2 h pos)"
  by (simp add: eqv_def)

lemma rebuilds_insert:
  assumes "rebuilds X c0 bs c" "chain_repr X c bs" "insert_block X c b = Inr c'" "db_ok X" "storable b" "room X c b"
  shows "rebuilds X c0 (bs @ [b]) c'"
proof -
  obtain B where B: "index_chain X (index_block X c0) 0 bs WriteBatch_new = (Inr B :: index_result)"
    "eqv X (bc_db c) (bc_db c0) WriteBatch_new B"
    using assms(1) by (auto simp: rebuilds_def)
  have "\<exists>batch. index_block X c WriteBatch_new b = (Inr batch :: index_result) \<and> wf_batch batch \<and>
      (\<forall>i. idx_get_account X (bc_db c') i = (batch_account X (bc_db c) batch i :: block_err fail + _)) \<and>
      get_token_supply X (bc_db c') = (batch_supply X (bc_db c) batch :: block_err fail + _) \<and>
      (get_owner X (bc_db c') :: block_err fail + _) =
        (case wb_owner batch of Some t \<Rightarrow> Inr (Some t) | None \<Rightarrow> get_owner X (bc_db c))"
    by (rule insert_block_repr(3) [OF assms(2-6)])
  then obtain batch where i: "index_block X c WriteBatch_new b = (Inr batch :: index_result)"
    and v: "eqv X (bc_db c') (bc_db c) WriteBatch_new batch"
    by (auto simp: eqv_def batch_owner_def [of X "bc_db c" batch for batch])
  let ?B = "record_block B (Block_height b) (of_nat (length (log_bytes X bs)))"
  have "same_result X (bc_db c) (bc_db c0) (index_block X c WriteBatch_new b) (index_block X c0 ?B b)"
    by (rule index_block_eqv [OF eqv_record [OF B(2)]])
  then obtain B' where B': "index_block X c0 ?B b = (Inr B' :: index_result)" "eqv X (bc_db c) (bc_db c0) batch B'"
    unfolding i by (cases "index_block X c0 ?B b :: index_result") auto
  then show ?thesis
    using v by (auto simp: rebuilds_def index_chain_append B(1) eqv_def)
qed

lemma rebuilds_same_reads: "same_reads X c c' \<Longrightarrow> rebuilds X c0 bs c \<Longrightarrow> rebuilds X c0 bs c'"
  by (auto simp: rebuilds_def eqv_def same_reads_index)

section \<open>The genesis block\<close>

lemma genesis_accounts_eq:
  "genesis_accounts X db (genesis_block X now info) =
    commit X db (insert_or_update_account WriteBatch_new (genesis_owner_wallet info))"
  unfolding genesis_block_def Let_def genesis_accounts_def
  by simp (simp add: block_accessors preindex_receipt_def genesis_create_tx_def genesis_owner_tx_def)

lemma rebuilds_genesis:
  assumes g: "create_genesis_block X now seeds c mk = (Inr (c1, info) :: 'e fail + _)" "empty_node X c" "db_ok X"
    "storable (genesis_block X now info)" "length (disk_record X (genesis_block X now info)) < 2 ^ 64"
    "wf_account (genesis_owner_wallet info)" "wf_tx (genesis_owner_tx now info)"
    and e: "\<And>cf k. db_get X db cf k = None"
    and c0: "bc_db c0 = genesis_accounts X db (genesis_block X now info)"
  shows "rebuilds X c0 [genesis_block X now info] c1"
proof -
  let ?g = "genesis_block X now info" and ?w = "genesis_owner_wallet info" and ?o = "genesis_owner_tx now info"
  let ?db = "genesis_accounts X db ?g"
  have id0: "gi_owner_id info = 0" "acc_id ?w = 0" "balance ?w = Asset 0"
    using g(1) by (auto simp: create_genesis_block_def GenesisBlockInfo_new_def fallible_iffs Let_def
        genesis_owner_wallet_def Asset_default_def)
  have wf: "wf_batch (put_account_mut WriteBatch_new 0 ?w)" using g(6) by simp
  have acc: "idx_get_account X ?db = (\<lambda>i. Inr (if i = 0 then Some ?w else None) :: block_err fail + _)"
    by (simp add: fun_eq_iff genesis_accounts_eq insert_account_eq id0 idx_get_account_commit [OF g(3) wf])
      (simp add: idx_get_account_def e)
  have sup: "get_token_supply X ?db = (Inr Asset_default :: block_err fail + _)"
    by (simp add: genesis_accounts_eq insert_account_eq get_token_supply_commit [OF g(3)]) (simp add: get_token_supply_def e)
  have rcs: "Block_receipts ?g = [\<lparr>rc_tx = genesis_create_tx now info, rc_log = []\<rparr>, \<lparr>rc_tx = ?o, rc_log = []\<rparr>]"
    "Block_rewards ?g = Asset 0"
    unfolding genesis_block_def Let_def by simp_all (simp_all add: block_accessors Asset_default_def)
  let ?new = "record_block WriteBatch_new 0 0"
  let ?fin = "put_account_mut ((put_account_mut ?new 0 ?w)\<lparr>wb_owner := Some ?o\<rparr>) 0 (?w\<lparr>balance := Asset 0\<rparr>)"
  have zero: "Asset_checked_add (Asset 0) (Asset 0) = Some (Asset 0)" "Asset_checked_sub (Asset 0) (Asset 0) = Some (Asset 0)"
    by (simp_all add: Asset_checked_add_iff Asset_checked_sub_iff amt_def)
  let ?mid = "put_account_mut ?new 0 ?w"
  have r1: "index_receipt X ?db ?new \<lparr>rc_tx = genesis_create_tx now info, rc_log = []\<rparr> = (Inr ?mid :: index_result)"
    by (simp add: index_receipt_def genesis_create_tx_def genesis_base_def Asset_default_def zero
        unwrap_def sub_bal_eq insert_account_eq acc id0)
  have r2: "index_receipt X ?db ?mid \<lparr>rc_tx = ?o, rc_log = []\<rparr> = (Inr (?mid\<lparr>wb_owner := Some ?o\<rparr>) :: index_result)"
    by (simp add: index_receipt_def genesis_owner_tx_def set_owner_def)
  have ix: "index_block X c0 ?new ?g = (Inr ?fin :: index_result)"
    unfolding index_block_def rcs c0 index_receipts.simps r1 and_then_simps r2
    by (simp add: genesis_owner_tx_def add_bal_eq id0 zero)
  have "?w\<lparr>balance := Asset 0\<rparr> = ?w" using id0(3) by simp
  then have "eqv X (bc_db c1) ?db WriteBatch_new ?fin"
    using create_genesis_repr(2-4) [OF g, where 'f = block_err]
    by (simp add: eqv_def acc sup id0)
  then show ?thesis
    using ix by (simp add: rebuilds_def c0)
qed

section \<open>The run of a node\<close>

lemma node_step_rebuilds:
  assumes "node_step X m m'" "chain_repr X (rp_chain (mt_pool m)) bs" "rebuilds X c0 bs (rp_chain (mt_pool m))" "db_ok X"
  shows "\<exists>bs'. chain_repr X (rp_chain (mt_pool m')) bs' \<and> rebuilds X c0 bs' (rp_chain (mt_pool m')) \<and> (\<exists>new. bs' = bs @ new)"
  using assms(1)
proof cases
  case (push now t)
  then obtain e where "rp_chain (mt_pool m') = (rp_chain (mt_pool m))\<lparr>bc_db := insert_txid X (bc_db (rp_chain (mt_pool m))) (calc_txid X t) e\<rparr>"
    by (auto simp: minter_push_tx_def pool_push_def TxPrecompData_from_tx_def Let_def fallible_iffs split: if_splits)
  then have s: "same_reads X (rp_chain (mt_pool m)) (rp_chain (mt_pool m'))"
    by (simp add: same_reads_insert_txid [OF assms(4)])
  show ?thesis
    using chain_repr_same_reads [OF s assms(2)] rebuilds_same_reads [OF s assms(3)] by blast
next
  case (produce now child_time force r)
  have kept: ?thesis if "same_reads X (rp_chain (mt_pool m)) (rp_chain (mt_pool m'))"
    using chain_repr_same_reads [OF that assms(2)] rebuilds_same_reads [OF that assms(3)] by blast
  from produce(1) show ?thesis
  proof (cases rule: produce_cases)
    case (failed e)
    then show ?thesis using assms(2,3) by blast
  next
    case (dropped rcs p)
    then show ?thesis using kept pool_flush_Inr(3) [OF dropped(1) assms(4)] by simp
  next
    case (inserted rcs p hd b c)
    let ?b = "Block_sign X b (mt_key m)"
    have s: "same_reads X (rp_chain (mt_pool m)) (rp_chain p)" by (rule pool_flush_Inr(3) [OF inserted(1) assms(4)])
    have r: "chain_repr X (rp_chain p) bs" "rebuilds X c0 bs (rp_chain p)"
      using chain_repr_same_reads [OF s assms(2)] rebuilds_same_reads [OF s assms(3)] .
    have st: "storable ?b" "room X (rp_chain p) ?b"
      using produce(2) [OF inserted(5)] room_same_reads [OF s] by simp_all
    show ?thesis
      using insert_block_repr(1) [OF r(1) inserted(4) assms(4) st] rebuilds_insert [OF r(2,1) inserted(4) assms(4) st]
        inserted(6) by auto
  qed
qed

lemma node_steps_rebuilds:
  assumes "(node_step X)\<^sup>*\<^sup>* m m'" "chain_repr X (rp_chain (mt_pool m)) bs" "rebuilds X c0 bs (rp_chain (mt_pool m))" "db_ok X"
  shows "\<exists>bs'. chain_repr X (rp_chain (mt_pool m')) (bs @ bs') \<and> rebuilds X c0 (bs @ bs') (rp_chain (mt_pool m'))"
  using assms(1)
proof (induction rule: rtranclp_induct)
  case base
  show ?case using assms(2,3) by (intro exI [of _ "[]"]) simp
next
  case (step m1 m2)
  then obtain bs' where b: "chain_repr X (rp_chain (mt_pool m1)) (bs @ bs')" "rebuilds X c0 (bs @ bs') (rp_chain (mt_pool m1))"
    by blast
  from node_step_rebuilds [OF step(2) b assms(4)] show ?case by auto
qed

text \<open>The node on a log without an index.\<close>

definition bare_node :: "'db \<Rightarrow> bytes \<Rightarrow> 'db blockchain" where
  "bare_node db log = \<lparr>bc_db = db, bc_store = \<lparr>st_height = 0, st_blocks = [], st_genesis = None, st_file = log,
     st_byte_pos_tail = of_nat (length log)\<rparr>\<rparr>"

lemma Blockchain_new_bare:
  assumes "\<And>cf k. db_get X db cf k = None"
  shows "Blockchain_new X db log = Inr (bare_node db log)"
  by (auto simp: Blockchain_new_def BlockStore_new_def init_state_def get_chain_height_def assms get_index_status_def Let_def
      store_get_def read_from_disk_def get_block_byte_pos_def store_is_empty_def bare_node_def fallible_iffs)

definition same_index :: "'db ext \<Rightarrow> 'db \<Rightarrow> 'db \<Rightarrow> bool" where
  "same_index X db db' \<longleftrightarrow>
     (\<forall>i. idx_get_account X db i = (idx_get_account X db' i :: block_err fail + account option)) \<and>
     get_token_supply X db = (get_token_supply X db' :: block_err fail + asset) \<and>
     get_owner X db = (get_owner X db' :: block_err fail + tx_variant option)"

lemma reindex_agrees:
  assumes "create_genesis_block X now seeds c mk = (Inr (c1, info) :: 'e fail + _)" "empty_node X c" "db_ok X"
    and "storable (genesis_block X now info)" "length (disk_record X (genesis_block X now info)) < 2 ^ 64"
    and "wf_account (genesis_owner_wallet info)" "wf_tx (genesis_owner_tx now info)"
    and "Minter_new X c1 mkey stale = (Inr m :: 'f fail + _)" "(node_step X)\<^sup>*\<^sup>* m m'"
    and "\<And>cf k. db_get X db cf k = None"
    and "storable b" "n < length (disk_record X b)" "n = 0 \<or> 8 \<le> n"
  shows "\<exists>bs c'. chain_repr X (rp_chain (mt_pool m')) bs \<and>
    and_then (Blockchain_new X db (st_file (bc_store (rp_chain (mt_pool m'))) @ take n (disk_record X b)))
      (reindex X later True) = (Inr c' :: block_err fail + _) \<and>
    chain_repr X c' bs \<and> same_index X (bc_db (rp_chain (mt_pool m'))) (bc_db c')"
proof -
  let ?g = "genesis_block X now info" and ?c = "rp_chain (mt_pool m')"
  let ?log = "st_file (bc_store ?c) @ take n (disk_record X b)"
  define c0 where "c0 = bare_node (genesis_accounts X db ?g) ?log"
  note g = create_genesis_repr [OF assms(1-7)]
  have m: "rp_chain (mt_pool m) = c1"
    using assms(8) by (simp add: Minter_new_def ReceiptPool_new_def chain_get_owner_def g(2)
        genesis_owner_tx_def split: if_splits) auto
  have "rebuilds X c0 [?g] c1"
    by (rule rebuilds_genesis [OF assms(1-7,10)]) (simp add: c0_def bare_node_def)
  then obtain bs where bs: "chain_repr X ?c ([?g] @ bs)" "rebuilds X c0 ([?g] @ bs) ?c"
    using node_steps_rebuilds [OF assms(9)] create_genesis_repr(1) [OF assms(1-7)] assms(3) by (metis m)
  obtain batch where b: "index_chain X (index_block X c0) 0 (?g # bs) WriteBatch_new = (Inr batch :: index_result)"
    "eqv X (bc_db ?c) (bc_db c0) WriteBatch_new batch"
    using bs(2) by (auto simp: rebuilds_def)
  have ok: "chain_ok X (?g # bs)" "st_file (bc_store ?c) = log_bytes X (?g # bs)"
    using bs(1) by (simp_all add: chain_repr_def store_repr_def)
  let ?bare = "bare_node db ?log"
  have upd: "?bare\<lparr>bc_db := genesis_accounts X db ((?g # bs) ! 0)\<rparr> = c0" by (simp add: c0_def bare_node_def)
  have "length (Block_receipts ?g) = 2"
    unfolding genesis_block_def Let_def by simp (simp add: block_accessors)
  moreover have "torn_log X (?g # bs) ?log" using assms(11-13) ok(2) by (auto simp: torn_log_def)
  ultimately obtain c' where c': "reindex X later True ?bare = (Inr c' :: block_err fail + _)" "chain_repr X c' (?g # bs)"
    "txids_only X (set_index_status X (commit X (bc_db c0) batch) StatusComplete) (bc_db c')"
    using reindex_repr [of X "?g # bs" ?bare, where 'e = block_err and batch = batch and now = later] ok(1) assms(3,10) b(1)
    unfolding upd by (auto simp: bare_node_def c0_def get_index_status_def)
  have wf: "wf_batch batch"
    using index_chain_positions [OF b(1) index_block_indexer ok(1)] by simp
  have "same_index X (bc_db ?c) (bc_db c')"
    using b(2) unfolding same_index_def txids_only_reads [OF c'(3)] set_index_status_reads [OF assms(3)]
    by (simp add: eqv_def idx_get_account_commit [OF assms(3) wf] get_token_supply_commit [OF assms(3)]
        get_owner_commit [OF assms(3) wf] batch_owner_def [of X "bc_db c0"])
  then show ?thesis
    using bs(1) c'(1,2) by (auto simp: Blockchain_new_bare [OF assms(10)])
qed

end
