(* ===== verification/Replay.thy ===== *)
theory Replay
  imports Node
begin

text \<open>
  Replay protection: the node with the clock its operations read.  A transaction the pool accepted
  stays refused, whatever is pushed and produced in between: its identifier is stored until the
  purge finds it expired, and an expired transaction is refused by its date.
\<close>

section \<open>The clock\<close>

text \<open>The clock does not go back, and a production reads it after the first half minute of the epoch
  (the purge subtracts 30 seconds from it).\<close>

inductive clocked :: "'db ext \<Rightarrow> u64 \<times> 'db minter \<Rightarrow> u64 \<times> 'db minter \<Rightarrow> bool" for X where
  push: "now \<le> now' \<Longrightarrow> minter_push_tx X now' m t = Inr m' \<Longrightarrow> clocked X (now, m) (now', m')"
| produce: "now \<le> now' \<Longrightarrow> 30 \<le> now' \<Longrightarrow> produce X now' child_time force m = (r, m') \<Longrightarrow>
    clocked X (now, m) (now', m')"

inductive_cases clockedE: "clocked X (now, m) (now', m')"

text \<open>The identifier is stored with its expiry, or the clock has reached the expiry.\<close>

definition guarded :: "'db ext \<Rightarrow> tx_id \<Rightarrow> u64 \<Rightarrow> u64 \<Rightarrow> 'db minter \<Rightarrow> bool" where
  "guarded X i e now m \<longleftrightarrow>
     db_get X (bc_db (rp_chain (mt_pool m))) CF_TX_EXPIRY (txid_bytes i) = Some (be_bytes 8 e) \<or> e \<le> now"

lemma guarded_later: "guarded X i e now m \<Longrightarrow> now \<le> now' \<Longrightarrow> guarded X i e now' m"
  by (auto simp: guarded_def)

section \<open>Each operation keeps the guard\<close>

lemma insert_block_db:
  assumes "insert_block X c b = Inr c'"
  shows "\<exists>batch. bc_db c' = commit X (bc_db c) batch"
  using assms by (auto simp: insert_block_def fallible_iffs)

lemma guarded_insert_block:
  assumes "db_ok X" "insert_block X c b = Inr c'"
  shows "db_get X (bc_db c') CF_TX_EXPIRY k = db_get X (bc_db c) CF_TX_EXPIRY k"
  using insert_block_db [OF assms(2)] commit_tx_expiry [OF assms(1)] by auto

lemma guarded_flush:
  assumes "db_ok X" "30 \<le> now" "pool_flush X now p = (Inr (rcs, p') :: 'e fail + _)"
    and "db_get X (bc_db (rp_chain p)) CF_TX_EXPIRY k = Some (be_bytes 8 e)"
  shows "db_get X (bc_db (rp_chain p')) CF_TX_EXPIRY k = Some (be_bytes 8 e) \<or> e \<le> now"
proof (cases "e < now - 30")
  case True
  have "now - 30 \<le> now" using assms(2) by (simp add: word_le_sub1 word_sub_le)
  from order.strict_trans2 [OF True this] show ?thesis by (intro disjI2) (rule order.strict_implies_order)
next
  case False
  obtain ops where ops: "purge_batch (now - TX_EXPIRY_ADJUSTMENT) (db_iter X (bc_db (rp_chain p)) CF_TX_EXPIRY) = (Inr ops :: 'e fail + _)"
    "bc_db (rp_chain p') = db_write X (bc_db (rp_chain p)) ops"
    using assms(3) by (auto simp: pool_flush_def purge_expired_txids_def Let_def fallible_iffs)
  have "db_get X (bc_db (rp_chain p')) CF_TX_EXPIRY k = Some (be_bytes 8 e)"
    unfolding ops(2) db_get_write [OF assms(1)] purge_batch_Inr(1) [OF ops(1)]
    using False assms(4) by (auto simp: db_iter_iff [OF assms(1)] TX_EXPIRY_ADJUSTMENT_def)
  then show ?thesis ..
qed

text \<open>A push stores the identifier of the transaction it accepts, which was not stored before.\<close>

lemma push_cases:
  assumes "minter_push_tx X now m t = Inr m'"
  shows "\<not> has_txid X (bc_db (rp_chain (mt_pool m))) (calc_txid X t)"
    and "now < tx_expiry t"
    and "bc_db (rp_chain (mt_pool m')) = insert_txid X (bc_db (rp_chain (mt_pool m))) (calc_txid X t) (tx_expiry t)"
  using assms
  by (auto simp: minter_push_tx_def pool_push_def Let_def fallible_iffs TxPrecompData_from_tx_def not_le split: if_splits)

lemma push_guards:
  assumes "db_ok X" "minter_push_tx X now m t = Inr m'"
  shows "guarded X (calc_txid X t) (tx_expiry t) now' m'"
  using push_cases(3) [OF assms(2)] by (simp add: guarded_def insert_txid_def db_get_write [OF assms(1)])

lemma guarded_push:
  assumes "db_ok X" "minter_push_tx X now m t = Inr m'" "guarded X i e now' m"
  shows "guarded X i e now' m'"
proof (cases "e \<le> now'")
  case False
  then have s: "db_get X (bc_db (rp_chain (mt_pool m))) CF_TX_EXPIRY (txid_bytes i) = Some (be_bytes 8 e)"
    using assms(3) by (simp add: guarded_def)
  then have "txid_bytes (calc_txid X t) \<noteq> txid_bytes i"
    using push_cases(1) [OF assms(2)] by (auto simp: has_txid_def)
  then show ?thesis
    using s push_cases(3) [OF assms(2)] by (simp add: guarded_def insert_txid_def db_get_write [OF assms(1)])
qed (simp add: guarded_def)

lemma guarded_produce:
  assumes "db_ok X" "30 \<le> now" "produce X now child_time force m = (r, m')" "guarded X i e now m"
  shows "guarded X i e now m'"
proof -
  have fl: "db_get X (bc_db (rp_chain p)) CF_TX_EXPIRY (txid_bytes i) = Some (be_bytes 8 e) \<or> e \<le> now"
    if "pool_flush X now (mt_pool m) = (Inr (rcs, p) :: block_err fail + _)" for rcs p
    using guarded_flush [OF assms(1,2) that] assms(4) by (auto simp: guarded_def)
  from assms(3) show ?thesis
  proof (cases rule: produce_cases)
    case (inserted rcs p hd b c)
    then show ?thesis
      using fl [OF inserted(1)] guarded_insert_block [OF assms(1) inserted(4)] by (simp add: guarded_def)
  qed (use assms(4) fl in \<open>auto simp: guarded_def\<close>)
qed

section \<open>Runs\<close>

lemma clocked_guarded:
  assumes "clocked X s s'" "db_ok X" "guarded X i e (fst s) (snd s)"
  shows "guarded X i e (fst s') (snd s')" "fst s \<le> fst s'"
  using assms(1)
proof (induction rule: clocked.cases)
  case (push now now' m t m')
  { case 1
    then show ?case
      using guarded_push [OF assms(2) push(4) guarded_later [OF _ push(3)]] assms(3) push(1,2) by simp
  next
    case 2 then show ?case using push by simp }
next
  case (produce now now' child_time force m r m')
  { case 1
    then show ?case
      using guarded_produce [OF assms(2) produce(4,5) guarded_later [OF _ produce(3)]] assms(3) produce(1,2) by simp
  next
    case 2 then show ?case using produce by simp }
qed

lemma clocked_run_guarded:
  assumes "(clocked X)\<^sup>*\<^sup>* s s'" "db_ok X" "guarded X i e (fst s) (snd s)"
  shows "guarded X i e (fst s') (snd s')"
  using assms by (induction rule: rtranclp_induct) (auto dest: clocked_guarded(1))

lemma tx_expiry_with_sigs: "tx_expiry (with_sigs t sigs) = tx_expiry t"
  by (cases t rule: tx_expiry.cases) simp

text \<open>A guarded transaction is refused.\<close>

lemma guarded_refused:
  assumes "guarded X (calc_txid X t) (tx_expiry t) now m"
  shows "minter_push_tx X now m t =
    Inl (Err (if tx_expiry t \<le> now \<or> tx_expiry t - now > TX_MAX_EXPIRY_TIME then TxExpired else TxDupe))"
  using assms by (auto simp: guarded_def minter_push_tx_def pool_push_def Let_def TxPrecompData_from_tx_def has_txid_def)

lemma replayed_refused:
  assumes "minter_push_tx X now m t = Inr m1" "(clocked X)\<^sup>*\<^sup>* (now, m1) (now2, m2)" "db_ok X" "now2 \<le> now3"
  shows "minter_push_tx X now3 m2 (with_sigs t sigs) =
    Inl (Err (if tx_expiry t \<le> now3 \<or> tx_expiry t - now3 > TX_MAX_EXPIRY_TIME then TxExpired else TxDupe))"
proof -
  have "guarded X (calc_txid X t) (tx_expiry t) now2 m2"
    using clocked_run_guarded [OF assms(2,3)] push_guards [OF assms(3,1)] by simp
  then have "guarded X (calc_txid X (with_sigs t sigs)) (tx_expiry (with_sigs t sigs)) now3 m2"
    by (simp add: tx_expiry_with_sigs guarded_later [OF _ assms(4)])
  from guarded_refused [OF this] show ?thesis by (simp add: tx_expiry_with_sigs)
qed

end
