(* ===== verification/Startup.thy ===== *)
theory Startup
  imports Rebuild Replay Server
begin

text \<open>
  The start of the node, \<open>start\<close> of \<open>server/lib.rs\<close>: the chain is opened, its index rebuilt on request,
  or the genesis block created, and the minter set up; then blocks are produced at intervals,
  \<open>start_production_loop\<close> of \<open>minter.rs\<close>.  The sockets of \<open>start_server\<close> are steps of the server relation.
\<close>

section \<open>The genesis block fits\<close>

lemma gen_keys_wf:
  "gen_keys X seeds = (Inr ks :: 'e fail + _) \<Longrightarrow> list_all (\<lambda>s. length s = SEEDBYTES) seeds \<Longrightarrow>
    list_all (wf_key_pair X) ks \<and> length ks = length seeds"
  by (induction seeds arbitrary: ks) (auto simp: fallible_iffs dest: KeyPair_gen_wf)

lemma build_length: "build b = Inr scr \<Longrightarrow> length scr \<le> 2048"
proof -
  assume b: "build b = Inr scr"
  have "length (concat (map (\<lambda>fn_ref. fst fn_ref # push_u32 (f fn_ref)) fs)) = 5 * length fs" for f and fs :: "(u8 \<times> u32) list"
    by (induction fs) simp_all
  then show ?thesis using b by (auto simp: build_def Let_def MAX_SCRIPT_BYTE_SIZE_def split: if_splits)
qed

lemma genesis_script_length: "genesis_script i = (Inr scr :: 'e fail + _) \<Longrightarrow> length scr \<le> 2048"
  by (auto simp: genesis_script_def fallible_iffs dest: build_length)

lemma genesis_info:
  assumes "create_genesis_block X now seeds c mk = (Inr (c', info) :: 'e fail + _)"
    and "length seeds = 4" "list_all (\<lambda>s. length s = SEEDBYTES) seeds"
  shows "gi_minter_key info = mk" "length (gi_wallet_keys info) = 4" "list_all (wf_key_pair X) (gi_wallet_keys info)"
    and "length (gi_script info) \<le> 2048"
  using assms gen_keys_wf [of X seeds, where 'e = 'e] genesis_script_length [where 'e = 'e]
  by (auto simp: create_genesis_block_def GenesisBlockInfo_new_def fallible_iffs Let_def)

lemma wf_genesis:
  assumes "length (gi_wallet_keys info) = 4" "list_all (wf_key_pair X) (gi_wallet_keys info)" "length (gi_script info) \<le> 2048"
    and "wf_key_pair X (gi_minter_key info)" "sign_ok X"
  shows "wf_account (genesis_owner_wallet info)" "wf_tx (genesis_owner_tx now info)" "wf_tx (genesis_create_tx now info)"
proof -
  have p: "wf_public_key (kp_public k)" if "wf_key_pair X k" for k
    using that assms(5) by (fastforce simp: wf_public_key_def wf_key_pair_def sign_ok_def size_constants)
  show a: "wf_account (genesis_owner_wallet info)"
    using assms(1-3) p by (auto simp: wf_account_def genesis_owner_wallet_def wf_bytes_def wf_permissions_def list_all_iff)
  show "wf_tx (genesis_owner_tx now info)" "wf_tx (genesis_create_tx now info)"
    using a p [OF assms(4)] by (simp_all add: genesis_owner_tx_def genesis_create_tx_def genesis_base_def wf_body_def wf_sigs_def)
qed

text \<open>Every field of the block is bounded: the script by its maximum, the keys by their number.\<close>

lemma genesis_length:
  assumes "length (gi_wallet_keys info) = 4" "list_all (wf_key_pair X) (gi_wallet_keys info)" "length (gi_script info) \<le> 2048"
    and "wf_key_pair X (gi_minter_key info)" "sign_ok X" "sha256_ok X"
  shows "storable (genesis_block X now info)" "length (disk_record X (genesis_block X now info)) < 2 ^ 64"
proof -
  let ?b = "genesis_block X now info"
  note wf = wf_genesis [OF assms(1-5)]
  have pk: "length (pk_bytes (kp_public k)) = 32" if "wf_key_pair X k" for k
    using that assms(5) by (fastforce simp: wf_key_pair_def sign_ok_def size_constants)
  have keys: "length (concat (map push_pub_key (map kp_public ks))) = 32 * length ks" if "list_all (wf_key_pair X) ks" for ks
    using that pk by (induction ks) (simp_all add: push_pub_key_def)
  have sig: "wf_sig_pair (KeyPair_sign X (gi_minter_key info) msg)" for msg
    by (rule wf_KeyPair_sign [OF assms(5,4)])
  have wfb: "wf_block ?b"
    using wf sig wf_double_sha256 [OF assms(6)]
    by (simp add: genesis_block_def Let_def wf_block_def)
      (simp add: block_accessors wf_receipt_def wf_digest_def size_constants calc_receipt_root_eq [OF assms(6)])
  have "length (block_bytes ?b) < 2 ^ 32"
  proof -
    have "length (push_var_loop (zigzag_encode v)) \<le> 10" for v
      using length_push_var_loop [of 64 "zigzag_encode v"] by (auto simp: take_bit_word_eq_self)
    then have a: "length (push_asset v) \<le> 10" for v by (simp add: push_asset_def push_var_i64_def)
    have d: "length (digest_bytes (double_sha256 X buf)) = 32" for buf
      using wf_double_sha256 [OF assms(6)] by (simp add: wf_digest_def size_constants)
    have s: "length (push_sig_pair (KeyPair_sign X (gi_minter_key info) msg)) = 96" for msg
      using sig by (simp add: push_sig_pair_def push_pub_key_def wf_sig_pair_def wf_public_key_def wf_signature_def size_constants)
    have "length (block_bytes ?b) = 409 + length (gi_script info) + 4 * length (push_asset Asset_default)"
      using keys [OF assms(2)] assms(1) pk [OF assms(4)] s d
      by (simp add: genesis_block_def Let_def Block_sign_def block_bytes_def BlockHeaderV0_serialize_def push_digest_def
          calc_receipt_root_eq [OF assms(6)] Receipt_serialize_def TxVariant_serialize_def serialize_sigs_def
          genesis_create_tx_def genesis_owner_tx_def genesis_base_def CreateAccountTx_serialize_def OwnerTx_serialize_def
          serialize_header_def Account_serialize_def Permissions_serialize_def genesis_owner_wallet_def push_bytes_def
          push_pub_key_def push_u8_def)
    then show ?thesis using assms(3) a [of Asset_default] by simp
  qed
  with wfb show "storable ?b" by (simp add: storable_def)
  with \<open>length (block_bytes ?b) < 2 ^ 32\<close> show "length (disk_record X ?b) < 2 ^ 64"
    by (simp add: disk_record_def disk_meta_def)
qed

section \<open>Starting\<close>

text \<open>The options of \<open>start\<close> without the paths; \<open>so_reindex\<close> holds the flag \<open>auto_trim\<close>.\<close>

record server_opts =
  so_minter_key :: key_pair
  so_reindex :: "bool option"
  so_enable_stale_production :: bool

text \<open>The chain on the database and the log found at the paths: an index that is not complete is rebuilt
  when asked for, an empty log gets a genesis block.\<close>

definition start_chain :: "'db ext \<Rightarrow> u64 \<Rightarrow> bytes list \<Rightarrow> server_opts \<Rightarrow> 'db \<Rightarrow> bytes \<Rightarrow> 'e fail + 'db blockchain" where
  "start_chain X now seeds opts db log =
     and_then (Blockchain_new X db log) (\<lambda>blockchain.
     let is_empty = store_is_empty (bc_store blockchain)
     in and_then
          (if \<not> is_empty then
             and_then (get_index_status X (bc_db blockchain)) (\<lambda>status.
               if status \<noteq> StatusComplete then
                 (case so_reindex opts of
                    Some auto_trim \<Rightarrow> reindex X now auto_trim blockchain
                  | None \<Rightarrow> Inl Panic)
               else Inr blockchain)
           else Inr blockchain) (\<lambda>blockchain.
        if is_empty then
          and_then (create_genesis_block X now seeds blockchain (so_minter_key opts)) (\<lambda>(blockchain, info). Inr blockchain)
        else Inr blockchain))"

definition start :: "'db ext \<Rightarrow> u64 \<Rightarrow> bytes list \<Rightarrow> server_opts \<Rightarrow> 'db \<Rightarrow> bytes \<Rightarrow> 'e fail + ('db, 'a, 'c) server" where
  "start X now seeds opts db log =
     and_then (start_chain X now seeds opts db log) (\<lambda>blockchain.
     and_then (Minter_new X blockchain (so_minter_key opts) (so_enable_stale_production opts)) (\<lambda>minter.
       Inr \<lparr>sv_minter = minter, sv_subs = Map.empty\<rparr>))"

text \<open>A round of the production loop: an error of the chain is unwrapped, and a panic ends the process.\<close>

definition production_round :: "'db ext \<Rightarrow> u64 \<Rightarrow> u64 \<Rightarrow> 'db minter \<Rightarrow> 'e fail + (block option \<times> 'db minter)" where
  "production_round X now child_time self =
     (case produce X now child_time False self of
        (Inl e, _) \<Rightarrow> Inl Panic
      | (Inr block, self) \<Rightarrow> Inr (block, self))"

definition force_produce_block :: "'db ext \<Rightarrow> u64 \<Rightarrow> u64 \<Rightarrow> bool \<Rightarrow> 'db minter \<Rightarrow> (block_err fail + block option) \<times> 'db minter" where
  "force_produce_block X now child_time force_stale_production self = produce X now child_time force_stale_production self"

section \<open>The first start\<close>

lemma Minter_new_Inr:
  assumes "Minter_new X c k stale = (Inr m :: 'e fail + _)"
  shows "rp_chain (mt_pool m) = c" "rp_receipts (mt_pool m) = []" "mt_key m = k"
proof -
  obtain v where v: "chain_get_owner X c = (Inr (TxV0 v) :: 'e fail + _)"
    using assms unfolding Minter_new_def and_then_Inr_iff by (metis tx_variant.exhaust)
  have "m = \<lparr>mt_pool = ReceiptPool_new c, mt_key = k, mt_enable_stale = stale\<rparr>"
    using assms by (cases v) (auto simp: Minter_new_def v split: if_splits)
  then show "rp_chain (mt_pool m) = c" "rp_receipts (mt_pool m) = []" "mt_key m = k" by (simp_all add: ReceiptPool_new_def)
qed

lemma start_empty:
  assumes "start X now seeds opts db [] = (Inr sv :: 'e fail + ('db, 'a, 'c) server)" "\<And>cf k. db_get X db cf k = None"
  obtains c c1 info where "empty_node X c" "create_genesis_block X now seeds c (so_minter_key opts) = (Inr (c1, info) :: 'e fail + _)"
    "Minter_new X c1 (so_minter_key opts) (so_enable_stale_production opts) = (Inr (sv_minter sv) :: 'e fail + _)"
proof -
  let ?c = "\<lparr>bc_db = db, bc_store = \<lparr>st_height = 0, st_blocks = [], st_genesis = None, st_file = [], st_byte_pos_tail = 0\<rparr>\<rparr>"
  have n: "Blockchain_new X db [] = (Inr ?c :: 'e fail + _)" by (rule Blockchain_new_empty [OF assms(2)])
  have "empty_node X ?c" using assms(2) by (simp add: empty_node_def)
  then show ?thesis
    using assms(1) that [of ?c] by (auto simp: start_def start_chain_def n Let_def store_is_empty_def fallible_iffs)
qed

lemma start_subs: "start X now seeds opts db log = Inr sv \<Longrightarrow> sv_subs sv = Map.empty"
  by (auto simp: start_def fallible_iffs)

lemma genesis_fits:
  assumes "create_genesis_block X now seeds c mk = (Inr (c', info) :: 'e fail + _)"
    and "sign_ok X" "sha256_ok X" "wf_key_pair X mk" "length seeds = 4" "list_all (\<lambda>s. length s = SEEDBYTES) seeds"
  shows "storable (genesis_block X now info)" "length (disk_record X (genesis_block X now info)) < 2 ^ 64"
    and "wf_account (genesis_owner_wallet info)" "wf_tx (genesis_owner_tx now info)"
proof -
  note i = genesis_info [OF assms(1,5,6)]
  have key: "wf_key_pair X (gi_minter_key info)" using assms(4) i(1) by simp
  show "storable (genesis_block X now info)" "length (disk_record X (genesis_block X now info)) < 2 ^ 64"
    "wf_account (genesis_owner_wallet info)" "wf_tx (genesis_owner_tx now info)"
    by (rule genesis_length [OF i(2-4) key assms(2,3)] wf_genesis [OF i(2-4) key assms(2)])+
qed

text \<open>What a start on nothing establishes, with the genesis block it created.\<close>

lemma first_start:
  assumes "start X now seeds opts db [] = (Inr sv :: 'e fail + ('db, 'a, 'c) server)" "\<And>cf k. db_get X db cf k = None"
    and "db_ok X" "sign_ok X" "sha256_ok X" "wf_key_pair X (so_minter_key opts)"
    and "length seeds = 4" "list_all (\<lambda>s. length s = SEEDBYTES) seeds"
  obtains c c1 info where "empty_node X c"
    "create_genesis_block X now seeds c (so_minter_key opts) = (Inr (c1, info) :: 'e fail + _)"
    "Minter_new X c1 (so_minter_key opts) (so_enable_stale_production opts) = (Inr (sv_minter sv) :: 'e fail + _)"
    "storable (genesis_block X now info)" "length (disk_record X (genesis_block X now info)) < 2 ^ 64"
    "wf_account (genesis_owner_wallet info)" "wf_tx (genesis_owner_tx now info)"
    "gi_minter_key info = so_minter_key opts" "node_ok X (sv_minter sv) [genesis_block X now info]"
    "wf_key_pair X (mt_key (sv_minter sv))"
proof -
  obtain c c1 info where g: "empty_node X c" "create_genesis_block X now seeds c (so_minter_key opts) = (Inr (c1, info) :: 'e fail + _)"
    "Minter_new X c1 (so_minter_key opts) (so_enable_stale_production opts) = (Inr (sv_minter sv) :: 'e fail + _)"
    by (rule start_empty [OF assms(1,2)])
  note fits = genesis_fits [OF g(2) assms(4-8)]
  have sv: "node_ok X (sv_minter sv) [genesis_block X now info]" "mt_key (sv_minter sv) = so_minter_key opts"
    by (rule genesis_node_ok [OF g(2,1) assms(3) fits g(3)])+
  show ?thesis by (rule that [OF g fits genesis_info(1) [OF g(2) assms(7,8)] sv(1)]) (use assms(6) sv(2) in simp)
qed

text \<open>The status of the index does not change while the node runs.\<close>

lemma same_reads_status:
  "same_reads X c c' \<Longrightarrow> get_index_status X (bc_db c) = get_index_status X (bc_db c')"
  by (simp add: same_reads_def get_index_status_def families_distinct)

lemma node_step_status:
  assumes "node_step X m m'" "db_ok X" "pool_ok X (mt_pool m)"
  shows "(get_index_status X (bc_db (rp_chain (mt_pool m'))) :: 'f fail + _) = get_index_status X (bc_db (rp_chain (mt_pool m)))"
  using assms(1)
proof cases
  case (push now t)
  show ?thesis using assms(2) by (simp add: push_cases(3) [OF push])
next
  case (produce now child_time force r)
  from produce(1) show ?thesis
  proof (cases rule: produce_cases)
    case (dropped rcs p)
    then show ?thesis by (simp add: same_reads_status [OF pool_flush_Inr(3) [OF dropped(1) assms(2)]])
  next
    case (inserted rcs p hd b c)
    obtain batch where "bc_db c = commit X (bc_db (rp_chain p)) batch" using insert_block_db [OF inserted(4)] by blast
    then show ?thesis
      using assms(2) inserted(6) by (simp add: same_reads_status [OF pool_flush_Inr(3) [OF inserted(1) assms(2)]])
  qed simp
qed

lemma node_steps_status:
  assumes "(node_step X)\<^sup>*\<^sup>* m m'" "node_ok X m bs" "db_ok X" "sign_ok X" "wf_key_pair X (mt_key m)"
  shows "(get_index_status X (bc_db (rp_chain (mt_pool m'))) :: 'f fail + _) = get_index_status X (bc_db (rp_chain (mt_pool m)))"
  using assms(1)
proof (induction rule: rtranclp_induct)
  case (step m1 m2)
  have "pool_ok X (mt_pool m1)" using node_steps_ok [OF step(1) assms(2-5)] by (auto simp: node_ok_def)
  then show ?case using node_step_status [OF step(2) assms(3), where 'f = 'f] step(3) by simp
qed simp

section \<open>The same chain again\<close>

lemma Minter_new_owner:
  assumes "chain_get_owner X c = (Inr (TxV0 (OwnerTx ow)) :: 'e fail + _)" "minter ow = kp_public k"
  shows "Minter_new X c k stale = (Inr \<lparr>mt_pool = ReceiptPool_new c, mt_key = k, mt_enable_stale = stale\<rparr> :: 'e fail + _)"
  by (simp add: Minter_new_def assms)

lemma view_bal_retype:
  "view_bal (idx_get_account X db i) =
    (case (idx_get_account X db i :: 'e fail + _) of Inr (Some acc) \<Rightarrow> amt (balance acc) | _ \<Rightarrow> 0)"
proof (cases "idx_get_account X db i :: 'e fail + account option")
  case (Inl e)
  then have "\<nexists>r. idx_get_account X db i = (Inr r :: unit fail + _)"
    using idx_get_account_retype [where 'e = unit and 'f = 'e] by fastforce
  then have "isl (idx_get_account X db i :: unit fail + account option)"
    by (cases "idx_get_account X db i :: unit fail + account option") simp_all
  then show ?thesis by (auto simp: view_bal_def Inl isl_def)
next
  case (Inr r)
  then have "idx_get_account X db i = (Inr r :: unit fail + _)" by (rule idx_get_account_retype)
  then show ?thesis by (simp add: view_bal_def Inr)
qed

lemma same_index_supply:
  assumes "same_index X db db'" "supply_readable X db"
  shows "index_total X db' = index_total X db" "index_supply X db' = index_supply X db" "supply_readable X db'"
proof -
  have "batch_bal X db' WriteBatch_new i = batch_bal X db WriteBatch_new i" for i
    using assms(1) by (simp add: batch_bal_def batch_account_def WriteBatch_new_def view_bal_retype [where 'e = block_err] same_index_def)
  then show "index_total X db' = index_total X db" by (simp add: index_total_def total_bal_def total_of_def)
  obtain a where a: "get_token_supply X db = (Inr a :: unit fail + _)" using assms(2) by (auto simp: supply_readable_def)
  have "get_token_supply X db' = (Inr a :: block_err fail + _)"
    using supply_retype [OF a, where 'f = block_err] assms(1) by (simp add: same_index_def)
  from supply_retype [OF this, where 'f = unit] a show "index_supply X db' = index_supply X db" "supply_readable X db'"
    by (simp_all add: index_supply_def supply_readable_def)
qed

lemma node_ok_fresh:
  assumes "node_ok X m bs" "chain_repr X c bs" "same_index X (bc_db (rp_chain (mt_pool m))) (bc_db c)"
    and "rp_chain (mt_pool m2) = c" "rp_receipts (mt_pool m2) = []"
  shows "node_ok X m2 bs"
proof -
  have "supply_readable X (bc_db (rp_chain (mt_pool m)))" using assms(1) by (simp add: node_ok_def)
  note s = same_index_supply [OF assms(3) this]
  show ?thesis using assms(1,2,4) s pool_ok_empty [OF assms(5)] by (simp add: node_ok_def)
qed

text \<open>What a start on the chain \<open>c\<close> gives the owner of the chain the node kept.\<close>

lemma started:
  assumes "node_ok X m bs" "chain_repr X c bs" "same_index X (bc_db (rp_chain (mt_pool m))) (bc_db c)"
    and "chain_get_owner X (rp_chain (mt_pool m)) = (Inr (TxV0 (OwnerTx ow)) :: block_err fail + _)"
      "minter ow = kp_public (so_minter_key opts)"
    and "start_chain X now seeds opts db log = (Inr c :: block_err fail + _)"
  shows "\<exists>sv. start X now seeds opts db log = (Inr sv :: block_err fail + ('db, 'a, 'c) server) \<and>
    node_ok X (sv_minter sv) bs \<and> rp_receipts (mt_pool (sv_minter sv)) = [] \<and> sv_subs sv = Map.empty"
proof -
  have "chain_get_owner X c = (Inr (TxV0 (OwnerTx ow)) :: block_err fail + _)"
    using assms(3,4) by (simp add: chain_get_owner_def same_index_def)
  from Minter_new_owner [OF this assms(5)] show ?thesis
    using node_ok_fresh [OF assms(1-3), of "\<lparr>mt_pool = ReceiptPool_new c, mt_key = so_minter_key opts,
        mt_enable_stale = so_enable_stale_production opts\<rparr>"]
    by (simp add: start_def assms(6) ReceiptPool_new_def)
qed

lemma chain_log_not_empty: "chain_repr X c bs \<Longrightarrow> st_file (bc_store c) \<noteq> []"
  by (cases bs) (auto simp: chain_repr_def store_repr_def log_bytes_def disk_record_def disk_meta_def)

lemma chain_repr_unique:
  assumes "chain_repr X c bs" "chain_repr X c bs'"
  shows "bs = bs'"
proof -
  have at: "(if h < length bs then Some (bs ! h) else None) = (if h < length bs' then Some (bs' ! h) else None)"
    if "h < 2 ^ 64" for h
  proof -
    have u: "unat (of_nat h :: u64) = h" by (rule unat_height [OF that])
    have "(Inr (if h < length bs then Some (bs ! h) else None) :: unit fail + _) = get_block X c (of_nat h)"
      by (simp add: get_block_repr [OF assms(1)] u)
    also have "\<dots> = Inr (if h < length bs' then Some (bs' ! h) else None)"
      by (simp add: get_block_repr [OF assms(2)] u)
    finally show ?thesis by simp
  qed
  have len: "length bs < 2 ^ 64" "length bs' < 2 ^ 64" using chain_repr_length assms by blast+
  have "length bs = length bs'" using at [OF len(1)] at [OF len(2)] by (auto split: if_splits)
  then show ?thesis
  proof (rule nth_equalityI)
    fix h
    assume h: "h < length bs"
    then have "h < 2 ^ 64" using len(1) by (rule less_trans)
    then show "bs ! h = bs' ! h" using at [of h] h \<open>length bs = length bs'\<close> by simp
  qed
qed

lemma start_chain_reopens:
  assumes "chain_repr X c bs" "get_index_status X (bc_db c) = (Inr StatusComplete :: 'e fail + _)"
  shows "\<exists>c'. start_chain X now seeds opts (bc_db c) (st_file (bc_store c)) = (Inr c' :: 'e fail + _) \<and>
    chain_repr X c' bs \<and> bc_db c' = bc_db c"
proof -
  obtain c' where c': "Blockchain_new X (bc_db c) (st_file (bc_store c)) = (Inr c' :: 'e fail + _)" "chain_repr X c' bs"
    "bc_db c' = bc_db c" using reopen_repr [OF assms] by blast
  have "\<not> store_is_empty (bc_store c')" using chain_log_not_empty [OF c'(2)] by (simp add: store_is_empty_def)
  then show ?thesis using c' assms(2) by (simp add: start_chain_def Let_def)
qed

lemma start_chain_reindexes:
  assumes "and_then (Blockchain_new X db log) (reindex X now True) = (Inr c' :: 'e fail + _)"
    and "\<And>cf k. db_get X db cf k = None" "log \<noteq> []" "so_reindex opts = Some True"
  shows "start_chain X now seeds opts db log = (Inr c' :: 'e fail + _)"
proof -
  have n: "Blockchain_new X db log = (Inr (bare_node db log) :: 'e fail + _)" by (rule Blockchain_new_bare [OF assms(2)])
  have "get_index_status X db = (Inr StatusNone :: 'e fail + _)" by (simp add: get_index_status_def assms(2))
  then show ?thesis
    using assms(1,3,4) by (simp add: start_chain_def n Let_def store_is_empty_def) (simp add: bare_node_def)
qed

text \<open>Both ways to start again after any run from the first start.\<close>

lemma restarts:
  assumes first: "start X now seeds opts db0 [] = (Inr sv :: 'e fail + ('db, 'a, 'c) server)" "\<And>cf k. db_get X db0 cf k = None"
    and libs: "db_ok X" "sign_ok X" "sha256_ok X" "wf_key_pair X (so_minter_key opts)"
    and seeds: "length seeds = 4" "list_all (\<lambda>s. length s = SEEDBYTES) seeds"
    and run: "(node_step X)\<^sup>*\<^sup>* (sv_minter sv) m"
    and owner: "chain_get_owner X (rp_chain (mt_pool m)) = (Inr (TxV0 (OwnerTx ow)) :: block_err fail + _)"
      "minter ow = kp_public (so_minter_key opts')"
  shows "\<exists>bs. node_ok X m bs \<and>
      (\<exists>sv'. start X later seeds' opts' (bc_db (rp_chain (mt_pool m))) (st_file (bc_store (rp_chain (mt_pool m)))) =
          (Inr sv' :: block_err fail + ('db, 'a, 'c) server) \<and> node_ok X (sv_minter sv') bs) \<and>
      (so_reindex opts' = Some True \<longrightarrow> storable b \<longrightarrow> n < length (disk_record X b) \<longrightarrow> n = 0 \<or> 8 \<le> n \<longrightarrow>
        (\<exists>sv'. start X later seeds' opts' db0 (st_file (bc_store (rp_chain (mt_pool m))) @ take n (disk_record X b)) =
          (Inr sv' :: block_err fail + ('db, 'a, 'c) server) \<and> node_ok X (sv_minter sv') bs))"
proof -
  let ?c = "rp_chain (mt_pool m)"
  obtain c c1 info where g: "empty_node X c" "create_genesis_block X now seeds c (so_minter_key opts) = (Inr (c1, info) :: 'e fail + _)"
    "Minter_new X c1 (so_minter_key opts) (so_enable_stale_production opts) = (Inr (sv_minter sv) :: 'e fail + _)"
    and fits: "storable (genesis_block X now info)" "length (disk_record X (genesis_block X now info)) < 2 ^ 64"
    "wf_account (genesis_owner_wallet info)" "wf_tx (genesis_owner_tx now info)"
    and sv: "node_ok X (sv_minter sv) [genesis_block X now info]" and run_key: "wf_key_pair X (mt_key (sv_minter sv))"
    by (rule first_start [OF first libs seeds])
  obtain bs where bs: "node_ok X m bs"
    using node_steps_ok [OF run sv libs(1,2) run_key] by blast
  have repr: "chain_repr X ?c bs" using bs by (simp add: node_ok_def)
  have "get_index_status X (bc_db ?c) = (Inr StatusComplete :: block_err fail + _)"
    using node_steps_status [OF run sv libs(1,2) run_key, where 'f = block_err]
      create_genesis_repr(5) [OF g(2,1) libs(1) fits, where 'f = block_err] Minter_new_Inr(1) [OF g(3)] by simp
  from start_chain_reopens [OF repr this] obtain c' where c':
    "start_chain X later seeds' opts' (bc_db ?c) (st_file (bc_store ?c)) = (Inr c' :: block_err fail + _)"
    "chain_repr X c' bs" "bc_db c' = bc_db ?c" by blast
  have "same_index X (bc_db ?c) (bc_db c')" by (simp add: same_index_def c'(3))
  from started [OF bs c'(2) this owner c'(1)]
  have reopened: "\<exists>sv'. start X later seeds' opts' (bc_db ?c) (st_file (bc_store ?c)) =
      (Inr sv' :: block_err fail + ('db, 'a, 'c) server) \<and> node_ok X (sv_minter sv') bs" by blast
  have "\<exists>sv'. start X later seeds' opts' db0 (st_file (bc_store ?c) @ take n (disk_record X b)) =
      (Inr sv' :: block_err fail + ('db, 'a, 'c) server) \<and> node_ok X (sv_minter sv') bs"
    if torn: "so_reindex opts' = Some True" "storable b" "n < length (disk_record X b)" "n = 0 \<or> 8 \<le> n"
  proof -
    let ?log = "st_file (bc_store ?c) @ take n (disk_record X b)"
    obtain bs' c2 where c2: "chain_repr X ?c bs'"
      "and_then (Blockchain_new X db0 ?log) (reindex X later True) = (Inr c2 :: block_err fail + _)"
      "chain_repr X c2 bs'" "same_index X (bc_db ?c) (bc_db c2)"
      using reindex_agrees [OF g(2,1) libs(1) fits g(3) run first(2) torn(2-4), of later] by blast
    have "bs' = bs" by (rule chain_repr_unique [OF c2(1) repr])
    moreover have "start_chain X later seeds' opts' db0 ?log = (Inr c2 :: block_err fail + _)"
      by (rule start_chain_reindexes [OF c2(2) first(2) _ torn(1)]) (simp add: chain_log_not_empty [OF repr])
    ultimately show ?thesis using started [OF bs _ c2(4) owner] c2(3) by blast
  qed
  with bs reopened show ?thesis by blast
qed

section \<open>Damaged logs\<close>

text \<open>A record whose checksum differs panics the rebuilding, also when it may trim the log.\<close>

lemma raw_read_bad_checksum:
  assumes "length buf < 2 ^ 32" "crc \<noteq> crc32c X buf"
  shows "raw_read_from_disk X (pre @ disk_meta (of_nat (length buf)) crc @ buf @ post) (length pre) = Inl Panic"
proof -
  have len: "unat (of_nat (length buf) :: u32) = length buf" using assms(1) by (simp add: unat_of_nat)
  have "take 8 (drop (length pre) (pre @ disk_meta (of_nat (length buf)) crc @ buf @ post)) =
      push_u32 (of_nat (length buf)) @ push_u32 crc"
    by (simp add: disk_meta_eq)
  moreover have "take (length buf) (drop (length pre + 8) (pre @ disk_meta (of_nat (length buf)) crc @ buf @ post)) = buf"
    by (simp add: disk_meta_def)
  ultimately show ?thesis using assms(2) by (simp add: raw_read_from_disk_def Let_def len push_u32_def)
qed

lemma bad_checksum_panics:
  assumes "list_all storable bs" "heights_follow 0 bs" "index_chain X f 0 bs batch = Inr batch'"
    and "length buf < 2 ^ 32" "crc \<noteq> crc32c X buf"
  shows "reindex_loop X auto_trim f (log_bytes X bs @ disk_meta (of_nat (length buf)) crc @ buf @ post) batch 0 0 = Inl Panic"
proof -
  let ?file = "log_bytes X bs @ disk_meta (of_nat (length buf)) crc @ buf @ post"
  have "reindex_loop X auto_trim f ?file batch' lst (length (log_bytes X bs)) = Inl Panic" for lst
    by (subst reindex_loop.simps) (simp add: raw_read_bad_checksum [OF assms(4,5)])
  then show ?thesis
    using reindex_loop_log [OF assms(1,2), of X auto_trim f "[]" "disk_meta (of_nat (length buf)) crc @ buf @ post" batch] assms(3)
    by simp
qed

text \<open>A record torn by a crash stays in the log when the node starts on a complete index: the end of the
  file becomes the place of the next block, which a later rebuilding does not reach.\<close>

lemma load_cache_keeps:
  "load_cache X db hs self = (Inr self' :: 'e fail + _) \<Longrightarrow>
    st_file self' = st_file self \<and> st_byte_pos_tail self' = st_byte_pos_tail self"
  by (induction hs arbitrary: self) (fastforce simp: fallible_iffs)+

lemma torn_tail_kept:
  assumes "Blockchain_new X db file = (Inr c :: 'e fail + _)"
  shows "st_file (bc_store c) = file" "st_byte_pos_tail (bc_store c) = of_nat (length file)"
  using assms
  by (auto simp: Blockchain_new_def BlockStore_new_def init_state_def Let_def fallible_iffs dest!: load_cache_keeps split: if_splits)

text \<open>A round of the production loop is a step of the node, or the end of the process.\<close>

lemma production_round_step:
  assumes "production_round X now child_time m = (Inr (r, m') :: 'e fail + _)"
    and "\<And>b. r = Some b \<Longrightarrow> storable b \<and> room X (rp_chain (mt_pool m)) b"
  shows "node_step X m m'"
  using assms by (auto simp: production_round_def split: prod.splits sum.splits intro: node_step.produce)

end
