(* ===== verification/Sample_Start.thy ===== *)
theory Sample_Start
  imports Sample_Pending Startup
begin

text \<open>The sample node as \<open>start\<close> sets it up on nothing, with a transaction accepted since.\<close>

definition sample_opts :: server_opts where
  "sample_opts = \<lparr>so_minter_key = minter_key, so_reindex = Some True, so_enable_stale_production = False\<rparr>"

definition server1 :: "(sample_db, 'a, 'c) server" where
  "server1 = \<lparr>sv_minter = minter1, sv_subs = Map.empty\<rparr>"

lemma sample_starts:
  assumes "so_minter_key opts = minter_key" "\<not> so_enable_stale_production opts"
  shows "start sample 1000 sample_seeds opts [] [] = (Inr server1 :: unit fail + (sample_db, 'a, 'c) server)"
proof -
  have "Blockchain_new sample [] [] = (Inr empty_chain :: unit fail + _)"
    unfolding empty_chain_def by (rule Blockchain_new_empty) (simp add: sample_def)
  moreover have "store_is_empty (bc_store empty_chain)" by (simp add: empty_chain_def store_is_empty_def)
  ultimately show ?thesis
    using assms by (simp add: start_def start_chain_def Let_def genesis_run_ok minter_run_ok server1_def)
qed

lemma sample_start:
  "start sample 1000 sample_seeds sample_opts [] [] = (Inr server1 :: unit fail + (sample_db, 'a, 'c) server)"
  by (rule sample_starts) (simp_all add: sample_opts_def)

lemma sample_empty: "db_get sample [] cf k = None"
  by (simp add: sample_def)

lemma sample_minter_wf: "wf_key_pair sample (so_minter_key sample_opts)"
  by (simp add: sample_opts_def minter_key_def wf_keypair_of)

lemma sample_seeds_ok: "length sample_seeds = 4" "list_all (\<lambda>s. length s = SEEDBYTES) sample_seeds"
  by (simp_all add: sample_seeds_def SEEDBYTES_def)

lemmas sample_first_start = sample_start sample_empty sample_db_ok sample_sign_ok sample_sha256_ok sample_minter_wf sample_seeds_ok

lemma sample_run: "(node_step sample)\<^sup>*\<^sup>* (sv_minter server1) minter2"
  using node_step.push [OF push_run_ok] by (simp add: server1_def r_into_rtranclp)

lemma sample_owner:
  "chain_get_owner sample (rp_chain (mt_pool minter2)) = (Inr (genesis_owner_tx 1000 info1) :: block_err fail + _)"
  using create_genesis_repr(2) [OF genesis1_facts, where 'f = block_err]
  by (simp add: chain_get_owner_def push_cases(3) [OF push_run_ok] Minter_new_Inr(1) [OF minter_run_ok] sample_db_ok)

end
