(* ===== verification/Pending.thy ===== *)
theory Pending
  imports Supply
begin

text \<open>
  The two views of an account behind pending receipts: \<open>get_account\<close>, which replays the receipts on
  the indexed account, and the write batch \<open>index_receipt\<close> fills once the receipts are in a block.
  They agree when no receipt is one the replay treats differently: an update of another account, a
  destroy in the account's favour, or the creation of the account itself.
\<close>

section \<open>Receipts both views treat alike\<close>

definition log_agrees :: "account_id \<Rightarrow> log_entry \<Rightarrow> bool" where
  "log_agrees i entry = (case entry of LogTransfer _ _ \<Rightarrow> True | LogDestroy to_acc \<Rightarrow> to_acc \<noteq> i)"

definition agrees :: "account_id \<Rightarrow> receipt \<Rightarrow> bool" where
  "agrees i r =
     (case rc_tx r of TxV0 t \<Rightarrow>
       (case t of
          OwnerTx _ \<Rightarrow> True
        | MintTx _ \<Rightarrow> True
        | CreateAccountTx t \<Rightarrow>
            acc_id (ca_account t) \<noteq> i \<and> 0 \<le> amt (balance (ca_account t)) \<and> 0 \<le> amt (fee (ca_base t))
        | UpdateAccountTx t \<Rightarrow> ua_account_id t = i \<or> new_script t = None \<and> new_permissions t = None
        | TransferTx t \<Rightarrow> 0 \<le> amt (fee (tr_base t)) \<and> 0 \<le> amt (tr_amount t) \<and> list_all (log_agrees i) (rc_log r)))"

section \<open>One operation on the batch\<close>

lemma view_other: "view = (Inr (Some acc) :: 'e fail + account option) \<Longrightarrow> view = Inr (Some acc') \<Longrightarrow> acc' = acc"
  by simp

lemma add_bal_view:
  assumes "add_bal X db b j a = (Inr b' :: 'e fail + write_batch)"
    and "batch_account X db b i = (Inr (Some acc) :: 'e fail + account option)"
  shows "\<exists>acc'. (if j = i then map_option (\<lambda>bal. acc\<lparr>balance := bal\<rparr>) (Asset_checked_add (balance acc) a) else Some acc) = Some acc' \<and>
    batch_account X db b' i = (Inr (Some acc') :: 'e fail + account option)"
  using assms by (auto simp: add_bal_eq split: sum.splits option.splits)

lemma sub_bal_view:
  assumes "sub_bal X db b j a = (Inr b' :: 'e fail + write_batch)"
    and "batch_account X db b i = (Inr (Some acc) :: 'e fail + account option)"
  shows "\<exists>acc'. (if j = i then map_option (\<lambda>bal. acc\<lparr>balance := bal\<rparr>) (Asset_checked_sub (balance acc) a) else Some acc) = Some acc' \<and>
    batch_account X db b' i = (Inr (Some acc') :: 'e fail + account option)"
  using assms by (auto simp: sub_bal_eq split: sum.splits option.splits)

lemma asset_between:
  assumes "amt a \<le> v" "v \<le> amt b"
  shows "\<exists>c. amt c = v"
  using amt_Asset_of_int [of v] assms amt_bounds [of a] amt_bounds [of b] by (auto simp: fits_def)

text \<open>Subtracting two amounts in turn is subtracting their sum.\<close>

lemma sub_two_total:
  assumes "Asset_checked_add x y = Some tot" "Asset_checked_sub (balance acc) tot = Some bal"
    and "0 \<le> amt x" "0 \<le> amt y"
  shows "sub_two acc x y = Some (acc\<lparr>balance := bal\<rparr>)" "sub_two acc y x = Some (acc\<lparr>balance := bal\<rparr>)"
proof -
  have b: "amt bal = amt (balance acc) - (amt x + amt y)"
    using assms(1,2) by (simp add: Asset_checked_add_iff Asset_checked_sub_iff)
  obtain c d where "amt c = amt (balance acc) - amt x" "amt d = amt (balance acc) - amt y"
    using asset_between [of bal "amt (balance acc) - amt x" "balance acc"]
      asset_between [of bal "amt (balance acc) - amt y" "balance acc"] b assms(3,4) by auto
  then have "Asset_checked_sub (balance acc) x = Some c" "Asset_checked_sub c y = Some bal"
    "Asset_checked_sub (balance acc) y = Some d" "Asset_checked_sub d x = Some bal"
    using b by (simp_all add: Asset_checked_sub_iff)
  then show "sub_two acc x y = Some (acc\<lparr>balance := bal\<rparr>)" "sub_two acc y x = Some (acc\<lparr>balance := bal\<rparr>)"
    by (simp_all add: sub_two_def)
qed

section \<open>The views agree\<close>

lemma index_log_view:
  assumes "index_log X db sender entries b = (Inr b' :: 'e fail + write_batch)"
    and "batch_account X db b i = (Inr (Some acc) :: 'e fail + account option)" "list_all (log_agrees i) entries"
  shows "\<exists>acc'. apply_log i sender entries acc = Some acc' \<and>
    batch_account X db b' i = (Inr (Some acc') :: 'e fail + account option)"
  using assms
proof (induction entries arbitrary: b acc)
  case (Cons entry entries)
  obtain b1 where b1: "index_log_entry X db sender b entry = (Inr b1 :: 'e fail + write_batch)"
    "index_log X db sender entries b1 = (Inr b' :: 'e fail + write_batch)"
    using Cons.prems(1) by (auto simp: fallible_iffs)
  have "\<exists>acc1. apply_log_entry i sender entry acc = Some acc1 \<and>
      batch_account X db b1 i = (Inr (Some acc1) :: 'e fail + account option)"
  proof (cases entry)
    case (LogTransfer to_acc a)
    then have "add_bal X db b to_acc a = (Inr b1 :: 'e fail + write_batch)"
      using b1(1) by (simp add: index_log_entry_def)
    from add_bal_view [OF this Cons.prems(2)] show ?thesis
      by (simp add: LogTransfer)
  next
    case (LogDestroy to_acc)
    then have ne: "to_acc \<noteq> i" using Cons.prems(3) by (simp add: log_agrees_def)
    obtain from_acc b0 where g: "get_account_mut X db b sender = (Inr (from_acc, b0) :: 'e fail + _)"
      "add_bal X db (put_account_mut b0 sender (from_acc\<lparr>destroyed := True, balance := Asset 0\<rparr>)) to_acc
         (balance from_acc) = (Inr b1 :: 'e fail + write_batch)"
      using b1(1) by (auto simp: index_log_entry_def LogDestroy fallible_iffs Let_def)
    have f: "batch_account X db b sender = (Inr (Some from_acc) :: 'e fail + account option)"
      "put_account_mut b0 sender = put_account_mut b sender"
      using g(1) by (auto simp: get_account_mut_eq fun_eq_iff split: sum.splits option.splits if_splits)
    show ?thesis
      using add_bal_view [OF g(2), of i] ne Cons.prems(2) f by (auto simp: LogDestroy)
  qed
  then show ?case
    using Cons.IH [OF b1(2)] Cons.prems(3) by auto
qed simp

lemma index_receipt_view:
  assumes "index_receipt X db b r = (Inr b' :: 'e fail + write_batch)"
    and "batch_account X db b i = (Inr (Some acc) :: 'e fail + account option)" "agrees i r"
  shows "\<exists>acc'. apply_receipt i r acc = Some acc' \<and>
    batch_account X db b' i = (Inr (Some acc') :: 'e fail + account option)"
proof -
  obtain v where v: "rc_tx r = TxV0 v" by (cases "rc_tx r")
  show ?thesis
  proof (cases v)
    case (OwnerTx t)
    then show ?thesis
      using assms v by (auto simp: index_receipt_def apply_receipt_def set_owner_def batch_account_def split: option.splits)
  next
    case (MintTx t)
    then obtain b1 where b1: "add_token_supply X db b (mint_amount t) = (Inr b1 :: 'e fail + write_batch)"
      "add_bal X db b1 (mint_to t) (mint_amount t) = (Inr b' :: 'e fail + write_batch)"
      using assms(1) v by (auto simp: index_receipt_def fallible_iffs)
    have "batch_account X db b1 i = (Inr (Some acc) :: 'e fail + account option)"
      using b1(1) assms(2) by (auto simp: add_token_supply_eq fallible_iffs)
    then show ?thesis
      using add_bal_view [OF b1(2)] v MintTx by (simp add: apply_receipt_def)
  next
    case (CreateAccountTx t)
    then obtain tot b1 where b1: "Asset_checked_add (fee (ca_base t)) (balance (ca_account t)) = Some tot"
      "sub_bal X db b (creator t) tot = (Inr b1 :: 'e fail + write_batch)"
      "b' = insert_or_update_account b1 (ca_account t)"
      using assms(1) v by (auto simp: index_receipt_def fallible_iffs)
    have n: "acc_id (ca_account t) \<noteq> i" "0 \<le> amt (balance (ca_account t))" "0 \<le> amt (fee (ca_base t))"
      using assms(3) v CreateAccountTx by (simp_all add: agrees_def)
    show ?thesis
      using sub_bal_view [OF b1(2) assms(2)] sub_two_total(2) [OF b1(1) _ n(3,2), of acc] v CreateAccountTx n(1)
      by (auto simp: apply_receipt_def b1(3) insert_account_eq split: if_splits)
  next
    case (UpdateAccountTx t)
    then obtain a b1 bal where b1: "get_account_mut X db b (ua_account_id t) = (Inr (a, b1) :: 'e fail + _)"
      "Asset_checked_sub (balance a) (fee (ua_base t)) = Some bal"
      "b' = put_account_mut b1 (ua_account_id t) (apply_update t (a\<lparr>balance := bal\<rparr>))"
      using assms(1) v by (auto simp: index_receipt_def fallible_iffs)
    have f: "batch_account X db b (ua_account_id t) = (Inr (Some a) :: 'e fail + account option)"
      "put_account_mut b1 (ua_account_id t) = put_account_mut b (ua_account_id t)"
      using b1(1) by (auto simp: get_account_mut_eq fun_eq_iff split: sum.splits option.splits if_splits)
    show ?thesis
    proof (cases "ua_account_id t = i")
      case True
      then show ?thesis
        using f assms(2) b1(2) v UpdateAccountTx
        by (auto simp: apply_receipt_def b1(3) apply_update_def Let_def)
    next
      case False
      then show ?thesis
        using f assms(2,3) v UpdateAccountTx by (auto simp: apply_receipt_def b1(3) agrees_def)
    qed
  next
    case (TransferTx t)
    then obtain tot b1 where b1: "Asset_checked_add (fee (tr_base t)) (tr_amount t) = Some tot"
      "sub_bal X db b (tr_from t) tot = (Inr b1 :: 'e fail + write_batch)"
      "index_log X db (tr_from t) (rc_log r) b1 = (Inr b' :: 'e fail + write_batch)"
      using assms(1) v by (auto simp: index_receipt_def fallible_iffs)
    have n: "0 \<le> amt (fee (tr_base t))" "0 \<le> amt (tr_amount t)" "list_all (log_agrees i) (rc_log r)"
      using assms(3) v TransferTx by (simp_all add: agrees_def)
    obtain acc1 where "(if tr_from t = i then sub_two acc (fee (tr_base t)) (tr_amount t) else Some acc) = Some acc1"
      "batch_account X db b1 i = (Inr (Some acc1) :: 'e fail + account option)"
      using sub_bal_view [OF b1(2) assms(2)] sub_two_total(1) [OF b1(1) _ n(1,2), of acc] by (auto split: if_splits)
    then show ?thesis
      using index_log_view [OF b1(3) _ n(3)] v TransferTx by (simp add: apply_receipt_def)
  qed
qed

lemma index_receipts_view:
  assumes "index_receipts X db rs b = (Inr b' :: 'e fail + write_batch)"
    and "batch_account X db b i = (Inr (Some acc) :: 'e fail + account option)" "list_all (agrees i) rs"
  shows "\<exists>acc'. apply_receipts i rs acc = Some acc' \<and>
    batch_account X db b' i = (Inr (Some acc') :: 'e fail + account option)"
  using assms
proof (induction rs arbitrary: b acc)
  case (Cons r rs)
  obtain b1 where b1: "index_receipt X db b r = (Inr b1 :: 'e fail + write_batch)"
    "index_receipts X db rs b1 = (Inr b' :: 'e fail + write_batch)"
    using Cons.prems(1) by (auto simp: fallible_iffs)
  show ?case
    using index_receipt_view [OF b1(1) Cons.prems(2)] Cons.prems(3) Cons.IH [OF b1(2)] by auto
qed simp

end
