(* ===== verification/Execute_Spec.thy ===== *)
theory Execute_Spec
  imports Execute
begin

text \<open>
  What the checks of \<open>execute_tx\<close> amount to in integers: when an account may be created and when a
  transfer goes to its script.  The doubled fee and the minimum balance of the code are products of
  assets; here they are twice and four times the account's fee.
\<close>

definition asset_int :: "int \<Rightarrow> asset" where "asset_int x = Asset (word_of_int x)"

lemma amt_asset_int: "0 \<le> x \<Longrightarrow> x < 2 ^ 63 \<Longrightarrow> amt (asset_int x) = x"
  unfolding asset_int_def by (rule amt_Asset_of_int) (simp add: fits_def)

lemma asset_int_unique: "amt a = x \<Longrightarrow> 0 \<le> x \<Longrightarrow> x < 2 ^ 63 \<Longrightarrow> a = asset_int x"
  by (simp add: amt_asset_int flip: amt_inject)

lemma mult_100000: "0 \<le> x \<Longrightarrow> trunc_div (x * 200000) 100000 = 2 * x"
  by (cases "x = 0") (simp_all add: trunc_div_def)

text \<open>Doubling an amount that is not negative.\<close>

lemma doubled:
  assumes "0 \<le> amt a"
  shows "Asset_checked_mul a GRAEL_ACC_CREATE_FEE_MULT =
      (Inr (if 2 * amt a < 2 ^ 63 then Some (asset_int (2 * amt a)) else None) :: 'e fail + _)"
    and "Asset_checked_mul a GRAEL_ACC_CREATE_MIN_BAL_MULT =
      (Inr (if 2 * amt a < 2 ^ 63 then Some (asset_int (2 * amt a)) else None) :: 'e fail + _)"
  unfolding asset_int_def
  using assms by (simp_all add: Asset_checked_mul_eq amt_def [of "Asset 200000"] mult_100000 Let_def not_less
      GRAEL_ACC_CREATE_FEE_MULT_def GRAEL_ACC_CREATE_MIN_BAL_MULT_def)

definition full_fee :: "account_info \<Rightarrow> int" where
  "full_fee info = amt (ai_net_fee info) + amt (ai_account_fee info)"

lemma total_fee_eq:
  assumes "0 \<le> full_fee info"
  shows "total_fee info = (if full_fee info < 2 ^ 63 then Some (asset_int (full_fee info)) else None)"
proof (cases "full_fee info < 2 ^ 63")
  case True
  then show ?thesis
    using assms by (simp add: total_fee_def Asset_checked_add_iff amt_asset_int flip: full_fee_def)
next
  case False
  then have "\<not> fits 64 (full_fee info)" by (simp add: fits_def)
  then show ?thesis
    using False by (simp add: total_fee_def Asset_checked_add_None_iff flip: full_fee_def)
qed

lemma required_fee_eq:
  assumes "0 \<le> full_fee info"
  shows "required_fee info =
    (if 2 * full_fee info < 2 ^ 63 then Inr (asset_int (2 * full_fee info)) else Inl (Err Arithmetic))"
  using assms
  by (simp add: required_fee_def total_fee_eq some_or_def ok_or_def and_then_def amt_asset_int doubled)

lemma create_fee_checks_iff:
  assumes "0 \<le> full_fee info"
  shows "create_fee_checks info t = Inr () \<longleftrightarrow>
    2 * full_fee info \<le> amt (fee (ca_base t)) \<and> 4 * full_fee info \<le> amt (balance (ca_account t))"
  using assms amt_bounds(2) [of "balance (ca_account t)"]
  by (auto simp: create_fee_checks_def required_fee_eq some_or_def ok_or_def and_then_def amt_asset_int doubled
      asset_less_iff not_less)

lemma check_balance_iff:
  assumes "0 \<le> amt a" "0 \<le> amt b"
  shows "check_balance bal [a, b] = Inr () \<longleftrightarrow> amt a + amt b \<le> amt bal"
    and "check_balance bal [a] = Inr () \<longleftrightarrow> amt a \<le> amt bal"
proof -
  have ex: "\<exists>c. Asset_checked_sub x y = Some c \<and> amt c = amt x - amt y" if "0 \<le> amt y" "- (2 ^ 63) \<le> amt x - amt y" for x y
  proof -
    have "fits 64 (amt x - amt y)" using that amt_bounds(2) [of x] by (simp add: fits_def)
    from amt_Asset_of_int [OF this] show ?thesis by (metis Asset_checked_sub_iff)
  qed
  have neg: "amt x < amt y" if "Asset_checked_sub x y = None" "0 \<le> amt y" for x y
    using that amt_bounds [of x] by (auto simp: Asset_checked_sub_None_iff fits_def)
  have sub: "\<exists>c. Asset_checked_sub bal a = Some c \<and> amt c = amt bal - amt a" if "amt a \<le> amt bal"
    using ex [OF assms(1), of bal] that by simp
  show one: "check_balance bal [a] = Inr () \<longleftrightarrow> amt a \<le> amt bal"
    using neg [of bal a] assms(1) sub
    by (auto simp: check_balance_def check_def and_then_def ok_or_def Asset_checked_sub_iff split: option.splits)
  show "check_balance bal [a, b] = Inr () \<longleftrightarrow> amt a + amt b \<le> amt bal"
  proof (cases "Asset_checked_sub bal a")
    case None
    then show ?thesis using neg [OF None assms(1)] assms(2) by (simp add: check_balance_def and_then_def ok_or_def)
  next
    case (Some c)
    then have c: "amt c = amt bal - amt a" by (simp add: Asset_checked_sub_iff)
    show ?thesis
    proof (cases "Asset_checked_sub c b")
      case None
      then show ?thesis
        using neg [OF None assms(2)] c by (simp add: check_balance_def and_then_def ok_or_def Some)
    next
      case d: (Some d)
      then have "amt d = amt c - amt b" by (simp add: Asset_checked_sub_iff)
      then show ?thesis
        using c d by (simp add: check_balance_def check_def and_then_def ok_or_def Some)
    qed
  qed
qed

text \<open>The network fee at the \<open>k\<close>-th step of ten receipts.\<close>

lemma scaled_net_fee:
  assumes "bigint_ok X" "k < 2 ^ 16"
  shows "scaled_fee X GRAEL_FEE_NET_MULT (of_nat k) =
    Inr (if 5 * k < 2 ^ 16 \<and> pow_spec 101500 k < 2 ^ 63 then Some (asset_int (25 * pow_spec 101500 k div 100000)) else None)"
proof -
  let ?p = "pow_spec 101500 k"
  have k: "unat (of_nat k :: u16) = k" using assms(2) by (simp add: unat_of_nat take_bit_nat_eq_self)
  have a: "amt GRAEL_FEE_NET_MULT = 101500" "amt GRAEL_FEE_MIN = 25"
    by (simp_all add: amt_def GRAEL_FEE_NET_MULT_def GRAEL_FEE_MIN_def)
  have p: "0 \<le> ?p" by (simp add: pow_spec_def trunc_div_def pos_imp_zdiv_nonneg_iff)
  have m: "Asset_checked_mul GRAEL_FEE_MIN (asset_int ?p) = Inr (Some (asset_int (25 * ?p div 100000)))" if "?p < 2 ^ 63"
  proof -
    have "trunc_div (25 * ?p) 100000 = 25 * ?p div 100000"
      using p by (cases "?p = 0") (simp_all add: trunc_div_def)
    moreover have "25 * ?p div 100000 \<le> ?p" using p by simp
    ultimately show ?thesis
      using that p by (simp add: Asset_checked_mul_eq a amt_asset_int Let_def asset_int_def [of "?p div 4000"])
  qed
  have c: "map_option Asset (checked ?p) = (if ?p < 2 ^ 63 then Some (asset_int ?p) else None)"
    using p by (simp add: checked_def fits_def asset_int_def)
  show ?thesis
    by (simp add: scaled_fee_def Asset_checked_pow_eq [OF assms(1)] k a c m not_less)
qed

section \<open>Fees are not negative\<close>

lemma trunc_div_nonneg: "0 \<le> x \<Longrightarrow> 0 < d \<Longrightarrow> 0 \<le> trunc_div x d"
  by (cases "x = 0") (simp_all add: trunc_div_def pos_imp_zdiv_nonneg_iff)

lemma pow_spec_nonneg: "0 \<le> a \<Longrightarrow> 0 \<le> pow_spec a n"
  by (simp add: pow_spec_def trunc_div_nonneg)

lemma scaled_fee_nonneg:
  assumes "scaled_fee X mult n = (Inr (Some f) :: 'e fail + _)" "bigint_ok X" "0 \<le> amt mult"
  shows "0 \<le> amt f"
proof -
  let ?p = "pow_spec (amt mult) (unat n)"
  have p: "0 \<le> ?p" by (rule pow_spec_nonneg [OF assms(3)])
  have fp: "fits 64 ?p" and q: "Asset_checked_mul GRAEL_FEE_MIN (Asset (word_of_int ?p)) = (Inr (Some f) :: 'e fail + _)"
    using assms(1) by (auto simp: scaled_fee_def Asset_checked_pow_eq [OF assms(2)] checked_def and_then_some_Some_iff split: if_splits)
  have m: "amt GRAEL_FEE_MIN = 25" by (simp add: amt_def GRAEL_FEE_MIN_def)
  have "0 \<le> trunc_div (25 * ?p) 100000" using p by (simp add: trunc_div_nonneg)
  moreover have "f = Asset (word_of_int (trunc_div (25 * ?p) 100000))" "trunc_div (25 * ?p) 100000 < 2 ^ 63"
    using q by (auto simp: Asset_checked_mul_eq m amt_Asset_of_int [OF fp] Let_def split: if_splits)
  ultimately show ?thesis by (simp add: amt_Asset_of_int fits_def)
qed

lemma full_fee_nonneg:
  assumes "get_account_info X c i rs = (Inr (Some info) :: 'e fail + _)" "bigint_ok X"
  shows "0 \<le> full_fee info"
proof -
  have m: "0 \<le> amt GRAEL_FEE_MULT" "0 \<le> amt GRAEL_FEE_NET_MULT"
    by (simp_all add: amt_def GRAEL_FEE_MULT_def GRAEL_FEE_NET_MULT_def)
  have a: "get_network_fee X c = (Inr (Some (ai_net_fee info)) :: 'e fail + _)"
    "get_account_fee X c i rs = (Inr (Some (ai_account_fee info)) :: 'e fail + _)"
    using assms(1) by (auto simp: get_account_info_def and_then_some_Some_iff fallible_iffs)
  obtain n k where "scaled_fee X GRAEL_FEE_NET_MULT n = (Inr (Some (ai_net_fee info)) :: 'e fail + _)"
    "scaled_fee X GRAEL_FEE_MULT k = (Inr (Some (ai_account_fee info)) :: 'e fail + _)"
    using a by (auto simp: get_network_fee_def get_account_fee_def and_then_some_Some_iff fallible_iffs Let_def split: if_splits)
  then have "0 \<le> amt (ai_net_fee info)" "0 \<le> amt (ai_account_fee info)"
    using scaled_fee_nonneg [OF _ assms(2)] m by blast+
  then show ?thesis by (simp add: full_fee_def)
qed

section \<open>When a transaction is accepted\<close>

lemma check_Inr_iff: "check bad e = Inr u \<longleftrightarrow> \<not> bad"
  by (simp add: check_def)

lemma create_account_accepted_iff:
  assumes "get_account_info X c (creator t) rs = (Inr (Some info) :: tx_err fail + _)" "0 \<le> full_fee info"
  shows "execute_create_account_tx X c data rs t = Inr log \<longleftrightarrow>
    log = [] \<and> length (acc_script (ca_account t)) \<le> 2048 \<and> \<not> destroyed (ca_account t) \<and>
    Permissions_is_valid (permissions (ca_account t)) \<and>
    \<not> account_exists X (bc_db c) (acc_id (ca_account t)) \<and> \<not> list_ex (pending_create (acc_id (ca_account t))) rs \<and>
    2 * full_fee info \<le> amt (fee (ca_base t)) \<and> 4 * full_fee info \<le> amt (balance (ca_account t)) \<and>
    amt (fee (ca_base t)) + amt (balance (ca_account t)) \<le> amt (balance (ai_account info)) \<and>
    Permissions_verify X (permissions (ai_account info)) (txid_bytes (pd_txid data)) (signature_pairs (ca_base t)) = Inr ()"
proof -
  have v: "verify_account_sigs X info data sigs = Inr () \<longleftrightarrow>
      Permissions_verify X (permissions (ai_account info)) (txid_bytes (pd_txid data)) sigs = Inr ()" for sigs
    by (auto simp: verify_account_sigs_def split: sum.splits)
  let ?a = "fee (ca_base t)" and ?b = "balance (ca_account t)"
  have ge: "0 \<le> amt ?a" "0 \<le> amt ?b" if "2 * full_fee info \<le> amt ?a" "4 * full_fee info \<le> amt ?b"
    using that assms(2) by linarith+
  show ?thesis
    using assms(1) check_balance_iff(1) [OF ge]
    by (auto simp: execute_create_account_tx_def Let_def some_or_def fallible_iffs v
        create_fee_checks_iff [OF assms(2)] MAX_SCRIPT_BYTE_SIZE_def not_less)
qed

lemma transfer_accepted_iff:
  assumes "get_account_info X c (tr_from t) rs = (Inr (Some info) :: tx_err fail + _)" "0 \<le> full_fee info"
  shows "execute_transfer_tx X c data rs t = Inr log \<longleftrightarrow>
    length (memo t) \<le> 1024 \<and> 0 \<le> amt (tr_amount t) \<and> full_fee info \<le> amt (fee (tr_base t)) \<and>
    amt (fee (tr_base t)) + amt (tr_amount t) \<le> amt (balance (ai_account info)) \<and>
    run_script X c (acc_script (ai_account info)) data rs = Inr log"
proof -
  let ?a = "fee (tr_base t)" and ?b = "tr_amount t"
  have ge: "0 \<le> amt ?a" if "full_fee info \<le> amt ?a" using that assms(2) by linarith
  have lt: "?a < asset_int (full_fee info) \<longleftrightarrow> amt ?a < full_fee info" if "full_fee info < 2 ^ 63"
    using that assms(2) by (simp add: asset_less_iff amt_asset_int)
  have big: "full_fee info < 2 ^ 63" if "full_fee info \<le> amt ?a"
    using that amt_bounds(2) [of ?a] by linarith
  show ?thesis
    using assms(1) check_balance_iff(1) [of ?a ?b "balance (ai_account info)"] ge lt big
    by (auto simp: execute_transfer_tx_def some_or_def fallible_iffs check_Inr_iff total_fee_eq [OF assms(2)]
        MAX_MEMO_BYTE_SIZE_def not_less not_le split: if_splits)
qed

lemma update_checks_script:
  "update_checks info (t\<lparr>new_script := Some scr, new_permissions := Some perms\<rparr>) =
    update_checks info (t\<lparr>new_script := Some scr, new_permissions := None\<rparr>)"
  by (simp add: update_checks_def)

lemma update_account_accepted_iff:
  assumes "get_account_info X c (ua_account_id t) rs = (Inr (Some info) :: tx_err fail + _)" "0 \<le> full_fee info"
  shows "execute_update_account_tx X c data rs t = Inr log \<longleftrightarrow>
    log = [] \<and> \<not> destroyed (ai_account info) \<and>
    (case new_script t of
       Some scr \<Rightarrow> length scr \<le> 2048
     | None \<Rightarrow> pred_option Permissions_is_valid (new_permissions t)) \<and>
    2 * full_fee info \<le> amt (fee (ua_base t)) \<and> amt (fee (ua_base t)) \<le> amt (balance (ai_account info)) \<and>
    Permissions_verify X (permissions (ai_account info)) (txid_bytes (pd_txid data)) (signature_pairs (ua_base t)) = Inr ()"
proof -
  have v: "verify_account_sigs X info data sigs = Inr () \<longleftrightarrow>
      Permissions_verify X (permissions (ai_account info)) (txid_bytes (pd_txid data)) sigs = Inr ()" for sigs
    by (auto simp: verify_account_sigs_def split: sum.splits)
  let ?a = "fee (ua_base t)"
  have ge: "0 \<le> amt ?a" if "2 * full_fee info \<le> amt ?a" using that assms(2) by linarith
  have lt: "?a < asset_int (2 * full_fee info) \<longleftrightarrow> amt ?a < 2 * full_fee info" if "2 * full_fee info < 2 ^ 63"
    using that assms(2) by (simp add: asset_less_iff amt_asset_int)
  have big: "2 * full_fee info < 2 ^ 63" if "2 * full_fee info \<le> amt ?a"
    using that amt_bounds(2) [of ?a] by linarith
  have u: "update_checks info t = Inr () \<longleftrightarrow> \<not> destroyed (ai_account info) \<and>
      (case new_script t of
         Some scr \<Rightarrow> length scr \<le> 2048
       | None \<Rightarrow> pred_option Permissions_is_valid (new_permissions t))"
    by (auto simp: update_checks_def check_Inr_iff MAX_SCRIPT_BYTE_SIZE_def split: option.splits)
  show ?thesis
    using assms(1) check_balance_iff(2) [of ?a ?a "balance (ai_account info)"] ge lt big
    by (auto simp: execute_update_account_tx_def some_or_def fallible_iffs check_Inr_iff v u
        required_fee_eq [OF assms(2)] not_less not_le split: if_splits)
qed

section \<open>The whole of \<open>execute_tx\<close>\<close>

lemma execute_create_tx_iff:
  assumes "bigint_ok X" "pd_tx data = TxV0 (CreateAccountTx t)"
  shows "execute_tx X c data rs = Inr log \<longleftrightarrow>
    log = [] \<and> length (signature_pairs (ca_base t)) \<le> 8 \<and> length (acc_script (ca_account t)) \<le> 2048 \<and>
    \<not> destroyed (ca_account t) \<and> Permissions_is_valid (permissions (ca_account t)) \<and>
    \<not> account_exists X (bc_db c) (acc_id (ca_account t)) \<and> \<not> list_ex (pending_create (acc_id (ca_account t))) rs \<and>
    (\<exists>info. get_account_info X c (creator t) rs = (Inr (Some info) :: tx_err fail + _) \<and>
      2 * full_fee info \<le> amt (fee (ca_base t)) \<and> 4 * full_fee info \<le> amt (balance (ca_account t)) \<and>
      amt (fee (ca_base t)) + amt (balance (ca_account t)) \<le> amt (balance (ai_account info)) \<and>
      Permissions_verify X (permissions (ai_account info)) (txid_bytes (pd_txid data)) (signature_pairs (ca_base t)) = Inr ())"
proof (cases "\<exists>info. get_account_info X c (creator t) rs = (Inr (Some info) :: tx_err fail + _)")
  case True
  then obtain info where i: "get_account_info X c (creator t) rs = (Inr (Some info) :: tx_err fail + _)" by blast
  show ?thesis
    using create_account_accepted_iff [OF i full_fee_nonneg [OF i assms(1)], of data log]
    by (auto simp: execute_tx_def assms(2) i MAX_TX_SIGNATURES_def)
next
  case False
  then show ?thesis
    by (auto simp: execute_tx_def assms(2) execute_create_account_tx_def Let_def some_or_def fallible_iffs)
qed

lemma execute_transfer_iff:
  assumes "bigint_ok X" "pd_tx data = TxV0 (TransferTx t)"
  shows "execute_tx X c data rs = Inr log \<longleftrightarrow>
    length (signature_pairs (tr_base t)) \<le> 8 \<and> length (memo t) \<le> 1024 \<and> 0 \<le> amt (tr_amount t) \<and>
    (\<exists>info. get_account_info X c (tr_from t) rs = (Inr (Some info) :: tx_err fail + _) \<and>
      full_fee info \<le> amt (fee (tr_base t)) \<and>
      amt (fee (tr_base t)) + amt (tr_amount t) \<le> amt (balance (ai_account info)) \<and>
      run_script X c (acc_script (ai_account info)) data rs = Inr log)"
proof (cases "\<exists>info. get_account_info X c (tr_from t) rs = (Inr (Some info) :: tx_err fail + _)")
  case True
  then obtain info where i: "get_account_info X c (tr_from t) rs = (Inr (Some info) :: tx_err fail + _)" by blast
  show ?thesis
    using transfer_accepted_iff [OF i full_fee_nonneg [OF i assms(1)], of data log]
    by (auto simp: execute_tx_def assms(2) i MAX_TX_SIGNATURES_def)
next
  case False
  then show ?thesis
    by (auto simp: execute_tx_def assms(2) execute_transfer_tx_def some_or_def fallible_iffs)
qed

lemma execute_update_tx_iff:
  assumes "bigint_ok X" "pd_tx data = TxV0 (UpdateAccountTx t)"
  shows "execute_tx X c data rs = Inr log \<longleftrightarrow>
    log = [] \<and> length (signature_pairs (ua_base t)) \<le> 8 \<and>
    (case new_script t of
       Some scr \<Rightarrow> length scr \<le> 2048
     | None \<Rightarrow> pred_option Permissions_is_valid (new_permissions t)) \<and>
    (\<exists>info. get_account_info X c (ua_account_id t) rs = (Inr (Some info) :: tx_err fail + _) \<and>
      \<not> destroyed (ai_account info) \<and>
      2 * full_fee info \<le> amt (fee (ua_base t)) \<and> amt (fee (ua_base t)) \<le> amt (balance (ai_account info)) \<and>
      Permissions_verify X (permissions (ai_account info)) (txid_bytes (pd_txid data)) (signature_pairs (ua_base t)) = Inr ())"
proof (cases "\<exists>info. get_account_info X c (ua_account_id t) rs = (Inr (Some info) :: tx_err fail + _)")
  case True
  then obtain info where i: "get_account_info X c (ua_account_id t) rs = (Inr (Some info) :: tx_err fail + _)" by blast
  show ?thesis
    using update_account_accepted_iff [OF i full_fee_nonneg [OF i assms(1)], of data log]
    by (auto simp: execute_tx_def assms(2) i MAX_TX_SIGNATURES_def)
next
  case False
  then show ?thesis
    by (auto simp: execute_tx_def assms(2) execute_update_account_tx_def some_or_def fallible_iffs)
qed

end
