(* ===== verification/Solvency.thy ===== *)
theory Solvency
  imports Pending Execute_Spec Startup
begin

text \<open>
  No account is ever overdrawn.  A transaction is checked against the view of its sender behind the
  pending receipts; that view never shows more than the index will hold once those receipts are in a
  block, so the debits the block makes are covered.  The scripts of accounts stay within their bound.
\<close>

section \<open>What an accepted transaction can pay\<close>

definition affordable :: "'db ext \<Rightarrow> 'db blockchain \<Rightarrow> receipt list \<Rightarrow> receipt \<Rightarrow> bool" where
  "affordable X c before r =
     (case rc_tx r of TxV0 t \<Rightarrow>
       (case t of
          OwnerTx t \<Rightarrow> amt (fee (own_base t)) = 0
        | MintTx t \<Rightarrow> amt (fee (mint_base t)) = 0 \<and> 0 \<le> amt (mint_amount t)
        | CreateAccountTx t \<Rightarrow>
            0 \<le> amt (fee (ca_base t)) \<and> 0 \<le> amt (balance (ca_account t)) \<and> length (acc_script (ca_account t)) \<le> 2048 \<and>
            (\<exists>p. get_account X c (creator t) before = (Inr (Some p) :: tx_err fail + _) \<and>
              amt (fee (ca_base t)) + amt (balance (ca_account t)) \<le> amt (balance p))
        | UpdateAccountTx t \<Rightarrow>
            0 \<le> amt (fee (ua_base t)) \<and> (\<forall>scr. new_script t = Some scr \<longrightarrow> length scr \<le> 2048) \<and>
            (\<exists>p. get_account X c (ua_account_id t) before = (Inr (Some p) :: tx_err fail + _) \<and>
              amt (fee (ua_base t)) \<le> amt (balance p))
        | TransferTx t \<Rightarrow>
            0 \<le> amt (fee (tr_base t)) \<and> 0 \<le> amt (tr_amount t) \<and>
            (\<exists>p. get_account X c (tr_from t) before = (Inr (Some p) :: tx_err fail + _) \<and>
              amt (fee (tr_base t)) + amt (tr_amount t) \<le> amt (balance p))))"

lemma account_info_account:
  "get_account_info X c i rs = (Inr (Some info) :: 'e fail + _) \<Longrightarrow>
    get_account X c i rs = (Inr (Some (ai_account info)) :: 'e fail + _)"
  by (auto simp: get_account_info_def and_then_some_Some_iff fallible_iffs)

lemma execute_tx_affordable:
  assumes "execute_tx X c data before = Inr log" "rc_tx r = pd_tx data" "bigint_ok X"
  shows "affordable X c before r"
proof -
  obtain v where v: "pd_tx data = TxV0 v" by (cases "pd_tx data")
  note [simp] = assms(2) v affordable_def execute_tx_def check_Inr
  show ?thesis
  proof (cases v)
    case (OwnerTx t)
    then show ?thesis using assms(1) by (auto simp: execute_owner_tx_def fallible_iffs amt_def split: if_splits)
  next
    case (MintTx t)
    then show ?thesis using assms(1) by (auto simp: execute_mint_tx_def fallible_iffs amt_def split: if_splits)
  next
    case (CreateAccountTx t)
    then obtain info where i: "get_account_info X c (creator t) before = (Inr (Some info) :: tx_err fail + _)"
      using assms(1) by (auto simp: execute_create_account_tx_def Let_def some_or_def fallible_iffs split: if_splits)
    note f = full_fee_nonneg [OF i assms(3)]
    have "execute_create_account_tx X c data before t = Inr log"
      using assms(1) CreateAccountTx by (simp split: if_splits)
    then show ?thesis
      using account_info_account [OF i] f CreateAccountTx by (auto simp: create_account_accepted_iff [OF i f])
  next
    case (UpdateAccountTx t)
    then have e: "execute_update_account_tx X c data before t = Inr log" using assms(1) by (simp split: if_splits)
    then obtain info where i: "get_account_info X c (ua_account_id t) before = (Inr (Some info) :: tx_err fail + _)"
      by (auto simp: execute_update_account_tx_def some_or_def fallible_iffs)
    note f = full_fee_nonneg [OF i assms(3)]
    obtain req where u: "update_checks info t = Inr ()" "required_fee info = Inr req" "req \<le> fee (ua_base t)"
      "check_balance (balance (ai_account info)) [fee (ua_base t)] = Inr ()"
      using e i by (auto simp: execute_update_account_tx_def some_or_def fallible_iffs not_less)
    have "0 \<le> amt (fee (ua_base t))"
      using u(2,3) f by (auto simp: required_fee_eq asset_le_iff amt_asset_int split: if_splits)
    moreover from this have "amt (fee (ua_base t)) \<le> amt (balance (ai_account info))"
      using u(4) by (simp add: check_balance_iff(2))
    moreover have "length scr \<le> 2048" if "new_script t = Some scr" for scr
      using u(1) that by (auto simp: update_checks_def MAX_SCRIPT_BYTE_SIZE_def split: if_splits)
    ultimately show ?thesis using account_info_account [OF i] UpdateAccountTx by auto
  next
    case (TransferTx t)
    then have e: "execute_transfer_tx X c data before t = Inr log" using assms(1) by (simp split: if_splits)
    then obtain info where i: "get_account_info X c (tr_from t) before = (Inr (Some info) :: tx_err fail + _)"
      by (auto simp: execute_transfer_tx_def some_or_def fallible_iffs)
    note f = full_fee_nonneg [OF i assms(3)]
    obtain mf where u: "0 \<le> amt (tr_amount t)" "total_fee info = Some mf" "mf \<le> fee (tr_base t)"
      "check_balance (balance (ai_account info)) [fee (tr_base t), tr_amount t] = Inr ()"
      using e i by (auto simp: execute_transfer_tx_def some_or_def fallible_iffs not_less)
    have "0 \<le> amt (fee (tr_base t))"
      using u(2,3) f by (auto simp: total_fee_eq asset_le_iff amt_asset_int split: if_splits)
    moreover from this have "amt (fee (tr_base t)) + amt (tr_amount t) \<le> amt (balance (ai_account info))"
      using u(1,4) by (simp add: check_balance_iff(1))
    ultimately show ?thesis using account_info_account [OF i] u(1) TransferTx by auto
  qed
qed

section \<open>The index covers what the pending view shows\<close>

definition sound_account :: "account \<Rightarrow> bool" where
  "sound_account acc \<longleftrightarrow> 0 \<le> amt (balance acc) \<and> length (acc_script acc) \<le> 2048"

definition sound_batch :: "'db ext \<Rightarrow> 'db \<Rightarrow> write_batch \<Rightarrow> bool" where
  "sound_batch X db b \<longleftrightarrow>
     (\<forall>i acc. (batch_account X db b i :: unit fail + account option) = Inr (Some acc) \<longrightarrow> sound_account acc)"

definition covers :: "'db ext \<Rightarrow> 'db \<Rightarrow> write_batch \<Rightarrow> account_id \<Rightarrow> account \<Rightarrow> bool" where
  "covers X db b i p \<longleftrightarrow>
     (\<exists>q. (batch_account X db b i :: unit fail + account option) = Inr (Some q) \<and> amt (balance p) \<le> amt (balance q))"

lemma sound_batch_put: "sound_batch X db b \<Longrightarrow> sound_account acc \<Longrightarrow> sound_batch X db (put_account_mut b i acc)"
  by (simp add: sound_batch_def)

lemma sound_batchD:
  "(batch_account X db b i :: 'e fail + account option) = Inr (Some acc) \<Longrightarrow> sound_batch X db b \<Longrightarrow> sound_account acc"
  by (auto simp: sound_batch_def dest: batch_account_retype [where 'f = unit])

lemma coversD:
  "covers X db b i p \<Longrightarrow> (batch_account X db b i :: 'e fail + account option) = Inr (Some q) \<Longrightarrow>
    amt (balance p) \<le> amt (balance q)"
  by (auto simp: covers_def dest: batch_account_retype [where 'f = unit])

lemma covers_put:
  "covers X db (put_account_mut b j acc) i p \<longleftrightarrow> (if j = i then amt (balance p) \<le> amt (balance acc) else covers X db b i p)"
  by (simp add: covers_def)

lemma add_bal_sound:
  assumes "add_bal X db b j a = (Inr b' :: 'e fail + _)" "sound_batch X db b" "0 \<le> amt a"
  shows "sound_batch X db b'"
proof -
  obtain acc bal where acc: "(batch_account X db b j :: 'e fail + account option) = Inr (Some acc)"
    "amt bal = amt (balance acc) + amt a" "b' = put_account_mut b j (acc\<lparr>balance := bal\<rparr>)"
    by (rule add_bal_Inr [OF assms(1)])
  then show ?thesis
    using sound_batchD [OF acc(1) assms(2)] assms(2,3) by (simp add: sound_account_def sound_batch_put)
qed

lemma add_bal_covers:
  assumes "add_bal X db b j a = (Inr b' :: 'e fail + _)" "covers X db b i p"
    and "amt (balance p') \<le> amt (balance p) + (if j = i then amt a else 0)"
  shows "covers X db b' i p'"
  using assms(1)
proof (rule add_bal_Inr)
  fix acc bal
  assume acc: "(batch_account X db b j :: 'e fail + account option) = Inr (Some acc)"
    "amt bal = amt (balance acc) + amt a" "b' = put_account_mut b j (acc\<lparr>balance := bal\<rparr>)"
  show ?thesis
  proof (cases "j = i")
    case True
    then show ?thesis using coversD [OF assms(2)] acc assms(3) by (fastforce simp: covers_put)
  next
    case False
    then show ?thesis using assms(2,3) acc(3) by (auto simp: covers_put) (auto simp: covers_def)
  qed
qed

text \<open>A debit the pending view can pay leaves the index sound.\<close>

lemma sub_bal_sound:
  assumes "sub_bal X db b j a = (Inr b' :: 'e fail + _)" "sound_batch X db b" "covers X db b j p"
    and "amt a \<le> amt (balance p)"
  shows "sound_batch X db b'"
proof -
  obtain acc bal where acc: "(batch_account X db b j :: 'e fail + account option) = Inr (Some acc)"
    "amt bal = amt (balance acc) - amt a" "b' = put_account_mut b j (acc\<lparr>balance := bal\<rparr>)"
    by (rule sub_bal_Inr [OF assms(1)])
  then show ?thesis
    using sound_batchD [OF acc(1) assms(2)] coversD [OF assms(3) acc(1)] assms(2,4)
    by (simp add: sound_account_def sound_batch_put)
qed

lemma sub_bal_covers:
  assumes "sub_bal X db b j a = (Inr b' :: 'e fail + _)" "covers X db b i p"
    and "amt (balance p') = amt (balance p) - (if j = i then amt a else 0)"
  shows "covers X db b' i p'"
  using assms(1)
proof (rule sub_bal_Inr)
  fix acc bal
  assume acc: "(batch_account X db b j :: 'e fail + account option) = Inr (Some acc)"
    "amt bal = amt (balance acc) - amt a" "b' = put_account_mut b j (acc\<lparr>balance := bal\<rparr>)"
  show ?thesis
  proof (cases "j = i")
    case True
    then show ?thesis using coversD [OF assms(2)] acc assms(3) by (fastforce simp: covers_put)
  next
    case False
    then show ?thesis using assms(2,3) acc(3) by (auto simp: covers_put) (auto simp: covers_def)
  qed
qed

section \<open>The log of a transfer\<close>

text \<open>Amounts a log hands out are not negative.\<close>

definition pays :: "log_entry \<Rightarrow> bool" where
  "pays e = (case e of LogTransfer _ a \<Rightarrow> 0 \<le> amt a | LogDestroy _ \<Rightarrow> True)"

lemma index_log_entry_sound:
  assumes "index_log_entry X db j b e = (Inr b' :: 'e fail + _)" "sound_batch X db b" "pays e"
  shows "sound_batch X db b'"
    and "covers X db b i p \<Longrightarrow> apply_log_entry i j e p = Some p' \<Longrightarrow> covers X db b' i p'"
proof -
  have "sound_batch X db b' \<and> (covers X db b i p \<longrightarrow> apply_log_entry i j e p = Some p' \<longrightarrow> covers X db b' i p')"
  proof (cases e)
    case (LogTransfer to a)
    then have a: "add_bal X db b to a = (Inr b' :: 'e fail + _)" "0 \<le> amt a"
      using assms(1,3) by (simp_all add: index_log_entry_def pays_def)
    then show ?thesis
      using add_bal_sound [OF a(1) assms(2) a(2)] add_bal_covers [OF a(1), of i p p']
      by (auto simp: LogTransfer Asset_checked_add_iff split: if_splits)
  next
    case (LogDestroy to)
    then obtain acc b1 where g: "get_account_mut X db b j = (Inr (acc, b1) :: 'e fail + _)"
      "add_bal X db (put_account_mut b1 j (acc\<lparr>destroyed := True, balance := Asset 0\<rparr>)) to (balance acc) =
        (Inr b' :: 'e fail + _)"
      using assms(1) by (auto simp: index_log_entry_def fallible_iffs Let_def)
    let ?b = "put_account_mut b j (acc\<lparr>destroyed := True, balance := Asset 0\<rparr>)"
    have acc: "(batch_account X db b j :: 'e fail + account option) = Inr (Some acc)"
      and "put_account_mut b1 j = put_account_mut b j"
      using g(1) by (auto simp: get_account_mut_eq fun_eq_iff split: sum.splits option.splits if_splits)
    then have a: "add_bal X db ?b to (balance acc) = (Inr b' :: 'e fail + _)" using g(2) by simp
    have acc_ok: "sound_account acc" by (rule sound_batchD [OF acc assms(2)])
    then have z: "0 \<le> amt (balance acc)" "amt (Asset 0) = 0" "sound_batch X db ?b"
      using assms(2) by (simp_all add: sound_account_def amt_def sound_batch_put)
    show ?thesis
    proof (intro conjI impI)
      show "sound_batch X db b'" by (rule add_bal_sound [OF a z(3,1)])
      assume p: "covers X db b i p" "apply_log_entry i j e p = Some p'"
      then have "covers X db ?b i p'" using z(2) by (auto simp: LogDestroy covers_put split: if_splits)
      then show "covers X db b' i p'" by (rule add_bal_covers [OF a]) (use z(1) in simp)
    qed
  qed
  then show "sound_batch X db b'" "covers X db b i p \<Longrightarrow> apply_log_entry i j e p = Some p' \<Longrightarrow> covers X db b' i p'"
    by blast+
qed

lemma index_log_sound:
  assumes "index_log X db j es b = (Inr b' :: 'e fail + _)" "sound_batch X db b" "list_all pays es"
  shows "sound_batch X db b'"
    and "covers X db b i p \<Longrightarrow> apply_log i j es p = Some p' \<Longrightarrow> covers X db b' i p'"
proof -
  have "sound_batch X db b' \<and> (covers X db b i p \<longrightarrow> apply_log i j es p = Some p' \<longrightarrow> covers X db b' i p')"
    using assms
  proof (induction es arbitrary: b p)
    case (Cons e es)
    obtain b1 where b1: "index_log_entry X db j b e = (Inr b1 :: 'e fail + _)"
      "index_log X db j es b1 = (Inr b' :: 'e fail + _)"
      using Cons.prems(1) by (auto simp: fallible_iffs)
    have e: "pays e" "list_all pays es" using Cons.prems(3) by simp_all
    note s = index_log_entry_sound [OF b1(1) Cons.prems(2) e(1)]
    show ?case using Cons.IH [OF b1(2) s(1) e(2)] s(2) by (auto simp: bind_eq_Some_conv)
  qed auto
  then show "sound_batch X db b'" "covers X db b i p \<Longrightarrow> apply_log i j es p = Some p' \<Longrightarrow> covers X db b' i p'"
    by blast+
qed

section \<open>Receipts\<close>

definition covering :: "'db ext \<Rightarrow> 'db \<Rightarrow> receipt list \<Rightarrow> write_batch \<Rightarrow> bool" where
  "covering X db rs b \<longleftrightarrow>
     (\<forall>i a p. (idx_get_account X db i :: unit fail + account option) = Inr (Some a) \<longrightarrow> apply_receipts i rs a = Some p \<longrightarrow>
       covers X db b i p)"

lemma covering_account:
  assumes "covering X (bc_db c) rs b" "get_account X c i rs = (Inr (Some p) :: 'e fail + _)"
  shows "covers X (bc_db c) b i p"
proof -
  obtain a where "idx_get_account X (bc_db c) i = (Inr (Some a) :: 'e fail + _)" "apply_receipts i rs a = Some p"
    using assms(2) by (auto simp: get_account_def and_then_some_Some_iff)
  then show ?thesis using assms(1) by (auto simp: covering_def dest: idx_get_account_retype [where 'f = unit])
qed

lemma apply_receipts_append:
  "apply_receipts i (rs @ rs') a = Option.bind (apply_receipts i rs a) (apply_receipts i rs')"
proof (induction rs arbitrary: a)
  case (Cons r rs)
  then show ?case by (cases "apply_receipt i r a") simp_all
qed simp

lemma covering_snoc:
  assumes "covering X db rs b"
    and "\<And>i a p p'. (idx_get_account X db i :: unit fail + account option) = Inr (Some a) \<Longrightarrow> covers X db b i p \<Longrightarrow>
      apply_receipt i r p = Some p' \<Longrightarrow> covers X db b' i p'"
  shows "covering X db (rs @ [r]) b'"
  unfolding covering_def
proof (intro allI impI)
  fix i a p'
  assume a: "(idx_get_account X db i :: unit fail + account option) = Inr (Some a)"
    "apply_receipts i (rs @ [r]) a = Some p'"
  then obtain p where p: "apply_receipts i rs a = Some p" "apply_receipt i r p = Some p'"
    by (auto simp: apply_receipts_append bind_eq_Some_conv)
  have "covers X db b i p" using assms(1) a(1) p(1) by (auto simp: covering_def)
  then show "covers X db b' i p'" using a(1) p(2) by (intro assms(2))
qed

lemma sub_two_Some:
  "sub_two p x y = Some p' \<Longrightarrow> amt (balance p') = amt (balance p) - amt x - amt y"
  by (auto simp: sub_two_def bind_eq_Some_conv Asset_checked_sub_iff)

lemma index_receipt_sound:
  assumes "index_receipt X (bc_db c) b r = (Inr b' :: 'e fail + _)" "sound_batch X (bc_db c) b"
    and "covering X (bc_db c) before b" "affordable X c before r" "list_all pays (rc_log r)"
    and "list_all (\<lambda>i. (idx_get_account X (bc_db c) i :: unit fail + account option) = Inr None) (created r)"
  shows "sound_batch X (bc_db c) b' \<and> covering X (bc_db c) (before @ [r]) b'"
proof -
  obtain v where v: "rc_tx r = TxV0 v" by (cases "rc_tx r")
  note [simp] = v index_receipt_def affordable_def
  note look = covering_account [OF assms(3)]
  show ?thesis
  proof (cases v)
    case (OwnerTx t)
    then have "batch_account X (bc_db c) b' = (batch_account X (bc_db c) b :: account_id \<Rightarrow> unit fail + _)"
      using assms(1) by (auto simp: fun_eq_iff dest!: set_owner_Inr)
    then show ?thesis
      using assms(2,3) OwnerTx by (auto simp: sound_batch_def covers_def apply_receipt_def intro!: covering_snoc [OF assms(3)])
  next
    case (MintTx t)
    then obtain b1 where "add_token_supply X (bc_db c) b (mint_amount t) = (Inr b1 :: 'e fail + _)"
      and a: "add_bal X (bc_db c) b1 (mint_to t) (mint_amount t) = (Inr b' :: 'e fail + _)" "0 \<le> amt (mint_amount t)"
      using assms(1,4) by (auto simp: fallible_iffs)
    then have b1: "batch_account X (bc_db c) b1 = (batch_account X (bc_db c) b :: account_id \<Rightarrow> unit fail + _)"
      by (auto simp: add_token_supply_eq fallible_iffs fun_eq_iff)
    then have "sound_batch X (bc_db c) b1" "\<And>i p. covers X (bc_db c) b1 i p = covers X (bc_db c) b i p"
      using assms(2) by (simp_all add: sound_batch_def covers_def)
    then show ?thesis
      using add_bal_sound [OF a(1) _ a(2)] MintTx
      by (auto simp: apply_receipt_def Asset_checked_add_iff split: if_splits
          intro!: covering_snoc [OF assms(3)] add_bal_covers [OF a(1)])
  next
    case (CreateAccountTx t)
    let ?n = "ca_account t"
    obtain tot b1 where s: "amt tot = amt (fee (ca_base t)) + amt (balance ?n)"
      "sub_bal X (bc_db c) b (creator t) tot = (Inr b1 :: 'e fail + _)" "b' = put_account_mut b1 (acc_id ?n) ?n"
      using assms(1) CreateAccountTx by (auto simp: fallible_iffs insert_account_eq Asset_checked_add_iff)
    obtain p where p: "get_account X c (creator t) before = (Inr (Some p) :: tx_err fail + _)"
      "amt tot \<le> amt (balance p)" "sound_account ?n"
      using assms(4) CreateAccountTx s(1) by (auto simp: sound_account_def)
    have "sound_batch X (bc_db c) b1" by (rule sub_bal_sound [OF s(2) assms(2) look [OF p(1)] p(2)])
    moreover have "covers X (bc_db c) b' i q'"
      if "(idx_get_account X (bc_db c) i :: unit fail + account option) = Inr (Some a)" "covers X (bc_db c) b i q"
        "apply_receipt i r q = Some q'" for i a q q'
    proof -
      have "i \<noteq> acc_id ?n" using that(1) assms(6) CreateAccountTx by (auto simp: created_def)
      moreover have "amt (balance q') = amt (balance q) - (if creator t = i then amt tot else 0)"
        using that(3) CreateAccountTx s(1) by (auto simp: apply_receipt_def dest: sub_two_Some split: if_splits)
      ultimately show ?thesis using sub_bal_covers [OF s(2) that(2)] by (simp add: s(3) covers_put)
    qed
    ultimately show ?thesis using p(3) by (simp add: s(3) sound_batch_put covering_snoc [OF assms(3)])
  next
    case (UpdateAccountTx t)
    let ?i = "ua_account_id t"
    obtain acc b1 bal where u: "get_account_mut X (bc_db c) b ?i = (Inr (acc, b1) :: 'e fail + _)"
      "amt bal = amt (balance acc) - amt (fee (ua_base t))"
      "b' = put_account_mut b1 ?i (apply_update t (acc\<lparr>balance := bal\<rparr>))"
      using assms(1) UpdateAccountTx by (auto simp: fallible_iffs Asset_checked_sub_iff)
    then have acc: "(batch_account X (bc_db c) b ?i :: 'e fail + account option) = Inr (Some acc)"
      and b': "b' = put_account_mut b ?i (apply_update t (acc\<lparr>balance := bal\<rparr>))"
      by (auto simp: get_account_mut_eq split: sum.splits option.splits if_splits)
    obtain p where p: "get_account X c ?i before = (Inr (Some p) :: tx_err fail + _)"
      "amt (fee (ua_base t)) \<le> amt (balance p)" "\<And>scr. new_script t = Some scr \<Longrightarrow> length scr \<le> 2048"
      using assms(4) UpdateAccountTx by auto
    have "sound_account (apply_update t (acc\<lparr>balance := bal\<rparr>))"
      using sound_batchD [OF acc assms(2)] coversD [OF look [OF p(1)] acc] p(2,3) u(2)
      by (auto simp: sound_account_def apply_update_def Let_def split: option.splits)
    moreover have "covers X (bc_db c) b' i q'" if "covers X (bc_db c) b i q" "apply_receipt i r q = Some q'" for i q q'
    proof -
      have "amt (balance q') = amt (balance q) - (if ?i = i then amt (fee (ua_base t)) else 0)"
        using that(2) UpdateAccountTx
        by (auto simp: apply_receipt_def Asset_checked_sub_iff bind_eq_Some_conv split: if_splits option.splits)
      then show ?thesis
        using that(1) coversD [OF that(1)] acc u(2) by (auto simp: b' covers_put) (auto simp: covers_def)
    qed
    ultimately show ?thesis using assms(2) by (simp add: b' sound_batch_put covering_snoc [OF assms(3)])
  next
    case (TransferTx t)
    obtain tot b1 where s: "amt tot = amt (fee (tr_base t)) + amt (tr_amount t)"
      "sub_bal X (bc_db c) b (tr_from t) tot = (Inr b1 :: 'e fail + _)"
      "index_log X (bc_db c) (tr_from t) (rc_log r) b1 = (Inr b' :: 'e fail + _)"
      using assms(1) TransferTx by (auto simp: fallible_iffs Asset_checked_add_iff)
    obtain p where p: "get_account X c (tr_from t) before = (Inr (Some p) :: tx_err fail + _)" "amt tot \<le> amt (balance p)"
      using assms(4) TransferTx s(1) by auto
    have s1: "sound_batch X (bc_db c) b1" by (rule sub_bal_sound [OF s(2) assms(2) look [OF p(1)] p(2)])
    note l = index_log_sound [OF s(3) s1 assms(5)]
    have "covers X (bc_db c) b' i q'" if q: "covers X (bc_db c) b i q" "apply_receipt i r q = Some q'" for i q q'
    proof -
      obtain q1 where q1: "(if tr_from t = i then sub_two q (fee (tr_base t)) (tr_amount t) else Some q) = Some q1"
        "apply_log i (tr_from t) (rc_log r) q1 = Some q'"
        using q(2) TransferTx by (auto simp: apply_receipt_def bind_eq_Some_conv)
      have "amt (balance q1) = amt (balance q) - (if tr_from t = i then amt tot else 0)"
        using q1(1) s(1) by (auto dest: sub_two_Some split: if_splits)
      from l(2) [OF sub_bal_covers [OF s(2) q(1) this] q1(2)] show ?thesis .
    qed
    then show ?thesis using l(1) by (simp add: covering_snoc [OF assms(3)])
  qed
qed

text \<open>All receipts of a block: the chain verifies each behind those in front of it, as they are indexed.\<close>

definition paying :: "receipt \<Rightarrow> bool" where
  "paying r \<longleftrightarrow> list_all pays (rc_log r)"

lemma verify_receipts_Cons:
  assumes "verify_receipts X c before (r # rs) = Inr ()" "bigint_ok X"
  shows "affordable X c before r" "verify_receipts X c (before @ [r]) rs = Inr ()"
    and "list_all (\<lambda>i. (idx_get_account X (bc_db c) i :: unit fail + account option) = Inr None) (created r)"
proof -
  let ?data = "TxPrecompData_from_tx X (rc_tx r)"
  obtain log where e: "execute_tx X c ?data before = Inr log"
    using assms(1) by (auto simp: fallible_iffs)
  have d: "rc_tx r = pd_tx ?data" by (simp add: TxPrecompData_from_tx_def)
  show "affordable X c before r" by (rule execute_tx_affordable [OF e d assms(2)])
  show "verify_receipts X c (before @ [r]) rs = Inr ()" using assms(1) by (simp add: e)
  show "list_all (\<lambda>i. (idx_get_account X (bc_db c) i :: unit fail + account option) = Inr None) (created r)"
    using execute_create_fresh [OF e d] by (auto simp: list_all_iff account_exists_def idx_get_account_def)
qed

lemma verified_receipts_sound:
  assumes "verify_receipts X c before rs = Inr ()" "index_receipts X (bc_db c) rs b = (Inr b' :: 'e fail + _)"
    and "sound_batch X (bc_db c) b" "covering X (bc_db c) before b" "list_all paying rs" "bigint_ok X"
  shows "sound_batch X (bc_db c) b'"
  using assms
proof (induction rs arbitrary: before b)
  case (Cons r rs)
  obtain b1 where b1: "index_receipt X (bc_db c) b r = (Inr b1 :: 'e fail + _)"
    "index_receipts X (bc_db c) rs b1 = (Inr b' :: 'e fail + _)"
    using Cons.prems(2) by (auto simp: fallible_iffs)
  note v = verify_receipts_Cons [OF Cons.prems(1,6)]
  have p: "list_all pays (rc_log r)" "list_all paying rs" using Cons.prems(5) by (simp_all add: paying_def [abs_def])
  from index_receipt_sound [OF b1(1) Cons.prems(3,4) v(1) p(1) v(3)] show ?case
    using Cons.IH [OF v(2) b1(2) _ _ p(2) Cons.prems(6)] by blast
qed simp

lemma affordable_fee: "affordable X c before r \<Longrightarrow> 0 \<le> receipt_fee r"
  by (auto simp: affordable_def receipt_fee_def split: tx_variant.splits tx_variant_v0.splits)

lemma verified_fees: "verify_receipts X c before rs = Inr () \<Longrightarrow> bigint_ok X \<Longrightarrow> 0 \<le> sum_list (map receipt_fee rs)"
proof (induction rs arbitrary: before)
  case (Cons r rs)
  note v = verify_receipts_Cons [OF Cons.prems]
  show ?case using affordable_fee [OF v(1)] Cons.IH [OF v(2) Cons.prems(2)] by simp
qed simp

section \<open>Blocks\<close>

definition sound_index :: "'db ext \<Rightarrow> 'db \<Rightarrow> bool" where
  "sound_index X db \<longleftrightarrow>
     (\<forall>i acc. (idx_get_account X db i :: unit fail + account option) = Inr (Some acc) \<longrightarrow> sound_account acc)"

lemma insert_block_sound:
  assumes "chain_repr X c bs" "insert_block X c b = Inr c'" "db_ok X" "storable b" "room X c b"
    and "list_all paying (Block_receipts b)"
    and "amt (Block_rewards b) = sum_list (map receipt_fee (Block_receipts b))"
    and "sound_index X (bc_db c)" "bigint_ok X"
  shows "sound_index X (bc_db c')"
proof -
  obtain prev where "verify_block X c b prev = Inr ()"
    using assms(2) by (auto simp: insert_block_def fallible_iffs)
  then have vr: "verify_receipts X c [] (Block_receipts b) = Inr ()" by (rule verify_block_Inr)
  have "\<exists>batch. index_block X c WriteBatch_new b = (Inr batch :: block_err fail + _) \<and> wf_batch batch \<and>
      (\<forall>i. idx_get_account X (bc_db c') i = (batch_account X (bc_db c) batch i :: unit fail + _)) \<and>
      get_token_supply X (bc_db c') = (batch_supply X (bc_db c) batch :: unit fail + _) \<and>
      (get_owner X (bc_db c') :: unit fail + _) =
        (case wb_owner batch of Some t \<Rightarrow> Inr (Some t) | None \<Rightarrow> get_owner X (bc_db c))"
    by (rule insert_block_repr(3) [OF assms(1-5)])
  then obtain batch where ib: "index_block X c WriteBatch_new b = (Inr batch :: block_err fail + _)"
    and acc: "\<And>i. idx_get_account X (bc_db c') i = (batch_account X (bc_db c) batch i :: unit fail + _)" by blast
  obtain b1 ow where b1: "index_receipts X (bc_db c) (Block_receipts b) WriteBatch_new = (Inr b1 :: block_err fail + _)"
    "add_bal X (bc_db c) b1 (wallet ow) (Block_rewards b) = (Inr batch :: block_err fail + _)"
    "(case wb_owner b1 of Some t \<Rightarrow> Inr t | None \<Rightarrow> chain_get_owner X c) = (Inr (TxV0 (OwnerTx ow)) :: block_err fail + _)"
    using ib by (rule index_block_Inr)
  have new: "batch_account X (bc_db c) WriteBatch_new i = (idx_get_account X (bc_db c) i :: unit fail + _)" for i
    by (simp add: batch_account_def WriteBatch_new_def)
  have "sound_batch X (bc_db c) WriteBatch_new" "covering X (bc_db c) [] WriteBatch_new"
    using assms(8) by (auto simp: sound_batch_def sound_index_def covering_def covers_def new)
  from verified_receipts_sound [OF vr b1(1) this assms(6,9)] have "sound_batch X (bc_db c) b1" .
  then have "sound_batch X (bc_db c) batch"
    by (rule add_bal_sound [OF b1(2)]) (simp add: assms(7) verified_fees [OF vr assms(9)])
  then show ?thesis by (simp add: sound_index_def sound_batch_def acc)
qed

section \<open>The node\<close>

definition solvent :: "'db ext \<Rightarrow> 'db minter \<Rightarrow> bool" where
  "solvent X m \<longleftrightarrow> sound_index X (bc_db (rp_chain (mt_pool m))) \<and> list_all paying (rp_receipts (mt_pool m))"

lemma same_reads_sound: "same_reads X c c' \<Longrightarrow> sound_index X (bc_db c') = sound_index X (bc_db c)"
  by (simp add: sound_index_def same_reads_index)

lemma execute_tx_paying:
  assumes "execute_tx X c data rs = Inr log"
  shows "list_all pays log"
proof -
  obtain v where v: "pd_tx data = TxV0 v" by (cases "pd_tx data")
  show ?thesis
  proof (cases v)
    case (TransferTx t)
    then obtain scr where s: "0 \<le> amt (tr_amount t)" "run_script X c scr data rs = Inr log"
      using assms v by (auto simp: execute_tx_def execute_transfer_tx_def fallible_iffs check_Inr split: if_splits)
    then have "eval X \<lparr>ed_script = scr, ed_tx_data = data, ed_chain = c, ed_receipts = rs\<rparr> = Inr log"
      by (simp add: run_script_def map_err_Inr_iff)
    from eval_transfer [OF this, of t] s(1) v TransferTx show ?thesis
      by (auto simp: sound_log_def pays_def sound_entry_def list_all_iff split: log_entry.splits)
  qed (use assms v in \<open>auto simp: execute_tx_def execute_owner_tx_def execute_mint_tx_def execute_create_account_tx_def
      execute_update_account_tx_def Let_def fallible_iffs split: if_splits\<close>)
qed

lemma push_executes:
  assumes "minter_push_tx X now m t = Inr m'" "db_ok X" "pool_ok X (mt_pool m)"
  obtains log where "execute_tx X (rp_chain (mt_pool m)) (TxPrecompData_from_tx X t) (rp_receipts (mt_pool m)) = Inr log"
    "rp_receipts (mt_pool m') = rp_receipts (mt_pool m) @ [\<lparr>rc_tx = t, rc_log = log\<rparr>]"
    "same_reads X (rp_chain (mt_pool m)) (rp_chain (mt_pool m'))"
proof -
  obtain p where p: "pool_push X now (mt_pool m) (TxPrecompData_from_tx X t) = Inr p" "m' = m\<lparr>mt_pool := p\<rparr>"
    using assms(1) by (auto simp: minter_push_tx_def fallible_iffs)
  obtain log where "execute_tx X (rp_chain (mt_pool m)) (TxPrecompData_from_tx X t) (rp_receipts (mt_pool m)) = Inr log"
    "rp_receipts p = rp_receipts (mt_pool m) @ [\<lparr>rc_tx = t, rc_log = log\<rparr>]"
    using p(1) by (auto simp: pool_push_def Let_def fallible_iffs TxPrecompData_from_tx_def split: if_splits)
  then show ?thesis using that pool_push_ok(2) [OF assms(2,3) p(1)] p(2) by simp
qed

lemma node_step_solvent:
  assumes "node_step X m m'" "node_ok X m bs" "solvent X m" "db_ok X" "sign_ok X" "wf_key_pair X (mt_key m)" "bigint_ok X"
  shows "solvent X m'"
  using assms(1)
proof cases
  case (push now t)
  have "pool_ok X (mt_pool m)" using assms(2) by (simp add: node_ok_def)
  then obtain log where l: "execute_tx X (rp_chain (mt_pool m)) (TxPrecompData_from_tx X t) (rp_receipts (mt_pool m)) = Inr log"
    "rp_receipts (mt_pool m') = rp_receipts (mt_pool m) @ [\<lparr>rc_tx = t, rc_log = log\<rparr>]"
    "same_reads X (rp_chain (mt_pool m)) (rp_chain (mt_pool m'))"
    by (rule push_executes [OF push assms(4)])
  show ?thesis
    using assms(3) execute_tx_paying [OF l(1)] by (simp add: solvent_def same_reads_sound [OF l(3)] l(2) paying_def)
next
  case (produce now child_time force r)
  from produce(1) show ?thesis
  proof (cases rule: produce_cases)
    case (failed e)
    then show ?thesis using assms(3) by simp
  next
    case (dropped rcs p)
    note f = pool_flush_Inr [OF dropped(1) assms(4)]
    show ?thesis using assms(3) by (simp add: solvent_def dropped(2) f(2) same_reads_sound [OF f(3)])
  next
    case (inserted rcs p hd b c)
    note f = pool_flush_Inr [OF inserted(1) assms(4)]
    let ?b = "Block_sign X b (mt_key m)"
    note l = new_child_link [OF inserted(3) assms(6,5)]
    have repr: "chain_repr X (rp_chain p) bs" using assms(2) chain_repr_same_reads [OF f(3)] by (simp add: node_ok_def)
    have st: "storable ?b" "room X (rp_chain p) ?b"
      using produce(2) inserted(5) room_same_reads [OF f(3)] by simp_all
    have "list_all paying (Block_receipts ?b)" using assms(3) unfolding l(2) f(1) by (simp add: solvent_def)
    moreover have "amt (Block_rewards ?b) = sum_list (map receipt_fee (Block_receipts ?b))" using l(2,3) by simp
    moreover have "sound_index X (bc_db (rp_chain p))" using assms(3) by (simp add: solvent_def same_reads_sound [OF f(3)])
    ultimately have "sound_index X (bc_db c)"
      using insert_block_sound [OF repr inserted(4) assms(4) st _ _ _ assms(7)] by blast
    then show ?thesis by (simp add: solvent_def inserted(6) f(2))
  qed
qed

lemma node_steps_solvent:
  assumes "(node_step X)\<^sup>*\<^sup>* m m'" "node_ok X m bs" "solvent X m" "db_ok X" "sign_ok X" "wf_key_pair X (mt_key m)"
    and "bigint_ok X"
  shows "solvent X m'"
  using assms(1)
proof (induction rule: rtranclp_induct)
  case (step m1 m2)
  then show ?case
    using node_steps_ok [OF step(1) assms(2,4-6)] node_step_solvent [OF step(2) _ step(3) assms(4,5) _ assms(7)] assms(6) by auto
qed (rule assms(3))

text \<open>Every balance lies between nothing and the token supply.\<close>

lemma solvent_bounds:
  assumes "solvent X m" "node_ok X m bs" "idx_get_account X (bc_db (rp_chain (mt_pool m))) i = (Inr (Some acc) :: 'e fail + _)"
  shows "0 \<le> amt (balance acc) \<and> amt (balance acc) \<le> index_supply X (bc_db (rp_chain (mt_pool m))) \<and>
    length (acc_script acc) \<le> 2048"
proof -
  let ?db = "bc_db (rp_chain (mt_pool m))"
  have i: "(idx_get_account X ?db i :: unit fail + _) = Inr (Some acc)" using assms(3) by (rule idx_get_account_retype)
  have s: "sound_index X ?db" using assms(1) by (simp add: solvent_def)
  have b: "batch_bal X ?db WriteBatch_new j = view_bal (idx_get_account X ?db j)" for j
    by (simp add: batch_bal_def batch_account_def WriteBatch_new_def)
  have "0 \<le> batch_bal X ?db WriteBatch_new j" for j
    using s by (auto simp: b view_bal_def sound_index_def sound_account_def split: sum.splits option.splits)
  then have "batch_bal X ?db WriteBatch_new i \<le> index_total X ?db"
    unfolding index_total_def total_bal_def total_of_def by (intro member_le_sum) simp_all
  then show ?thesis using assms(2) s i by (simp add: b view_bal_def node_ok_def sound_index_def sound_account_def)
qed

lemma first_start_solvent:
  assumes "start X now seeds opts db [] = (Inr sv :: 'e fail + ('db, 'a, 'c) server)" "\<And>cf k. db_get X db cf k = None"
    and "db_ok X" "sign_ok X" "sha256_ok X" "wf_key_pair X (so_minter_key opts)"
    and "length seeds = 4" "list_all (\<lambda>s. length s = SEEDBYTES) seeds"
  shows "solvent X (sv_minter sv)"
proof -
  obtain c c1 info where g: "empty_node X c" "create_genesis_block X now seeds c (so_minter_key opts) = (Inr (c1, info) :: 'e fail + _)"
    "Minter_new X c1 (so_minter_key opts) (so_enable_stale_production opts) = (Inr (sv_minter sv) :: 'e fail + _)"
    and fits: "storable (genesis_block X now info)" "length (disk_record X (genesis_block X now info)) < 2 ^ 64"
    "wf_account (genesis_owner_wallet info)" "wf_tx (genesis_owner_tx now info)"
    by (rule first_start [OF assms])
  have "sound_account (genesis_owner_wallet info)"
    using genesis_info(4) [OF g(2) assms(7,8)] by (simp add: sound_account_def genesis_owner_wallet_def)
  then show ?thesis
    using create_genesis_repr(3) [OF g(2,1) assms(3) fits, where 'f = unit]
    by (simp add: solvent_def Minter_new_Inr [OF g(3)] sound_index_def)
qed

end
