(* ===== verification/Script_Steps.thy ===== *)
theory Script_Steps
  imports Engine
begin

text \<open>
  The main loop of the engine as single steps: an operation is decoded and executed and the loop goes on.
  Every step moves the position on, so a run takes at most as many steps as bytes are left.
\<close>

inductive loop_step :: "'db ext \<Rightarrow> 'db engine_data \<Rightarrow> run_state \<Rightarrow> run_state \<Rightarrow> bool"
  for X :: "'db ext" and d :: "'db engine_data"
where
  step: "consume_op (ed_script d) (eg_pos (rs_engine rs)) = Inr (Some op, pos) \<Longrightarrow>
    exec_op X d op (set_pos rs pos) = Inr (Continue rs') \<Longrightarrow> loop_step X d rs rs'"

inductive_cases loop_stepE: "loop_step X d rs rs'"

definition bytes_left :: "'db engine_data \<Rightarrow> run_state \<Rightarrow> nat" where
  "bytes_left d rs = length (ed_script d) - eg_pos (rs_engine rs)"

lemma loop_step_left:
  assumes "loop_step X d rs rs'"
  shows "bytes_left d rs' < bytes_left d rs"
proof -
  obtain op pos where 1: "consume_op (ed_script d) (eg_pos (rs_engine rs)) = Inr (Some op, pos)"
    "exec_op X d op (set_pos rs pos) = Inr (Continue rs')"
    using assms by (rule loop_stepE)
  have "length (ed_script d) - pos < bytes_left d rs"
    using consume_op_measure [OF 1(1)] by (simp add: bytes_left_def)
  moreover have "pos \<le> eg_pos (rs_engine rs')"
    using exec_op_moves [OF 1(2)] by (simp add: moves_def)
  ultimately show ?thesis by (simp add: bytes_left_def)
qed

lemma loop_step_run: "loop_step X d rs rs' \<Longrightarrow> run_loop X d rs = run_loop X d rs'"
  by (erule loop_stepE) (subst run_loop.simps, simp)

lemma loop_step_deterministic: "loop_step X d rs a \<Longrightarrow> loop_step X d rs b \<Longrightarrow> a = b"
  by (auto elim!: loop_stepE)

lemma run_loop_halts:
  "\<exists>n rs'. n \<le> bytes_left d rs \<and> (loop_step X d ^^ n) rs rs' \<and> (\<nexists>rs''. loop_step X d rs' rs'') \<and>
    run_loop X d rs = run_loop X d rs'"
proof (induction "bytes_left d rs" arbitrary: rs rule: less_induct)
  case less
  show ?case
  proof (cases "\<exists>rs1. loop_step X d rs rs1")
    case False
    then show ?thesis by (intro exI [of _ 0] exI [of _ rs]) simp
  next
    case True
    then obtain rs1 where s: "loop_step X d rs rs1" by blast
    from less [OF loop_step_left [OF s]] obtain n rs' where n: "n \<le> bytes_left d rs1" "(loop_step X d ^^ n) rs1 rs'"
      "\<nexists>rs''. loop_step X d rs' rs''" "run_loop X d rs1 = run_loop X d rs'"
      by blast
    have "(loop_step X d ^^ Suc n) rs rs'" using s n(2) by (rule relpowp_Suc_I2)
    moreover have "Suc n \<le> bytes_left d rs" using n(1) loop_step_left [OF s] by simp
    ultimately show ?thesis using n(3,4) loop_step_run [OF s] by metis
  qed
qed

end
