(* ===== verification/Block_Bounds.thy ===== *)
theory Block_Bounds
  imports Solvency Script_Steps Server
begin

text \<open>
  Whatever arrives over the network, the receipts a node pools and the blocks it makes fit their
  encoding: a script writes at most one log entry per byte, scripts are bounded, and a transaction that
  was decoded fits its fields.  So every block a node makes is read back from its bytes.
\<close>

section \<open>The length of a log\<close>

lemma exec_op_log:
  assumes "exec_op X d op rs = Inr fl"
  shows "length (eg_log (rs_engine (flow_state fl))) \<le> Suc (length (eg_log (rs_engine rs)))"
proof (cases "op = OpTransfer \<or> op = OpDestroy")
  case True
  then show ?thesis
    using assms by (auto simp: with_engine_Inr fallible_iffs elim!: exec_transfer_Inr exec_destroy_Inr)
qed (use exec_op_other [OF assms] in \<open>simp add: same_money_def\<close>)

lemma loop_step_log:
  assumes "loop_step X d rs rs'"
  shows "length (eg_log (rs_engine rs')) \<le> Suc (length (eg_log (rs_engine rs)))"
  using assms by (auto elim!: loop_stepE dest!: exec_op_log)

lemma loop_steps_log:
  "(loop_step X d ^^ n) rs rs' \<Longrightarrow> length (eg_log (rs_engine rs')) \<le> length (eg_log (rs_engine rs)) + n"
  by (induction n arbitrary: rs') (fastforce dest: loop_step_log)+

lemma run_loop_log:
  assumes "run_loop X d rs = Inr rs'"
  shows "length (eg_log (rs_engine rs')) \<le> length (eg_log (rs_engine rs)) + Suc (bytes_left d rs)"
proof -
  obtain n rs1 where n: "n \<le> bytes_left d rs" "(loop_step X d ^^ n) rs rs1" "\<nexists>rs''. loop_step X d rs1 rs''"
    "run_loop X d rs1 = Inr rs'"
    using run_loop_halts [of d rs X] assms by auto
  have last: "length (eg_log (rs_engine rs2)) \<le> Suc (length (eg_log (rs_engine rs1)))"
    if "exec_op X d op (set_pos rs1 pos) = Inr (Break rs2)" for op pos rs2
    using exec_op_log [OF that] by simp
  have stuck: False if "consume_op (ed_script d) (eg_pos (rs_engine rs1)) = Inr (Some op, pos)"
    "exec_op X d op (set_pos rs1 pos) = Inr (Continue rs2)" for op pos rs2
    using loop_step.step [OF that] n(3) by blast
  have "length (eg_log (rs_engine rs')) \<le> Suc (length (eg_log (rs_engine rs1)))"
    using n(4) by (subst (asm) run_loop.simps) (auto dest: last stuck split: sum.splits option.splits flow.splits)
  then show ?thesis using loop_steps_log [OF n(2)] n(1) by simp
qed

lemma eval_log_length:
  assumes "eval X d = Inr log" "pd_tx (ed_tx_data d) = TxV0 (TransferTx t)"
  shows "length log \<le> length (ed_script d) + 2"
proof -
  obtain eg rs where e: "enter_fn d (ScriptEngine_new d) (call_fn t) = Inr eg"
    "run_loop X d \<lparr>rs_engine = eg, rs_if_marker = 0, rs_ignore_else = False\<rparr> = Inr rs" "finish d rs = Inr log"
    using assms by (auto simp: eval_def call_function_def Let_def fallible_iffs)
  have "eg_log eg = []" using enter_fn_same [OF e(1)] by (simp add: same_money_def ScriptEngine_new_def Let_def)
  then have "length (eg_log (rs_engine rs)) \<le> Suc (length (ed_script d))"
    using run_loop_log [OF e(2)] by (simp add: bytes_left_def)
  then show ?thesis by (simp add: finish_Inr [OF e(3) assms(2)] refund_def)
qed

section \<open>Scripts behind pending receipts\<close>

lemma apply_log_script: "apply_log i j es acc = Some acc' \<Longrightarrow> acc_script acc' = acc_script acc"
proof (induction es arbitrary: acc)
  case (Cons e es)
  then show ?case by (cases e) (auto simp: bind_eq_Some_conv split: if_splits)
qed simp

lemma apply_receipt_script:
  assumes "apply_receipt i r p = Some p'" "affordable X c before r" "length (acc_script p) \<le> 2048"
  shows "length (acc_script p') \<le> 2048"
proof -
  obtain v where v: "rc_tx r = TxV0 v" by (cases "rc_tx r")
  then show ?thesis
    using assms
    by (cases v) (auto simp: apply_receipt_def affordable_def bind_eq_Some_conv sub_two_def
        split: if_splits option.splits dest!: apply_log_script)
qed

lemma verified_script:
  "verify_receipts X c before rs = Inr () \<Longrightarrow> bigint_ok X \<Longrightarrow> apply_receipts i rs p = Some p' \<Longrightarrow>
    length (acc_script p) \<le> 2048 \<Longrightarrow> length (acc_script p') \<le> 2048"
proof (induction rs arbitrary: before p)
  case (Cons r rs)
  note v = verify_receipts_Cons [OF Cons.prems(1,2)]
  obtain p1 where "apply_receipt i r p = Some p1" "apply_receipts i rs p1 = Some p'"
    using Cons.prems(3) by (auto simp: bind_eq_Some_conv)
  then show ?case
    using Cons.IH [OF v(2) Cons.prems(2)] apply_receipt_script [OF _ v(1)] Cons.prems(4) by blast
qed simp

lemma executed_log_length:
  assumes "execute_tx X c data rs = Inr log" "verify_receipts X c [] rs = Inr ()" "bigint_ok X" "sound_index X (bc_db c)"
  shows "length log \<le> 2050"
proof -
  obtain v where v: "pd_tx data = TxV0 v" by (cases "pd_tx data")
  show ?thesis
  proof (cases v)
    case (TransferTx t)
    then obtain info where i: "get_account_info X c (tr_from t) rs = (Inr (Some info) :: tx_err fail + _)"
      "run_script X c (acc_script (ai_account info)) data rs = Inr log"
      using assms(1) v by (auto simp: execute_tx_def execute_transfer_tx_def some_or_def fallible_iffs split: if_splits)
    then have e: "eval X \<lparr>ed_script = acc_script (ai_account info), ed_tx_data = data, ed_chain = c, ed_receipts = rs\<rparr> = Inr log"
      by (simp add: run_script_def map_err_Inr_iff)
    obtain a where a: "idx_get_account X (bc_db c) (tr_from t) = (Inr (Some a) :: tx_err fail + _)"
      "apply_receipts (tr_from t) rs a = Some (ai_account info)"
      using account_info_account [OF i(1)] by (auto simp: get_account_def and_then_some_Some_iff)
    have "sound_account a" using assms(4) a(1) by (auto simp: sound_index_def dest: idx_get_account_retype [where 'f = unit])
    then have "length (acc_script (ai_account info)) \<le> 2048"
      using verified_script [OF assms(2,3) a(2)] by (simp add: sound_account_def)
    then show ?thesis using eval_log_length [OF e] v TransferTx by fastforce
  qed (use assms(1) v in \<open>auto simp: execute_tx_def execute_owner_tx_def execute_mint_tx_def execute_create_account_tx_def
      execute_update_account_tx_def Let_def fallible_iffs split: if_splits\<close>)
qed

section \<open>The pool holds well-formed receipts\<close>

definition pool_wf :: "'db minter \<Rightarrow> bool" where
  "pool_wf m \<longleftrightarrow> list_all wf_receipt (rp_receipts (mt_pool m))"

lemma push_wf:
  assumes "minter_push_tx X now m t = Inr m'" "wf_tx t" "pool_wf m" "node_ok X m bs" "solvent X m" "bigint_ok X" "db_ok X"
  shows "pool_wf m'"
proof -
  have p: "pool_ok X (mt_pool m)" using assms(4) by (simp add: node_ok_def)
  obtain log where l: "execute_tx X (rp_chain (mt_pool m)) (TxPrecompData_from_tx X t) (rp_receipts (mt_pool m)) = Inr log"
    "rp_receipts (mt_pool m') = rp_receipts (mt_pool m) @ [\<lparr>rc_tx = t, rc_log = log\<rparr>]"
    by (rule push_executes [OF assms(1,7) p])
  have "length log \<le> 2050"
    by (rule executed_log_length [OF l(1)]) (use p assms(5,6) in \<open>simp_all add: pool_ok_def solvent_def\<close>)
  then show ?thesis using assms(2,3) by (simp add: pool_wf_def l(2) wf_receipt_def)
qed

lemma produce_pool:
  "produce X now child_time force m = (r, m') \<Longrightarrow> db_ok X \<Longrightarrow> pool_wf m \<Longrightarrow> pool_wf m'"
  by (erule produce_cases) (simp_all add: pool_wf_def pool_flush_Inr)

section \<open>From the network\<close>

text \<open>A message changes the minter only by a transaction it carries, which fits its encoding.\<close>

lemma handle_rpc_request_minter:
  assumes "handle_rpc_request X now data state req = Inr r"
  shows "sv_minter (hd_data r) = sv_minter data \<or>
    (\<exists>t. req = ReqBroadcast t \<and> minter_push_tx X now (sv_minter data) t = Inr (sv_minter (hd_data r)))"
proof (cases req)
  case (ReqGetBlockRange lo hi)
  obtain rg where "r = (case rg of
         Some rg0 \<Rightarrow>
           let rg = (case wc_filter state of
               Some f \<Rightarrow> block_range_set_filter (Some f) rg0 | None \<Rightarrow> rg0)
           in (no_reply data state)\<lparr>hd_spawned := Some rg\<rparr>
       | None \<Rightarrow> reply data state (BodyError InvalidHeight))"
    using assms unfolding ReqGetBlockRange handle_rpc_request.simps and_then_Inr_iff by blast
  then show ?thesis by (cases rg) (simp_all add: reply_def no_reply_def Let_def)
qed (use assms in \<open>auto simp: reply_def fallible_iffs split: sum.splits fail.splits if_splits\<close>)

lemma handle_protocol_msg_minter:
  assumes "handle_protocol_msg X now data state m = Inr r" "wf_msg m"
  shows "sv_minter (hd_data r) = sv_minter data \<or>
    (\<exists>t. wf_tx t \<and> minter_push_tx X now (sv_minter data) t = Inr (sv_minter (hd_data r)))"
proof (cases "msg_body m")
  case (BodyRequest req)
  then show ?thesis
    using handle_rpc_request_minter [of X now data state req r] assms by (auto simp: handle_protocol_msg_def wf_msg_def)
qed (use assms(1) in \<open>auto simp: handle_protocol_msg_def reply_def no_reply_def\<close>)

lemma process_ws_msg_minter:
  assumes "process_ws_msg X now data state m = Inr r"
  shows "sv_minter (ps_data r) = sv_minter data \<or>
    (\<exists>t. wf_tx t \<and> minter_push_tx X now (sv_minter data) t = Inr (sv_minter (ps_data r)))"
proof (cases m)
  case (WsBinary buf)
  show ?thesis
  proof (cases "\<exists>msg. Msg_deserialize buf = Inr (msg, [])")
    case True
    then obtain msg where d: "Msg_deserialize buf = Inr (msg, [])" by blast
    then obtain h where "handle_protocol_msg X now data (state\<lparr>wc_needs_pong := False\<rparr>) msg = Inr h" "ps_data r = hd_data h"
      using assms by (auto simp: WsBinary Let_def fallible_iffs)
    then show ?thesis using handle_protocol_msg_minter msg_codec.io_dec_wf [OF d] by metis
  qed (use assms in \<open>auto simp: WsBinary Let_def fallible_iffs split: sum.splits if_splits\<close>)
qed (use assms in auto)

lemma net_step_pool:
  assumes "net_step X n n'" "pool_wf (sv_minter (nt_server n))" "node_ok X (sv_minter (nt_server n)) bs"
    and "solvent X (sv_minter (nt_server n))" "db_ok X" "bigint_ok X"
  shows "pool_wf (sv_minter (nt_server n'))"
  using assms(1)
proof cases
  case (receive addr cl now m r)
  then show ?thesis using process_ws_msg_minter [OF receive(3)] push_wf [OF _ _ assms(2-4,6,5)] assms(2) by auto
next
  case (mint now child_time force r sv)
  obtain out m where p: "produce X now child_time force (sv_minter (nt_server n)) = (out, m)"
    by (cases "produce X now child_time force (sv_minter (nt_server n))")
  have "sv_minter sv = m"
    using mint(2) p by (auto simp: produce_and_broadcast_def split: sum.splits option.splits)
  then show ?thesis using produce_pool [OF p assms(5,2)] mint(1) by simp
qed (use assms(2) in simp_all)

lemma net_steps_pool:
  assumes "(net_step X)\<^sup>*\<^sup>* n n'" "pool_wf (sv_minter (nt_server n))" "node_ok X (sv_minter (nt_server n)) bs"
    and "solvent X (sv_minter (nt_server n))" "db_ok X" "sign_ok X" "wf_key_pair X (mt_key (sv_minter (nt_server n)))" "bigint_ok X"
  shows "pool_wf (sv_minter (nt_server n'))"
  using assms(1)
proof (induction rule: rtranclp_induct)
  case (step n1 n2)
  note run = net_steps_node [OF step(1)]
  obtain bs1 where "node_ok X (sv_minter (nt_server n1)) bs1" using node_steps_ok [OF run assms(3,5-7)] by blast
  moreover have "solvent X (sv_minter (nt_server n1))" by (rule node_steps_solvent [OF run assms(3-8)])
  ultimately show ?case using net_step_pool [OF step(2,3)] assms(5,8) by blast
qed (rule assms(2))

section \<open>The blocks of a node\<close>

lemma receipts_length:
  assumes "length (block_bytes b) < 2 ^ 32" "Block_signer b \<noteq> None"
  shows "length (Block_receipts b) < 2 ^ 32"
proof -
  have one: "1 \<le> length (Receipt_serialize r)" for r by (simp add: Receipt_serialize_def)
  have many: "length rs \<le> length (concat (map Receipt_serialize rs))" for rs
  proof (induction rs)
    case (Cons r rs)
    then show ?case using one [of r] by simp
  qed simp
  obtain v where v: "b = BlockV0 v" by (cases b)
  then have "length (concat (map Receipt_serialize (receipts v))) \<le> length (block_bytes b)"
    using assms(2) by (auto simp: block_bytes_def block_accessors)
  then show ?thesis using assms(1) many [of "receipts v"] by (simp add: v block_accessors)
qed

lemma new_child_wf:
  assumes "new_child X now prev rcs = (Inr b :: 'e fail + _)" "sha256_ok X"
  shows "wf_header (Block_header b)" "Block_receipts b = rcs"
  using assms(1) wf_double_sha256 [OF assms(2)]
  by (auto simp: new_child_def fallible_iffs block_accessors BlockV0_calc_header_hash_def calc_receipt_root_eq [OF assms(2)])

lemma produced_block_wf:
  assumes "produce X now child_time force m = (Inr (Some b), m')" "pool_wf m" "length (block_bytes b) < 2 ^ 32"
    and "db_ok X" "sign_ok X" "sha256_ok X" "wf_key_pair X (mt_key m)"
  shows "wf_block b"
  using assms(1)
proof (cases rule: produce_cases)
  case (inserted rcs p hd b0 c)
  let ?b = "Block_sign X b0 (mt_key m)"
  have b: "b = ?b" using inserted(5) by simp
  note l = new_child_link [OF inserted(3) assms(7,5)]
  have "wf_header (Block_header b0)" by (rule new_child_wf(1) [OF inserted(3) assms(6)])
  moreover have "list_all wf_receipt (Block_receipts ?b)"
    using assms(2) unfolding l(2) pool_flush_Inr(1) [OF inserted(1) assms(4)] by (simp add: pool_wf_def)
  moreover have "length (Block_receipts ?b) < 2 ^ 32"
    using receipts_length [of ?b] assms(3) l(4) unfolding b by (simp del: Block_sign_accessors)
  ultimately show ?thesis using assms(5,7) by (simp add: b wf_Block_sign)
qed auto

end
