(* ===== verification/Sample_Mint.thy ===== *)
theory Sample_Mint
  imports Sample_Start Block_Bounds
begin

text \<open>
  The sample run goes on: the node turns the pooled mint of five tokens into its second block.
\<close>

section \<open>The pool is flushed\<close>

lemma purge_batch_total: "\<forall>kv \<in> set kvs. length (snd kv) = 8 \<Longrightarrow> \<exists>ops. purge_batch now kvs = (Inr ops :: 'e fail + _)"
  by (induction kvs) (auto simp: u64_from_slice_def and_then_def)

lemma chain1_no_txids: "db_get sample (bc_db chain1) CF_TX_EXPIRY k = None"
proof -
  have "db_iter sample (bc_db chain1) CF_TX_EXPIRY = []" by code_simp
  then show ?thesis using db_iter_iff [OF sample_db_ok, of k _ "bc_db chain1" CF_TX_EXPIRY] by (metis empty_iff empty_set option.exhaust)
qed

lemma minter2_pool:
  "rp_receipts (mt_pool minter2) = [mint_receipt]" "same_reads sample chain1 (rp_chain (mt_pool minter2))"
proof -
  have "pool_ok sample (mt_pool minter1)" using minter1_ok(1) by (simp add: node_ok_def)
  then obtain log where l: "execute_tx sample chain1 (TxPrecompData_from_tx sample mint_tx1) [] = Inr log"
    "rp_receipts (mt_pool minter2) = [\<lparr>rc_tx = mint_tx1, rc_log = log\<rparr>]"
    "same_reads sample chain1 (rp_chain (mt_pool minter2))"
    using push_executes [OF push_run_ok sample_db_ok] minter1_parts by (metis append_Nil)
  moreover from l(1) have "log = []"
    by (auto simp: execute_tx_def TxPrecompData_from_tx_def mint_tx1_def append_sign_def execute_mint_tx_def fallible_iffs
        split: if_splits)
  ultimately show "rp_receipts (mt_pool minter2) = [mint_receipt]" "same_reads sample chain1 (rp_chain (mt_pool minter2))"
    by (simp_all add: mint_receipt_def)
qed

lemma mint_flush:
  obtains p where "pool_flush sample 2500 (mt_pool minter2) = (Inr ([mint_receipt], p) :: block_err fail + _)"
    "same_reads sample chain1 (rp_chain p)"
proof -
  have "bc_db (rp_chain (mt_pool minter2)) = insert_txid sample (bc_db chain1) (calc_txid sample mint_tx1) (tx_expiry mint_tx1)"
    using push_cases(3) [OF push_run_ok] by (simp add: minter1_parts)
  then have v: "length v = 8" if "db_get sample (bc_db (rp_chain (mt_pool minter2))) CF_TX_EXPIRY k = Some v" for k v
    using that by (auto simp: insert_txid_def db_get_write [OF sample_db_ok] chain1_no_txids split: if_splits)
  have "\<forall>kv \<in> set (db_iter sample (bc_db (rp_chain (mt_pool minter2))) CF_TX_EXPIRY). length (snd kv) = 8"
    by (auto simp: db_iter_iff [OF sample_db_ok] v)
  from purge_batch_total [OF this] obtain ops where "purge_batch (2500 - TX_EXPIRY_ADJUSTMENT) (db_iter sample (bc_db (rp_chain (mt_pool minter2))) CF_TX_EXPIRY) =
      (Inr ops :: block_err fail + _)"
    by blast
  then obtain p where f: "pool_flush sample 2500 (mt_pool minter2) = (Inr ([mint_receipt], p) :: block_err fail + _)"
    by (auto simp: pool_flush_def Let_def purge_expired_txids_def minter2_pool(1))
  then show ?thesis
    using that same_reads_trans [OF minter2_pool(2) pool_flush_Inr(3) [OF f sample_db_ok]] by blast
qed

section \<open>The block\<close>

definition mint_child :: "block_err fail + block" where
  "mint_child = new_child sample 2500 (block_v0 genesis1) [mint_receipt]"

definition mint_block :: block where "mint_block = Block_sign sample (projr mint_child) minter_key"

lemma mint_child_ok: "new_child sample 2500 (block_v0 genesis1) [mint_receipt] = (Inr (projr mint_child) :: block_err fail + block)"
  by (simp add: mint_child_def new_child_def and_then_def mint_receipt_def mint_tx1_def append_sign_def Asset_default_def
      Asset_checked_add_def int_checked_add_def checked_def fits_def ok_or_def unwrap_def)

lemma mint_block_length: "length (block_bytes mint_block) < 2000"
  by code_simp

lemma mint_block_link:
  "Block_receipts mint_block = [mint_receipt]" "amt (Block_rewards mint_block) = 0"
  using new_child_link(2,3) [OF mint_child_ok wf_minter_key sample_sign_ok]
  by (simp_all add: mint_block_def receipt_fee_def mint_receipt_def mint_tx1_def append_sign_def amt_def)

lemma mint_index:
  assumes "same_reads sample chain1 c"
  shows "\<exists>batch. index_block sample c WriteBatch_new mint_block = (Inr batch :: block_err fail + _) \<and>
    batch_account sample (bc_db c) batch 0 = (Inr (Some (genesis_owner_wallet info1\<lparr>balance := Asset 500000\<rparr>)) :: unit fail + _) \<and>
    batch_supply sample (bc_db c) batch = (Inr (Asset 500000) :: unit fail + _) \<and> wb_owner batch = None"
proof -
  have r: "(idx_get_account sample (bc_db c) 0 :: block_err fail + _) = Inr (Some (genesis_owner_wallet info1))"
    "(get_token_supply sample (bc_db c) :: block_err fail + _) = Inr Asset_default"
    "chain_get_owner sample c = (Inr (TxV0 (OwnerTx \<lparr>own_base = genesis_base 1000, minter = kp_public minter_key, wallet = 0\<rparr>)) :: block_err fail + _)"
    using chain1_wallet create_genesis_repr(4) [OF genesis1_facts, where 'f = block_err] chain1_owner
    by (simp_all add: chain_get_owner_def flip: same_reads_index [OF assms])
  let ?w = "genesis_owner_wallet info1"
  let ?b = "put_account_mut (WriteBatch_new\<lparr>wb_token_supply := Some (Asset 500000)\<rparr>) 0 (?w\<lparr>balance := Asset 500000\<rparr>)"
  have s: "Asset_checked_add (Asset 0) (Asset 500000) = Some (Asset 500000)" "Asset_checked_add (Asset 500000) (Asset 0) = Some (Asset 500000)"
    by (simp_all add: Asset_checked_add_iff amt_def)
  have w: "balance ?w = Asset 0" by (simp add: genesis_owner_wallet_def Asset_default_def)
  have rew: "Block_rewards mint_block = Asset 0"
    using mint_block_link(2) by (simp add: amt_def flip: amt_inject)
  have "add_token_supply sample (bc_db c) WriteBatch_new (Asset 500000) =
      (Inr (WriteBatch_new\<lparr>wb_token_supply := Some (Asset 500000)\<rparr>) :: block_err fail + _)"
    by (simp add: add_token_supply_eq r(2) Asset_default_def s)
  moreover have "batch_account sample (bc_db c) (WriteBatch_new\<lparr>wb_token_supply := Some (Asset 500000)\<rparr>) 0 =
      (Inr (Some ?w) :: block_err fail + _)"
    by (simp add: batch_account_def WriteBatch_new_def r(1))
  ultimately have "index_receipt sample (bc_db c) WriteBatch_new mint_receipt = (Inr ?b :: block_err fail + _)"
    by (simp add: index_receipt_def mint_receipt_def mint_tx1_def append_sign_def add_bal_eq w s)
  moreover have "wb_owner ?b = None" by (simp add: WriteBatch_new_def)
  ultimately show ?thesis
    by (simp add: index_block_def mint_block_link(1) r(3) rew add_bal_eq s batch_supply_def)
qed

lemma mint_receipt_wf: "wf_receipt mint_receipt"
proof -
  have "wf_sig_pair (TxVariant_sign sample t (keypair_of n))" for t n
    by (simp add: TxVariant_sign_def wf_KeyPair_sign [OF sample_sign_ok wf_keypair_of])
  then show ?thesis
    by (simp add: wf_receipt_def mint_receipt_def mint_tx1_def append_sign_def wf_body_def wf_sigs_def wf_bytes_def)
qed

lemma mint_block_storable: "storable mint_block"
proof -
  have "wf_block mint_block"
    unfolding mint_block_def
    by (intro wf_Block_sign sample_sign_ok wf_minter_key)
      (simp_all add: new_child_wf [OF mint_child_ok sample_sha256_ok] mint_receipt_wf)
  then show ?thesis using mint_block_length by (simp add: storable_def)
qed

section \<open>The run\<close>

lemma mint_produced:
  obtains c m where "produce sample 2500 2500 True minter2 = (Inr (Some mint_block), m)" "node_step sample minter2 m"
    "chain_repr sample (rp_chain (mt_pool m)) [genesis1, mint_block]"
    "idx_get_account sample (bc_db (rp_chain (mt_pool m))) 0 =
      (Inr (Some (genesis_owner_wallet info1\<lparr>balance := Asset 500000\<rparr>)) :: unit fail + _)"
    "index_supply sample (bc_db (rp_chain (mt_pool m))) = 500000"
    "get_owner sample (bc_db (rp_chain (mt_pool m))) = (get_owner sample (bc_db chain1) :: unit fail + _)"
    "same_reads sample chain1 c" "room sample c mint_block" "insert_block sample c mint_block = Inr (rp_chain (mt_pool m))"
proof -
  obtain p where p: "pool_flush sample 2500 (mt_pool minter2) = (Inr ([mint_receipt], p) :: block_err fail + _)"
    "same_reads sample chain1 (rp_chain p)"
    by (rule mint_flush)
  obtain batch where ix: "index_block sample (rp_chain p) WriteBatch_new mint_block = (Inr batch :: block_err fail + _)"
    and at: "batch_account sample (bc_db (rp_chain p)) batch 0 =
      (Inr (Some (genesis_owner_wallet info1\<lparr>balance := Asset 500000\<rparr>)) :: unit fail + _)"
    "batch_supply sample (bc_db (rp_chain p)) batch = (Inr (Asset 500000) :: unit fail + _)" "wb_owner batch = None"
    using mint_index [OF p(2)] by blast
  have ok: "chain_repr sample (rp_chain (mt_pool minter2)) [genesis1]" "pool_ok sample (mt_pool minter2)"
    using minter1_ok node_step_ok [OF node_step.push [OF push_run_ok] minter1_ok(1) sample_db_ok sample_sign_ok]
      chain_repr_same_reads [OF minter2_pool(2) chain1_repr] wf_minter_key
    by (auto simp: node_ok_def)
  have room: "room sample chain1 mint_block"
    using mint_block_length by (simp add: room_def chain1_parts disk_record_def disk_meta_eq)
  have key: "mt_key minter2 = minter_key"
    using node_step_ok [OF node_step.push [OF push_run_ok] minter1_ok(1) sample_db_ok sample_sign_ok] minter1_ok(2) wf_minter_key by simp
  obtain chain where c: "produce sample 2500 2500 True minter2 =
      (Inr (Some mint_block), minter2\<lparr>mt_pool := p\<lparr>rp_chain := chain\<rparr>\<rparr>)"
    "chain_repr sample chain ([genesis1] @ [mint_block])"
    using produce_inserts [OF sample_db_ok sample_sign_ok _ ok(2,1) sample_owner [unfolded genesis_owner_tx_def] _ p(1), of True 2500 "projr mint_child" batch]
      mint_child_ok ix mint_block_storable room room_same_reads [OF p(2)] wf_minter_key info1_eq
    unfolding key mint_block_def [symmetric] by auto
  have "node_step sample minter2 (minter2\<lparr>mt_pool := p\<lparr>rp_chain := chain\<rparr>\<rparr>)"
    by (rule node_step.produce [OF c(1)])
      (use mint_block_storable room room_same_reads [OF minter2_pool(2)] in auto)
  moreover have ins: "insert_block sample (rp_chain p) mint_block = Inr chain"
    using c(1) by (cases rule: produce_cases) (use p(1) in \<open>auto dest!: arg_cong [where f = "\<lambda>m. rp_chain (mt_pool m)"]\<close>)
  have "\<exists>batch. index_block sample (rp_chain p) WriteBatch_new mint_block = (Inr batch :: block_err fail + _) \<and> wf_batch batch \<and>
      (\<forall>i. idx_get_account sample (bc_db chain) i = (batch_account sample (bc_db (rp_chain p)) batch i :: unit fail + _)) \<and>
      get_token_supply sample (bc_db chain) = (batch_supply sample (bc_db (rp_chain p)) batch :: unit fail + _) \<and>
      (get_owner sample (bc_db chain) :: unit fail + _) =
        (case wb_owner batch of Some t \<Rightarrow> Inr (Some t) | None \<Rightarrow> get_owner sample (bc_db (rp_chain p)))"
    by (rule insert_block_repr(3) [OF chain_repr_same_reads [OF p(2) chain1_repr] ins sample_db_ok mint_block_storable])
      (use room room_same_reads [OF p(2)] in simp)
  then have "idx_get_account sample (bc_db chain) 0 = (Inr (Some (genesis_owner_wallet info1\<lparr>balance := Asset 500000\<rparr>)) :: unit fail + _)"
    "index_supply sample (bc_db chain) = 500000"
    "get_owner sample (bc_db chain) = (get_owner sample (bc_db chain1) :: unit fail + _)"
    using ix at by (auto simp: index_supply_def amt_def same_reads_index(2) [OF p(2)])
  ultimately show ?thesis using that [OF c(1)] c(2) ins p(2) room room_same_reads [OF p(2)] by simp
qed

definition minter3 :: "sample_db minter" where
  "minter3 = snd (produce sample 2500 2500 True minter2)"

lemma minter3_produced: "produce sample 2500 2500 True minter2 = (Inr (Some mint_block), minter3)"
  by (rule mint_produced) (simp add: minter3_def)

lemma minter3_step: "node_step sample minter2 minter3"
  by (rule mint_produced) (simp add: minter3_produced)

lemma minter3_chain: "chain_repr sample (rp_chain (mt_pool minter3)) [genesis1, mint_block]"
  by (rule mint_produced) (simp add: minter3_produced)

lemma minter3_wallet:
  "idx_get_account sample (bc_db (rp_chain (mt_pool minter3))) 0 =
    (Inr (Some (genesis_owner_wallet info1\<lparr>balance := Asset 500000\<rparr>)) :: unit fail + _)"
  by (rule mint_produced) (simp add: minter3_produced)

lemma minter3_supply: "index_supply sample (bc_db (rp_chain (mt_pool minter3))) = 500000"
  by (rule mint_produced) (simp add: minter3_produced)

lemma get_owner_retype: "get_owner X db = (Inr r :: 'e fail + _) \<Longrightarrow> get_owner X db = (Inr r :: 'f fail + _)"
  by (auto simp: get_owner_def fallible_iffs split: option.splits if_splits)

lemma minter3_owner:
  "chain_get_owner sample (rp_chain (mt_pool minter3)) =
    (Inr (TxV0 (OwnerTx \<lparr>own_base = genesis_base 1000, minter = kp_public minter_key, wallet = 0\<rparr>)) :: block_err fail + _)"
proof -
  have "get_owner sample (bc_db (rp_chain (mt_pool minter3))) = (get_owner sample (bc_db chain1) :: unit fail + _)"
    by (rule mint_produced) (simp add: minter3_produced)
  then have o: "get_owner sample (bc_db (rp_chain (mt_pool minter3))) = (Inr (Some (genesis_owner_tx 1000 info1)) :: unit fail + _)"
    by (simp add: create_genesis_repr(2) [OF genesis1_facts])
  show ?thesis
    using get_owner_retype [OF o, where 'f = block_err] info1_eq by (simp add: chain_get_owner_def genesis_owner_tx_def)
qed

lemma minter3_inserted:
  "\<exists>c. same_reads sample chain1 c \<and> room sample c mint_block \<and>
    insert_block sample c mint_block = Inr (rp_chain (mt_pool minter3))"
  by (rule mint_produced) (auto simp: minter3_produced)

lemma minter3_run: "(node_step sample)\<^sup>*\<^sup>* (sv_minter server1) minter3"
  using sample_run minter3_step by (rule rtranclp.rtrancl_into_rtrancl)

section \<open>A mint to a missing account\<close>

text \<open>A mint that names no account is accepted all the same, and indexing its receipt panics.\<close>

definition lost_mint :: tx_variant where
  "lost_mint = append_sign sample (append_sign sample
     (TxV0 (MintTx \<lparr>mint_base = \<lparr>nonce = 1, expiry = 3000, fee = Asset 0, signature_pairs = []\<rparr>,
        mint_to = 99, mint_amount = Asset 500000, attachment = [], attachment_name = []\<rparr>))
     (keypair_of 1)) (keypair_of 3)"

definition lost_push :: "tx_err fail + sample_db minter" where
  "lost_push = minter_push_tx sample 2000 minter1 lost_mint"

lemma mint_to_missing_account:
  obtains m log where "minter_push_tx sample 2000 minter1 lost_mint = Inr m"
    "rp_receipts (mt_pool m) = [\<lparr>rc_tx = lost_mint, rc_log = log\<rparr>]"
    "index_receipts sample (bc_db chain1) (rp_receipts (mt_pool m)) WriteBatch_new = (Inl Panic :: block_err fail + _)"
proof -
  have "\<not> isl lost_push" by code_simp
  from not_isl_projr [OF this] have p: "minter_push_tx sample 2000 minter1 lost_mint = Inr (projr lost_push)"
    by (simp add: lost_push_def)
  have "pool_ok sample (mt_pool minter1)" using minter1_ok(1) by (simp add: node_ok_def)
  then obtain log where l: "rp_receipts (mt_pool (projr lost_push)) = [\<lparr>rc_tx = lost_mint, rc_log = log\<rparr>]"
    using push_executes [OF p sample_db_ok] minter1_parts by (metis append_Nil)
  have "gi_owner_id info1 = 0" using info1_eq by simp
  then have "(idx_get_account sample (bc_db chain1) 99 :: block_err fail + _) = Inr None"
    "(get_token_supply sample (bc_db chain1) :: block_err fail + _) = Inr Asset_default"
    using create_genesis_repr(3,4) [OF genesis1_facts, where 'f = block_err] by simp_all
  then have "index_receipt sample (bc_db chain1) WriteBatch_new \<lparr>rc_tx = lost_mint, rc_log = log\<rparr> = (Inl Panic :: block_err fail + _)"
    by (simp add: index_receipt_def lost_mint_def append_sign_def add_bal_eq add_token_supply_eq batch_supply_def
        Asset_default_def Asset_checked_add_def int_checked_add_def checked_def fits_def batch_account_def WriteBatch_new_def)
  then show ?thesis using that [OF p l] l by simp
qed

end
