(* ===== verification/Chain_Properties.thy ===== *)
theory Chain_Properties
  imports Sample_Mint
begin

text \<open>
  The properties of the chain, the pool, the minter and the server, each with an instance on the
  sample run.
\<close>

section \<open>The node\<close>

text \<open>C1: Every state a node that was started on nothing reaches by accepting transactions and producing
  blocks (when they have room in the log) stores a linked chain that starts with the genesis block of
  its minter, keeps the receipt pool consistent, and keeps the sum of all account balances equal to the
  token supply.\<close>

theorem node_run:
  assumes "start X now seeds opts db [] = (Inr sv :: 'e fail + ('db, 'a, 'c) server)" "\<And>cf k. db_get X db cf k = None"
    and "db_ok X" "sign_ok X" "sha256_ok X" "wf_key_pair X (so_minter_key opts)"
    and "length seeds = 4" "list_all (\<lambda>s. length s = SEEDBYTES) seeds"
    and "(node_step X)\<^sup>*\<^sup>* (sv_minter sv) m"
  shows "\<exists>info bs. gi_minter_key info = so_minter_key opts \<and>
    chain_repr X (rp_chain (mt_pool m)) (genesis_block X now info # bs) \<and>
    linked X (genesis_block X now info # bs) \<and> pool_ok X (mt_pool m) \<and>
    index_total X (bc_db (rp_chain (mt_pool m))) = index_supply X (bc_db (rp_chain (mt_pool m)))"
proof -
  obtain info where g: "gi_minter_key info = so_minter_key opts" "node_ok X (sv_minter sv) [genesis_block X now info]"
    "wf_key_pair X (mt_key (sv_minter sv))"
    by (rule first_start [OF assms(1-8)])
  from node_steps_ok [OF assms(9) g(2) assms(3,4) g(3)] g(1) show ?thesis
    by (auto simp: node_ok_def)
qed

theorem node_run_witness:
  "\<exists>info bs. gi_minter_key info = minter_key \<and>
    chain_repr sample (rp_chain (mt_pool minter3)) (genesis_block sample 1000 info # bs) \<and>
    linked sample (genesis_block sample 1000 info # bs) \<and> pool_ok sample (mt_pool minter3) \<and>
    index_total sample (bc_db (rp_chain (mt_pool minter3))) = 500000"
  using node_run [OF sample_first_start minter3_run] by (simp add: sample_opts_def minter3_supply)

text \<open>C2: No account is ever overdrawn: in every state a node that was started on nothing reaches by accepting
  transactions and producing blocks, the balance of each account in the index is not negative and at
  most the token supply, and its script keeps within the size limit.\<close>

theorem accounts_solvent:
  assumes "start X now seeds opts db [] = (Inr sv :: 'e fail + ('db, 'a, 'c) server)" "\<And>cf k. db_get X db cf k = None"
    and "db_ok X" "sign_ok X" "sha256_ok X" "wf_key_pair X (so_minter_key opts)"
    and "length seeds = 4" "list_all (\<lambda>s. length s = SEEDBYTES) seeds"
    and "bigint_ok X" "(node_step X)\<^sup>*\<^sup>* (sv_minter sv) m"
    and "idx_get_account X (bc_db (rp_chain (mt_pool m))) i = (Inr (Some acc) :: 'f fail + _)"
  shows "0 \<le> amt (balance acc) \<and> amt (balance acc) \<le> index_supply X (bc_db (rp_chain (mt_pool m))) \<and>
    length (acc_script acc) \<le> MAX_SCRIPT_BYTE_SIZE"
proof -
  obtain info where g: "node_ok X (sv_minter sv) [genesis_block X now info]" "wf_key_pair X (mt_key (sv_minter sv))"
    by (rule first_start [OF assms(1-8)])
  have "solvent X m"
    by (rule node_steps_solvent [OF assms(10) g(1) first_start_solvent [OF assms(1-8)] assms(3,4) g(2) assms(9)])
  moreover obtain bs where "node_ok X m bs" using node_steps_ok [OF assms(10) g(1) assms(3,4) g(2)] by blast
  ultimately show ?thesis using solvent_bounds [OF _ _ assms(11)] by (simp add: MAX_SCRIPT_BYTE_SIZE_def)
qed

theorem accounts_solvent_witness:
  "amt (Asset 500000) \<le> index_supply sample (bc_db (rp_chain (mt_pool minter3))) \<and> length (gi_script info1) \<le> MAX_SCRIPT_BYTE_SIZE"
  using accounts_solvent [OF sample_first_start sample_bigint_ok minter3_run minter3_wallet]
  by (simp add: genesis_owner_wallet_def)

text \<open>C8: The block a minter that holds the owner's key builds from its flushed pool, when its record fits the
  log, always passes the chain's own verification. Production gives nothing exactly when it is not
  forced, stale production is off and neither the flushed pool nor the head block has receipts; it fails
  with the error of building the block (fees that do not add up) or of indexing it (as a mint to a
  missing account gives), and otherwise the signed block is returned and stored as the new head.\<close>

theorem produced_block_accepted:
  assumes "db_ok X" "sign_ok X" "wf_key_pair X (mt_key m)" "pool_ok X (mt_pool m)"
    and "chain_repr X (rp_chain (mt_pool m)) bs"
    and "chain_get_owner X (rp_chain (mt_pool m)) = (Inr (TxV0 (OwnerTx ow)) :: block_err fail + _)"
      "minter ow = kp_public (mt_key m)"
    and "pool_flush X now (mt_pool m) = (Inr (rcs, p) :: block_err fail + _)"
    and "\<And>b. new_child X child_time (block_v0 (last bs)) rcs = (Inr b :: block_err fail + _) \<Longrightarrow>
      storable (Block_sign X b (mt_key m)) \<and> room X (rp_chain p) (Block_sign X b (mt_key m))"
  shows "if force \<or> mt_enable_stale m \<or> rcs \<noteq> [] \<or> Block_receipts (last bs) \<noteq> [] then
      (case new_child X child_time (block_v0 (last bs)) rcs of
         Inl e \<Rightarrow> produce X now child_time force m = (Inl e, m\<lparr>mt_pool := p\<rparr>)
       | Inr b \<Rightarrow>
           verify_block X (rp_chain p) (Block_sign X b (mt_key m)) (last bs) = Inr () \<and>
           (case index_block X (rp_chain p) WriteBatch_new (Block_sign X b (mt_key m)) of
              Inl e \<Rightarrow> produce X now child_time force m = (Inl e, m\<lparr>mt_pool := p\<rparr>)
            | Inr batch \<Rightarrow>
                \<exists>chain. produce X now child_time force m =
                  (Inr (Some (Block_sign X b (mt_key m))), m\<lparr>mt_pool := p\<lparr>rp_chain := chain\<rparr>\<rparr>) \<and>
                  chain_repr X chain (bs @ [Block_sign X b (mt_key m)])))
    else produce X now child_time force m = (Inr None, m\<lparr>mt_pool := p\<rparr>)"
  using assms by (rule produce_result)

theorem produced_block_accepted_witness:
  "\<exists>chain. produce sample 2500 2500 True minter1 =
     (Inr (Some block1), minter1\<lparr>mt_pool := (mt_pool minter1)\<lparr>rp_chain := chain\<rparr>\<rparr>) \<and>
     chain_repr sample chain [genesis1, block1]"
proof -
  have k: "block1 = Block_sign sample (projr child1) (mt_key minter1)"
    by (simp add: block1_def minter1_parts)
  note p = produced_block_accepted [OF sample_db_ok sample_sign_ok _ _ _ chain1_owner [folded minter1_parts(1)] _ flush1,
      of "[genesis1]" 2500 True]
  show ?thesis
    using p minter1_ok child1_ok index1_ok block1_storable block1_room wf_minter_key
    by (simp add: minter1_parts node_ok_def flip: block1_def k)
qed

text \<open>C5: A block the chain accepts is linked to the stored head and becomes the new head: the stored sequence
  grows by exactly that block, and the index answers for every account and for the supply what indexing
  the block computed.\<close>

theorem insert_block_appends:
  assumes "chain_repr X c bs" "insert_block X c b = Inr c'" "db_ok X" "storable b" "room X c b"
  shows "chain_repr X c' (bs @ [b]) \<and> link_ok X (last bs) b \<and>
    (\<exists>batch. index_block X c WriteBatch_new b = (Inr batch :: block_err fail + _) \<and>
      (\<forall>i. idx_get_account X (bc_db c') i = (batch_account X (bc_db c) batch i :: block_err fail + _)) \<and>
      get_token_supply X (bc_db c') = (batch_supply X (bc_db c) batch :: block_err fail + _))"
proof -
  have "\<exists>batch. index_block X c WriteBatch_new b = (Inr batch :: block_err fail + _) \<and> wf_batch batch \<and>
      (\<forall>i. idx_get_account X (bc_db c') i = (batch_account X (bc_db c) batch i :: block_err fail + _)) \<and>
      get_token_supply X (bc_db c') = (batch_supply X (bc_db c) batch :: block_err fail + _) \<and>
      (get_owner X (bc_db c') :: block_err fail + _) =
        (case wb_owner batch of Some t \<Rightarrow> Inr (Some t) | None \<Rightarrow> get_owner X (bc_db c))"
    by (rule insert_block_repr(3) [OF assms])
  then show ?thesis
    using insert_block_repr(1,2) [OF assms] by blast
qed

lemma block1_inserts: "\<exists>c'. insert_block sample chain1 block1 = Inr c'"
  by (rule insert_block_total [OF chain1_repr _ index1_ok sample_db_ok block1_storable block1_room])
    (simp add: block1_verifies)

theorem insert_block_appends_witness:
  "\<exists>c'. insert_block sample chain1 block1 = Inr c' \<and> chain_repr sample c' [genesis1, block1]"
proof -
  obtain c' where c: "insert_block sample chain1 block1 = Inr c'" using block1_inserts by blast
  from insert_block_appends [OF chain1_repr c sample_db_ok block1_storable block1_room] c show ?thesis by simp
qed

text \<open>C6: Inserting a block whose logs spend their transfers and whose rewards are its fees changes the sum of
  all balances and the token supply by exactly what the block mints.\<close>

theorem insert_block_conserves:
  assumes "chain_repr X c bs" "insert_block X c b = Inr c'" "db_ok X" "storable b" "room X c b"
    and "list_all log_matches (Block_receipts b)"
    and "amt (Block_rewards b) = sum_list (map receipt_fee (Block_receipts b))"
    and "supply_readable X (bc_db c)"
  shows "index_total X (bc_db c') = index_total X (bc_db c) + sum_list (map minted (Block_receipts b)) \<and>
    index_supply X (bc_db c') = index_supply X (bc_db c) + sum_list (map minted (Block_receipts b))"
  using insert_block_supply [OF assms] by blast

theorem insert_block_conserves_witness:
  "\<exists>c c'. insert_block sample c mint_block = Inr c' \<and> index_total sample (bc_db c') = index_total sample (bc_db c) + 500000"
proof -
  obtain c where c: "same_reads sample chain1 c" "room sample c mint_block"
    "insert_block sample c mint_block = Inr (rp_chain (mt_pool minter3))"
    using minter3_inserted by blast
  have "supply_readable sample (bc_db c)"
    using minter1_ok(1) same_reads_supply(3) [OF c(1)] by (simp add: node_ok_def minter1_parts)
  from insert_block_conserves [OF chain_repr_same_reads [OF c(1) chain1_repr] c(3) sample_db_ok mint_block_storable c(2) _ _ this]
  show ?thesis
    using c(3) mint_block_link
    by (auto simp: log_matches_def minted_def receipt_fee_def mint_receipt_def mint_tx1_def append_sign_def amt_def)
qed

text \<open>C28: On an empty node, genesis creation stores exactly the signed genesis block, and the index holds the
  owner transaction, the owner wallet as the only account, a zero supply and the complete status.\<close>

theorem genesis_state:
  assumes "create_genesis_block X now seeds c mk = (Inr (c', info) :: 'e fail + _)" "empty_node X c"
    and "db_ok X" "sign_ok X" "sha256_ok X" "wf_key_pair X mk"
    and "length seeds = 4" "list_all (\<lambda>s. length s = SEEDBYTES) seeds"
  shows "chain_repr X c' [genesis_block X now info] \<and>
    get_owner X (bc_db c') = (Inr (Some (genesis_owner_tx now info)) :: 'e fail + _) \<and>
    idx_get_account X (bc_db c') i =
      (Inr (if i = gi_owner_id info then Some (genesis_owner_wallet info) else None) :: 'e fail + _) \<and>
    get_token_supply X (bc_db c') = (Inr Asset_default :: 'e fail + _) \<and>
    get_index_status X (bc_db c') = (Inr StatusComplete :: 'e fail + _)"
  by (intro conjI create_genesis_repr [OF assms(1-3) genesis_fits [OF assms(1,4-8)]])

theorem genesis_state_witness:
  "idx_get_account sample (bc_db chain1) 7 = (Inr None :: unit fail + _) \<and>
   get_index_status sample (bc_db chain1) = (Inr StatusComplete :: unit fail + _)"
  using genesis_state [OF genesis_run_ok empty_chain_empty sample_db_ok sample_sign_ok sample_sha256_ok _ sample_seeds_ok, of 7]
    info1_eq by (simp add: minter_key_def wf_keypair_of)

section \<open>Reading the chain\<close>

text \<open>C26: The account fee is the minimum fee doubled once and once more per charged transaction of the
  account among the pending receipts and the last blocks up to a window of four blocks without one: 25 *
  2^n, where the counter n starts at one and is cut to 16 bits; it overflows when n exceeds 46.\<close>

theorem account_fee:
  assumes "chain_repr X c bs" "bigint_ok X"
    and "n = (1 + charge_count i pending + window_charges i 0 (rev bs)) mod 2 ^ 16"
  shows "get_account_fee X c i pending =
    (Inr (if n \<le> 46 then Some (Asset (25 * 2 ^ n)) else None) :: 'e fail + _)"
  by (rule get_account_fee_repr [OF assms])

theorem account_fee_witness: "get_account_fee sample chain1 0 [] = (Inr (Some (Asset 100)) :: unit fail + _)"
  using account_fee [OF chain1_repr sample_bigint_ok refl, of 0 "[]"] genesis1_charges by (simp add: charge_count_def)

text \<open>C27: The network fee is the minimum fee times the k-th power of 1.015, at five decimals, for k tens of
  receipts (one added) in the window of blocks that ends at the last height divisible by five and starts
  ten blocks before it, and overflows with the power.\<close>

theorem network_fee:
  assumes "chain_repr X c bs" "bigint_ok X"
    and "n = 1 + sum_list (map (length \<circ> Block_receipts) (fee_window bs))" "n < 2 ^ 64" "k = n div 10"
  shows "get_network_fee X c =
    (Inr (if 5 * k < 2 ^ 16 \<and> pow_spec 101500 k < 2 ^ 63 then Some (asset_int (25 * pow_spec 101500 k div 100000)) else None) ::
      'e fail + _)"
  using assms by (cases "k < 2 ^ 16") (simp_all add: get_network_fee_repr [OF assms(1,3,4)] scaled_net_fee)

theorem network_fee_witness: "get_network_fee sample chain1 = (Inr (Some (Asset 25)) :: unit fail + _)"
  using network_fee [OF chain1_repr sample_bigint_ok refl _ refl, where 'e = unit]
  by (simp add: fee_window_def genesis1_receipts pow_spec_def asset_int_def)

text \<open>C36: A filtered read returns the whole block when a receipt involves an account of the filter, the
  header and signer otherwise, and nothing above the chain height.\<close>

theorem filtered_block:
  assumes "chain_repr X c bs"
  shows "get_filtered_block X c h f =
    Inr (if unat h < length bs then Some (filtered (Some f) (bs ! unat h)) else None)"
  by (simp add: get_filtered_block_repr [OF assms] filtered_def Let_def)

theorem filtered_block_witness:
  "get_filtered_block sample chain1 0 {5} = Inr (Some (FilteredHeader (Block_header genesis1) (the (Block_signer genesis1)))) \<and>
   get_filtered_block sample chain1 1 {5} = Inr None"
  using filtered_block [OF chain1_repr, of 0 "{5}"] filtered_block [OF chain1_repr, of 1 "{5}"] info1_eq
  by (simp add: filtered_def genesis1_receipts involved_def genesis_create_tx_def genesis_owner_tx_def genesis_owner_wallet_def)

text \<open>C35: The stream of a block range ends and sends every block of the range once, in ascending order, each
  as the client's filter leaves it.\<close>

theorem range_complete:
  assumes "chain_repr X c bs" "unat (br_max r) < length bs" "br_max r \<noteq> - 1"
  shows "range_blocks X c r =
    Some (Inr (map (\<lambda>i. filtered (br_filter r) (bs ! i)) [unat (br_min r)..<Suc (unat (br_max r))]))"
  by (rule range_blocks_repr [OF assms])

theorem range_complete_witness:
  "range_blocks sample chain1 \<lparr>br_filter = None, br_min = 0, br_max = 0\<rparr> = Some (Inr [FilteredBlock genesis1])"
  using range_complete [OF chain1_repr, of "\<lparr>br_filter = None, br_min = 0, br_max = 0\<rparr>"] by (simp add: filtered_def)

section \<open>Pending receipts\<close>

text \<open>C31: For an account that no pending update of another account and no pending destroy touches, the
  account shown over pending receipts is the account the index holds after those receipts are indexed.\<close>

theorem pending_view:
  assumes "index_receipts X (bc_db c) rs WriteBatch_new = (Inr b :: 'e fail + write_batch)"
    and "idx_get_account X (bc_db c) i = (Inr (Some acc) :: 'e fail + account option)" "list_all (agrees i) rs"
  shows "\<exists>acc'. get_account X c i rs = (Inr (Some acc') :: 'e fail + account option) \<and>
    batch_account X (bc_db c) b i = (Inr (Some acc') :: 'e fail + account option)"
proof -
  have "batch_account X (bc_db c) WriteBatch_new i = (Inr (Some acc) :: 'e fail + account option)"
    using assms(2) by (simp add: batch_account_def WriteBatch_new_def)
  from index_receipts_view [OF assms(1) this assms(3)] show ?thesis
    using assms(2) by (simp add: get_account_def and_then_some_def and_then_def)
qed

definition mint_batch :: "unit fail + write_batch" where
  "mint_batch = index_receipts sample (bc_db chain1) [mint_receipt] WriteBatch_new"

theorem pending_view_witness:
  "\<exists>acc'. get_account sample chain1 0 [mint_receipt] = (Inr (Some acc') :: unit fail + account option) \<and>
    batch_account sample (bc_db chain1) (projr mint_batch) 0 = (Inr (Some acc') :: unit fail + account option)"
proof (rule pending_view [OF _ chain1_wallet])
  have "\<not> isl mint_batch" by code_simp
  from not_isl_projr [OF this] show "index_receipts sample (bc_db chain1) [mint_receipt] WriteBatch_new =
      (Inr (projr mint_batch) :: unit fail + write_batch)"
    by (simp only: mint_batch_def)
qed (simp add: agrees_def mint_receipt_def mint_tx1_def append_sign_def)

text \<open>A pending update of one account shows in every account.\<close>

lemma pending_update_leaks:
  assumes "idx_get_account X (bc_db c) i = (Inr (Some acc) :: 'e fail + account option)"
    and "rc_tx r = TxV0 (UpdateAccountTx t)" "ua_account_id t \<noteq> i"
  shows "get_account X c i [r] = (Inr (Some (apply_update t acc)) :: 'e fail + account option)"
  using assms by (simp add: get_account_def and_then_some_def and_then_def apply_receipt_def apply_update_def Let_def)

definition leaking_update :: update_account_tx where
  "leaking_update = \<lparr>ua_base = genesis_base 1, ua_account_id = 5, new_script = Some [1, 2], new_permissions = None\<rparr>"

lemma pending_update_leaks_instance:
  "get_account sample chain1 0 [\<lparr>rc_tx = TxV0 (UpdateAccountTx leaking_update), rc_log = []\<rparr>] =
   (Inr (Some (genesis_owner_wallet info1\<lparr>acc_script := [1, 2]\<rparr>)) :: unit fail + account option)"
  using pending_update_leaks [OF chain1_wallet, of "\<lparr>rc_tx = TxV0 (UpdateAccountTx leaking_update), rc_log = []\<rparr>" leaking_update]
  by (simp add: leaking_update_def apply_update_def)

section \<open>Accepting transactions\<close>

text \<open>C9: execute_tx accepts an account creation exactly when it has at most eight signatures, the new
  account's script fits, it is not destroyed, its permissions are valid and its id is free (also among
  the pending receipts), and the creator's account and fees can be read over the pending receipts, the
  fee is at least twice its full fee and the initial balance at least four times it, its balance covers
  both, and its permissions are satisfied by the signatures; the log is then empty.\<close>

theorem create_account_accepted:
  assumes "bigint_ok X" "pd_tx data = TxV0 (CreateAccountTx t)"
  shows "execute_tx X c data rs = Inr log \<longleftrightarrow>
    log = [] \<and> length (signature_pairs (ca_base t)) \<le> 8 \<and> length (acc_script (ca_account t)) \<le> 2048 \<and>
    \<not> destroyed (ca_account t) \<and> Permissions_is_valid (permissions (ca_account t)) \<and>
    \<not> account_exists X (bc_db c) (acc_id (ca_account t)) \<and> \<not> list_ex (pending_create (acc_id (ca_account t))) rs \<and>
    (\<exists>info. get_account_info X c (creator t) rs = (Inr (Some info) :: tx_err fail + _) \<and>
      2 * full_fee info \<le> amt (fee (ca_base t)) \<and> 4 * full_fee info \<le> amt (balance (ca_account t)) \<and>
      amt (fee (ca_base t)) + amt (balance (ca_account t)) \<le> amt (balance (ai_account info)) \<and>
      Permissions_verify X (permissions (ai_account info)) (txid_bytes (pd_txid data)) (signature_pairs (ca_base t)) = Inr ())"
  using assms by (rule execute_create_tx_iff)

definition new_account :: account where
  "new_account = \<lparr>acc_id = 7, balance = Asset 500, acc_script = [], permissions = \<lparr>threshold = 1, keys = [PublicKey (replicate 32 5)]\<rparr>, destroyed = False\<rparr>"

definition create_unsigned :: tx_variant where
  "create_unsigned = TxV0 (CreateAccountTx \<lparr>ca_base = \<lparr>nonce = 2, expiry = 3000, fee = Asset 250, signature_pairs = []\<rparr>,
     creator = 0, ca_account = new_account\<rparr>)"

definition create_tx1 :: create_account_tx where
  "create_tx1 = \<lparr>ca_base = \<lparr>nonce = 2, expiry = 3000, fee = Asset 250,
       signature_pairs = [TxVariant_sign sample create_unsigned (keypair_of 1), TxVariant_sign sample create_unsigned (keypair_of 3)]\<rparr>,
     creator = 0, ca_account = new_account\<rparr>"

definition create_data1 :: tx_precomp_data where
  "create_data1 = TxPrecompData_from_tx sample (TxV0 (CreateAccountTx create_tx1))"

lemma create_sigs_ok: "Permissions_verify sample \<lparr>threshold = 2, keys = map kp_public (map keypair_of [1, 2, 3, 4])\<rparr>
    (txid_bytes (pd_txid create_data1)) (signature_pairs (ca_base create_tx1)) = Inr ()"
  by code_simp

theorem create_account_accepted_witness: "execute_tx sample chain1 create_data1 [mint_receipt] = Inr []"
proof -
  have d: "pd_tx create_data1 = TxV0 (CreateAccountTx create_tx1)"
    by (simp add: create_data1_def TxPrecompData_from_tx_def)
  have i: "get_account_info sample chain1 (creator create_tx1) [mint_receipt] = (Inr (Some info_minted) :: tx_err fail + _)"
    by (simp add: create_tx1_def info_minted_ok)
  have "\<not> account_exists sample (bc_db chain1) 7"
    using create_genesis_repr(3) [OF genesis1_facts, of 7, where 'f = unit] info1_eq
    by (simp add: account_exists_def idx_get_account_def fallible_iffs split: option.splits)
  moreover have "permissions (ai_account info_minted) = \<lparr>threshold = 2, keys = map kp_public (map keypair_of [1, 2, 3, 4])\<rparr>"
    using info1_eq by (simp add: info_minted_def genesis_owner_wallet_def)
  ultimately have "length (signature_pairs (ca_base create_tx1)) \<le> 8 \<and>
    length (acc_script (ca_account create_tx1)) \<le> 2048 \<and> \<not> destroyed (ca_account create_tx1) \<and>
    Permissions_is_valid (permissions (ca_account create_tx1)) \<and>
    \<not> account_exists sample (bc_db chain1) (acc_id (ca_account create_tx1)) \<and>
    \<not> list_ex (pending_create (acc_id (ca_account create_tx1))) [mint_receipt] \<and>
    2 * full_fee info_minted \<le> amt (fee (ca_base create_tx1)) \<and>
    4 * full_fee info_minted \<le> amt (balance (ca_account create_tx1)) \<and>
    amt (fee (ca_base create_tx1)) + amt (balance (ca_account create_tx1)) \<le> amt (balance (ai_account info_minted)) \<and>
    Permissions_verify sample (permissions (ai_account info_minted)) (txid_bytes (pd_txid create_data1))
      (signature_pairs (ca_base create_tx1)) = Inr ()"
    using create_sigs_ok
    by (simp add: create_tx1_def new_account_def full_fee_def info_minted_def amt_def Permissions_is_valid_def
        MAX_PERM_KEYS_def IMMUTABLE_ACCOUNT_THRESHOLD_def pending_create_def mint_receipt_def mint_tx1_def append_sign_def)
  then show ?thesis
    using create_account_accepted [OF sample_bigint_ok d] i by blast
qed

text \<open>C21: execute_tx accepts an account update exactly when it has at most eight signatures, the account and
  its fees can be read over the pending receipts, it is not destroyed, a new script fits, new
  permissions are valid if there is no new script, the fee is at least twice the full fee and covered by
  the balance, and the account's permissions are satisfied by the signatures; the log is then empty.
  Permissions beside a new script are not validated.\<close>

theorem update_account_accepted:
  assumes "bigint_ok X" "pd_tx data = TxV0 (UpdateAccountTx t)"
  shows "execute_tx X c data rs = Inr log \<longleftrightarrow>
    log = [] \<and> length (signature_pairs (ua_base t)) \<le> 8 \<and>
    (case new_script t of
       Some scr \<Rightarrow> length scr \<le> 2048
     | None \<Rightarrow> pred_option Permissions_is_valid (new_permissions t)) \<and>
    (\<exists>info. get_account_info X c (ua_account_id t) rs = (Inr (Some info) :: tx_err fail + _) \<and>
      \<not> destroyed (ai_account info) \<and>
      2 * full_fee info \<le> amt (fee (ua_base t)) \<and> amt (fee (ua_base t)) \<le> amt (balance (ai_account info)) \<and>
      Permissions_verify X (permissions (ai_account info)) (txid_bytes (pd_txid data)) (signature_pairs (ua_base t)) = Inr ())"
  using assms by (rule execute_update_tx_iff)

definition update_unsigned :: update_account_tx where
  "update_unsigned = \<lparr>ua_base = \<lparr>nonce = 3, expiry = 3000, fee = Asset 250, signature_pairs = []\<rparr>, ua_account_id = 0,
     new_script = Some [], new_permissions = Some \<lparr>threshold = 9, keys = []\<rparr>\<rparr>"

definition update_tx1 :: update_account_tx where
  "update_tx1 = update_unsigned\<lparr>ua_base := ua_base update_unsigned\<lparr>signature_pairs :=
     [TxVariant_sign sample (TxV0 (UpdateAccountTx update_unsigned)) (keypair_of 2),
      TxVariant_sign sample (TxV0 (UpdateAccountTx update_unsigned)) (keypair_of 4)]\<rparr>\<rparr>"

definition update_data1 :: tx_precomp_data where
  "update_data1 = TxPrecompData_from_tx sample (TxV0 (UpdateAccountTx update_tx1))"

lemma update_sigs_ok: "Permissions_verify sample \<lparr>threshold = 2, keys = map kp_public (map keypair_of [1, 2, 3, 4])\<rparr>
    (txid_bytes (pd_txid update_data1)) (signature_pairs (ua_base update_tx1)) = Inr ()"
  by code_simp

theorem update_account_accepted_witness:
  "execute_tx sample chain1 update_data1 [mint_receipt] = Inr [] \<and>
   new_permissions update_tx1 = Some \<lparr>threshold = 9, keys = []\<rparr> \<and> \<not> Permissions_is_valid \<lparr>threshold = 9, keys = []\<rparr>"
proof -
  have i: "get_account_info sample chain1 (ua_account_id update_tx1) [mint_receipt] = (Inr (Some info_minted) :: tx_err fail + _)"
    by (simp add: update_tx1_def update_unsigned_def info_minted_ok)
  have d: "pd_tx update_data1 = TxV0 (UpdateAccountTx update_tx1)"
    by (simp add: update_data1_def TxPrecompData_from_tx_def)
  have p: "permissions (ai_account info_minted) = \<lparr>threshold = 2, keys = map kp_public (map keypair_of [1, 2, 3, 4])\<rparr>"
    using info1_eq by (simp add: info_minted_def genesis_owner_wallet_def)
  have "length (signature_pairs (ua_base update_tx1)) \<le> 8 \<and> new_script update_tx1 = Some [] \<and>
      \<not> destroyed (ai_account info_minted) \<and> 2 * full_fee info_minted \<le> amt (fee (ua_base update_tx1)) \<and>
      amt (fee (ua_base update_tx1)) \<le> amt (balance (ai_account info_minted))"
    by (simp add: update_tx1_def update_unsigned_def full_fee_def info_minted_def amt_def genesis_owner_wallet_def)
  then have "execute_tx sample chain1 update_data1 [mint_receipt] = Inr []"
    using update_account_accepted [OF sample_bigint_ok d] i p update_sigs_ok by (auto split: option.splits)
  then show ?thesis
    by (simp add: update_tx1_def update_unsigned_def Permissions_is_valid_def MAX_PERM_KEYS_def IMMUTABLE_ACCOUNT_THRESHOLD_def)
qed

end
