(* ===== verification/Branches.thy ===== *)
theory Branches
  imports Default_Script
begin

text \<open>
  The two branches of a conditional.  A run of operations whose conditionals are closed is skipped as
  a whole, so the branch the condition rejects is never run and the engine continues right behind
  the \<open>else\<close> or \<open>endif\<close> of the level it is on.
\<close>

section \<open>Closed code\<close>

fun closed :: "nat \<Rightarrow> op_frame list \<Rightarrow> bool" where
  "closed n [] \<longleftrightarrow> n = 0"
| "closed n (OpIf # fs) \<longleftrightarrow> closed (Suc n) fs"
| "closed n (OpElse # fs) \<longleftrightarrow> 0 < n \<and> closed n fs"
| "closed n (OpEndIf # fs) \<longleftrightarrow> 0 < n \<and> closed (n - 1) fs"
| "closed n (f # fs) \<longleftrightarrow> closed n fs"

definition encodes :: "op_frame list \<Rightarrow> bytes \<Rightarrow> bool" where
  "encodes fs code \<longleftrightarrow> (\<exists>cs. list_all2 (\<lambda>f c. frame_code f = (Inr c :: unit fail + bytes)) fs cs \<and> code = concat cs)"

lemma encodes_Nil [simp]: "encodes [] code \<longleftrightarrow> code = []"
  by (auto simp: encodes_def)

lemma encodes_Cons:
  "encodes (f # fs) code \<longleftrightarrow>
     (\<exists>c rest. frame_code f = (Inr c :: unit fail + bytes) \<and> encodes fs rest \<and> code = c @ rest)"
  by (force simp: encodes_def list_all2_Cons1)

lemma consume_op_encoded:
  assumes "drop pos scr = c @ rest" "frame_code f = (Inr c :: unit fail + bytes)" "pos < length scr"
  shows "consume_op scr pos = Inr (Some f, pos + length c)" "drop (pos + length c) scr = rest"
  using consume_op_drop [OF assms(1,2)] drop_behind [OF assms(1)] assms(3) by simp_all

section \<open>Skipping\<close>

text \<open>One step behind an operation that closes nothing.\<close>

lemma skip_until_step:
  assumes "consume_op scr pos = Inr (Some f, pos')"
  shows "skip_until scr req pos m =
    (if f = OpIf then skip_until scr req pos' (m + 1)
     else if f = OpElse then if m = req then Inr (pos', m) else skip_until scr req pos' m
     else if f = OpEndIf then if m = req then Inr (pos', m - 1) else skip_until scr req pos' (m - 1)
     else skip_until scr req pos' m)"
  using assms by (subst skip_until.simps) simp

lemma closed_Cons:
  "closed n (f # fs) \<longleftrightarrow>
     (if f = OpIf then closed (Suc n) fs
      else if f = OpElse then 0 < n \<and> closed n fs
      else if f = OpEndIf then 0 < n \<and> closed (n - 1) fs
      else closed n fs)"
  by (cases f) simp_all

lemma skip_until_closed:
  assumes "closed n fs" "encodes fs code" "drop pos scr = code @ rest" "rest \<noteq> []"
  shows "skip_until scr req pos (req + int n) = skip_until scr req (pos + length code) req"
  using assms
proof (induction fs arbitrary: n code pos)
  case (Cons f fs)
  obtain c r where cr: "frame_code f = (Inr c :: unit fail + bytes)" "encodes fs r" "code = c @ r"
    using Cons.prems(2) by (auto simp: encodes_Cons)
  have d: "drop pos scr = c @ (r @ rest)"
    using Cons.prems(3) cr(3) by simp
  have "pos < length scr"
    using Cons.prems(4) d by (metis append_is_Nil_conv drop_all not_less)
  note s = consume_op_encoded [OF d cr(1) this]
  have ih: "skip_until scr req (pos + length c) (req + int k) = skip_until scr req (pos + length c + length r) req"
    if "closed k fs" for k
    by (rule Cons.IH [OF that cr(2)]) (use s(2) Cons.prems(4) in simp_all)
  show ?case
    using Cons.prems(1) ih [of "Suc n"] ih [of n] ih [of "n - 1"]
    by (auto simp: skip_until_step [OF s(1)] closed_Cons cr(3) ac_simps add_diff_eq split: if_splits)
qed simp

text \<open>So a closed branch is left behind its \<open>else\<close> or its \<open>endif\<close>.\<close>

lemma skip_branch:
  assumes "closed 0 fs" "encodes fs code" "f = OpElse \<or> f = OpEndIf"
    and "drop pos scr = code @ projr (frame_code f :: unit fail + bytes) @ rest"
  shows "skip_until scr req pos req = Inr (pos + length code + 1, if f = OpElse then req else req - 1)"
proof -
  let ?c = "projr (frame_code f :: unit fail + bytes)"
  have c: "frame_code f = (Inr ?c :: unit fail + bytes)" "length ?c = 1" "?c @ rest \<noteq> []"
    using assms(3) by auto
  have d: "drop (pos + length code) scr = ?c @ rest"
    using drop_behind [OF assms(4)] .
  have "pos + length code < length scr"
    using c(3) d by (metis drop_all not_less)
  note s = consume_op_encoded [OF d c(1) this]
  have "skip_until scr req pos (req + int 0) = skip_until scr req (pos + length code) req"
    using assms(1,2,4) c(3) by (rule skip_until_closed)
  then show ?thesis
    using assms(3) c(2) by (auto simp: skip_until_step [OF s(1)])
qed

section \<open>The conditional\<close>

text \<open>\<open>OpIf\<close> takes the condition and either enters its branch or continues behind it.\<close>

lemma exec_if_branch:
  assumes "eg_stack (rs_engine rs) = frame_of_bool b # st" "closed 0 fs" "encodes fs code"
    and "f = OpElse \<or> f = OpEndIf"
    and "drop (eg_pos (rs_engine rs)) (ed_script d) = code @ projr (frame_code f :: unit fail + bytes) @ rest"
  shows "exec_op X d OpIf rs = Inr (Continue
    (rs\<lparr>rs_engine := (rs_engine rs)\<lparr>eg_stack := st,
          eg_pos := eg_pos (rs_engine rs) + (if b then 0 else length code + 1)\<rparr>,
        rs_if_marker := (if b \<or> f = OpElse then rs_if_marker rs + 1 else rs_if_marker rs),
        rs_ignore_else := b\<rparr>))"
proof -
  have p: "eng_pop pop_bool (rs_engine rs) = Inr (b, (rs_engine rs)\<lparr>eg_stack := st\<rparr>)"
    using assms(1) by (cases b) (simp_all add: eng_pop_def pop_bool_def frame_of_bool_def)
  show ?thesis
    using skip_branch [OF assms(2-5)] by (auto simp: exec_if_def Let_def p exec_skip_def)
qed

text \<open>Behind the branch it ran, \<open>OpElse\<close> continues behind the other one; behind a rejected one it
  is the start of the other.\<close>

lemma exec_else_branch:
  assumes "closed 0 fs" "encodes fs code"
    and "drop (eg_pos (rs_engine rs)) (ed_script d) = code @ operand_byte operand.OpEndIf # rest"
  shows "exec_op X d OpElse rs = Inr (Continue
    (if rs_ignore_else rs
     then rs\<lparr>rs_engine := (rs_engine rs)\<lparr>eg_pos := eg_pos (rs_engine rs) + length code + 1\<rparr>,
       rs_if_marker := rs_if_marker rs - 1\<rparr>
     else rs))"
  using skip_branch [OF assms(1,2), of OpEndIf] assms(3) by (simp add: exec_else_def exec_skip_def)

end
