(* ===== verification/Script_Properties.thy ===== *)
theory Script_Properties
  imports Sample_Pending Branches Execute_Spec Script_Steps
begin

text \<open>
  The properties of scripts: their encoding, the functions a builder lays out, and what an evaluation
  may answer, each with an instance on the sample run.
\<close>

section \<open>Encoding\<close>

text \<open>C37: Every operation the function builder writes is decoded at its position as the same operation, and
  the program counter moves behind it.\<close>

theorem op_roundtrip:
  assumes "frame_code f = (Inr code :: unit fail + bytes)"
  shows "consume_op (pre @ code @ post) (length pre) = Inr (Some f, length pre + length code)"
  using assms by (rule consume_op_frame_code)

theorem op_roundtrip_witness:
  "consume_op ([1] @ [operand_byte operand.OpCheckMultiPerms, 2, 3] @ [4]) (length [1 :: u8]) =
     Inr (Some (OpCheckMultiPerms 2 3), length [1 :: u8] + length [operand_byte operand.OpCheckMultiPerms, 2, 3])"
  by (rule op_roundtrip) simp

text \<open>C38: In a built script the pointer of a function with a fresh id leads to exactly the code that was
  pushed for it.\<close>

theorem built_function:
  assumes "Builder_push_all Builder_new (pre @ f # post) = (Inr b :: unit fail + builder)" "build b = Inr scr"
    and "fb_id f \<notin> fb_id ` set pre"
  shows "\<exists>ptr. get_fn_ptr scr (fb_id f) = Inr (Some ptr) \<and> unat ptr \<le> length scr \<and>
    drop (unat ptr) scr = byte_code f @ concat (map byte_code post)"
  using assms by (rule built_function_found)

definition builder1 :: builder where
  "builder1 = \<lparr>lookup_table = [(3, 0), (4, 2)], body = [0, 0, 0, 1, 80]\<rparr>"

definition script1 :: script where
  "script1 = [2, 3, 0, 0, 0, 11, 4, 0, 0, 0, 13, 0, 0, 0, 1, 80]"

definition fns1 :: "fn_builder list" where
  "fns1 = [\<lparr>fb_id = 3, byte_code = [0, 0]\<rparr>, \<lparr>fb_id = 4, byte_code = [0, 1, 80]\<rparr>]"

lemma builder1_ok: "Builder_push_all Builder_new fns1 = (Inr builder1 :: unit fail + builder)" "build builder1 = Inr script1"
  by code_simp+

theorem built_function_witness:
  "\<exists>ptr. get_fn_ptr script1 4 = Inr (Some ptr) \<and> unat ptr \<le> length script1 \<and> drop (unat ptr) script1 = [0, 1, 80]"
  using built_function [of "[hd fns1]" "fns1 ! 1" "[]" builder1 script1] builder1_ok by (simp add: fns1_def)

section \<open>Evaluation\<close>

text \<open>A transfer of two tokens from the owner's wallet, behind the pending mint.\<close>

definition transfer1 :: transfer_tx where
  "transfer1 = \<lparr>tr_base = \<lparr>nonce = 4, expiry = 3000, fee = Asset 125, signature_pairs = []\<rparr>, tr_from = 0, call_fn = 1,
     tr_args = be_bytes 8 (0 :: account_id) @ push_asset (Asset 150000), tr_amount = Asset 200000, memo = []\<rparr>"

definition transfer_tx1 :: tx_variant where
  "transfer_tx1 = append_sign sample (append_sign sample (TxV0 (TransferTx transfer1)) (keypair_of 1)) (keypair_of 3)"

definition run1 :: "sample_db engine_data" where
  "run1 = \<lparr>ed_script = gi_script info1, ed_tx_data = TxPrecompData_from_tx sample transfer_tx1, ed_chain = chain1,
     ed_receipts = [mint_receipt]\<rparr>"

definition log1 :: "log_entry list" where
  "log1 = [LogTransfer 0 (Asset 150000), LogTransfer 0 (Asset 50000)]"

definition eval1 :: "eval_err fail + log_entry list" where "eval1 = eval sample run1"

lemma eval1_ok: "eval sample run1 = Inr log1"
proof -
  have "eval1 = Inr log1" by code_simp
  then show ?thesis by (simp only: eval1_def)
qed


definition transfer1_signed :: transfer_tx where
  "transfer1_signed = transfer1\<lparr>tr_base := (tr_base transfer1)\<lparr>signature_pairs := tx_sigs transfer_tx1\<rparr>\<rparr>"

lemma transfer_tx1_eq: "transfer_tx1 = TxV0 (TransferTx transfer1_signed)"
  by (simp add: transfer_tx1_def transfer1_signed_def append_sign_def transfer1_def)

lemma run1_parts:
  "pd_tx (ed_tx_data run1) = TxV0 (TransferTx transfer1_signed)" "ed_chain run1 = chain1" "ed_receipts run1 = [mint_receipt]"
  by (simp_all add: run1_def TxPrecompData_from_tx_def transfer_tx1_eq)

lemma transfer1_signed_parts:
  "tr_amount transfer1_signed = Asset 200000" "tr_from transfer1_signed = 0" "call_fn transfer1_signed = 1"
  by (simp_all add: transfer1_signed_def transfer1_def)

text \<open>C4: A script that accepts a transfer distributes exactly the transferred amount: the entries of its log
  add up to the amount, none is negative, every receiver existed and was not destroyed when it was
  logged, and a destroy entry names another account and is followed at most by the refund to the account
  it names.\<close>

theorem eval_conserves:
  assumes "eval X d = Inr log" "pd_tx (ed_tx_data d) = TxV0 (TransferTx t)" "0 \<le> amt (tr_amount t)"
  shows "log_amt log = amt (tr_amount t) \<and> sound_log X d t log"
  using assms by (rule eval_transfer)

theorem eval_conserves_witness:
  "log_amt log1 = 200000 \<and> sound_log sample run1 transfer1_signed log1"
  using eval_conserves [OF eval1_ok run1_parts(1)] by (simp add: transfer1_signed_parts amt_def)

text \<open>C10: execute_tx accepts a transfer with a log exactly when it has at most eight signatures, the memo
  fits, the amount is not negative, the sender's account and fees can be read over the pending receipts,
  the fee is at least the account and network fees together, the balance covers fee and amount, and the
  script of the sender evaluates to that log.\<close>

theorem transfer_accepted:
  assumes "bigint_ok X" "pd_tx data = TxV0 (TransferTx t)"
  shows "execute_tx X c data rs = Inr log \<longleftrightarrow>
    length (signature_pairs (tr_base t)) \<le> 8 \<and> length (memo t) \<le> 1024 \<and> 0 \<le> amt (tr_amount t) \<and>
    (\<exists>info. get_account_info X c (tr_from t) rs = (Inr (Some info) :: tx_err fail + _) \<and>
      full_fee info \<le> amt (fee (tr_base t)) \<and>
      amt (fee (tr_base t)) + amt (tr_amount t) \<le> amt (balance (ai_account info)) \<and>
      eval X \<lparr>ed_script = acc_script (ai_account info), ed_tx_data = data, ed_chain = c, ed_receipts = rs\<rparr> = Inr log)"
  by (simp add: execute_transfer_iff [OF assms] run_script_def map_err_Inr_iff)

theorem transfer_accepted_witness:
  "execute_tx sample chain1 (TxPrecompData_from_tx sample transfer_tx1) [mint_receipt] = Inr log1"
proof -
  have d: "pd_tx (TxPrecompData_from_tx sample transfer_tx1) = TxV0 (TransferTx transfer1_signed)"
    by (simp add: TxPrecompData_from_tx_def transfer_tx1_eq)
  have i: "get_account_info sample chain1 (tr_from transfer1_signed) [mint_receipt] = (Inr (Some info_minted) :: tx_err fail + _)"
    by (simp add: transfer1_signed_parts info_minted_ok)
  have "run1 = \<lparr>ed_script = acc_script (ai_account info_minted), ed_tx_data = TxPrecompData_from_tx sample transfer_tx1,
      ed_chain = chain1, ed_receipts = [mint_receipt]\<rparr>"
    by (simp add: run1_def info_minted_def genesis_owner_wallet_def)
  then have "length (signature_pairs (tr_base transfer1_signed)) \<le> 8 \<and>
    length (memo transfer1_signed) \<le> 1024 \<and> 0 \<le> amt (tr_amount transfer1_signed) \<and>
    full_fee info_minted \<le> amt (fee (tr_base transfer1_signed)) \<and>
    amt (fee (tr_base transfer1_signed)) + amt (tr_amount transfer1_signed) \<le> amt (balance (ai_account info_minted)) \<and>
    eval sample \<lparr>ed_script = acc_script (ai_account info_minted), ed_tx_data = TxPrecompData_from_tx sample transfer_tx1,
      ed_chain = chain1, ed_receipts = [mint_receipt]\<rparr> = Inr log1"
    using eval1_ok by (simp add: transfer1_signed_def transfer_tx1_def append_sign_def transfer1_def full_fee_def info_minted_def amt_def)
  then show ?thesis
    using transfer_accepted [OF sample_bigint_ok d] i by blast
qed

text \<open>C7: The script every default account starts with accepts a transfer exactly when the signatures satisfy
  the account's permissions, the amount asked for is neither negative nor above the transferred amount
  and the receiver exists; its log is the transfer and the refund of what is left.\<close>

theorem default_script_transfers:
  assumes "Account_create_default aid perms = (Inr dflt :: unit fail + account)" "ed_script d = acc_script dflt"
    and "pd_tx (ed_tx_data d) = TxV0 (TransferTx t)" "call_fn t = 0"
    and "tr_args t = push_u64 to @ push_asset a @ extra"
    and "get_account X (ed_chain d) aid (ed_receipts d) = (Inr (Some acc) :: eval_err fail + account option)"
    and "chain_readable X d"
  shows "eval X d = Inr log \<longleftrightarrow>
    perms_ok X d acc \<and> 0 \<le> amt a \<and> a \<le> tr_amount t \<and> receivable X d to \<and>
    (let rem = Asset (amount (tr_amount t) - amount a)
     in log = LogTransfer to a # (if 0 < amt rem then [LogTransfer (tr_from t) rem] else []))"
  using assms by (rule default_script_eval)

definition transfer2 :: transfer_tx where
  "transfer2 = transfer1\<lparr>call_fn := 0\<rparr>"

definition transfer2_signed :: transfer_tx where
  "transfer2_signed = transfer2\<lparr>tr_base := (tr_base transfer2)\<lparr>signature_pairs :=
     [TxVariant_sign sample (TxV0 (TransferTx transfer2)) (keypair_of 2), TxVariant_sign sample (TxV0 (TransferTx transfer2)) (keypair_of 4)]\<rparr>\<rparr>"

definition wallet_perms :: permissions where
  "wallet_perms = \<lparr>threshold = 2, keys = map kp_public (map keypair_of [1, 2, 3, 4])\<rparr>"

definition default1 :: "unit fail + account" where
  "default1 = Account_create_default 0 wallet_perms"

definition run2 :: "sample_db engine_data" where
  "run2 = \<lparr>ed_script = acc_script (projr default1), ed_tx_data = TxPrecompData_from_tx sample (TxV0 (TransferTx transfer2_signed)),
     ed_chain = chain1, ed_receipts = [mint_receipt]\<rparr>"

lemma run2_sigs: "Permissions_verify sample wallet_perms (txid_bytes (pd_txid (ed_tx_data run2))) (signature_pairs (tr_base transfer2_signed)) = Inr ()"
  by code_simp

theorem default_script_transfers_witness:
  "eval sample run2 = Inr [LogTransfer 0 (Asset 150000), LogTransfer 0 (Asset 50000)]"
proof (subst default_script_transfers [of 0 wallet_perms "projr default1" run2 transfer2_signed 0 "Asset 150000" "[]"])
  have "\<not> isl default1" by code_simp
  from not_isl_projr [OF this] show "Account_create_default 0 wallet_perms = (Inr (projr default1) :: unit fail + account)"
    by (simp only: default1_def)
  show "get_account sample (ed_chain run2) 0 (ed_receipts run2) = (Inr (Some (ai_account info_minted)) :: eval_err fail + account option)"
    by (simp add: run2_def wallet_minted)
  have p: "permissions (ai_account info_minted) = wallet_perms" "\<not> destroyed (ai_account info_minted)"
    using info1_eq by (simp_all add: info_minted_def genesis_owner_wallet_def wallet_perms_def)
  have t: "ed_tx_data run2 = TxPrecompData_from_tx sample (TxV0 (TransferTx transfer2_signed))" by (simp add: run2_def)
  have "receivable sample run2 0"
    using p(2) by (simp add: receivable_def run2_def wallet_minted)
  moreover have "perms_ok sample run2 (ai_account info_minted)"
    unfolding perms_ok_def p using run2_sigs by (simp add: t TxPrecompData_from_tx_def)
  ultimately show "perms_ok sample run2 (ai_account info_minted) \<and> 0 \<le> amt (Asset 150000) \<and>
    Asset 150000 \<le> tr_amount transfer2_signed \<and> receivable sample run2 0 \<and>
    (let rem = Asset (amount (tr_amount transfer2_signed) - amount (Asset 150000))
     in [LogTransfer 0 (Asset 150000), LogTransfer 0 (Asset 50000)] =
        LogTransfer 0 (Asset 150000) # (if 0 < amt rem then [LogTransfer (tr_from transfer2_signed) rem] else []))"
    by (simp add: transfer2_signed_def transfer2_def transfer1_def amt_def less_eq_asset_def)
qed (simp_all add: run2_def TxPrecompData_from_tx_def transfer2_signed_def transfer2_def transfer1_def chain1_readable push_u64_def)

text \<open>C19: Evaluating any script of a transfer returns a log or an error and never panics, when the chain can
  be read and the entry of the called function in the script's table points inside the script.\<close>

theorem eval_never_panics:
  assumes "chain_readable X d" "pd_tx (ed_tx_data d) = TxV0 (TransferTx t)" "ptr_in_bounds (ed_script d) (call_fn t)"
  shows "eval X d \<noteq> Inl Panic"
  using assms by (intro eval_no_panic) simp_all

theorem eval_never_panics_witness: "eval sample (run1\<lparr>ed_script := [2, 9]\<rparr>) \<noteq> Inl Panic"
proof (rule eval_never_panics)
  show "ptr_in_bounds (ed_script (run1\<lparr>ed_script := [2, 9]\<rparr>)) (call_fn transfer1_signed)"
    unfolding transfer1_signed_parts by simp code_simp
qed (simp_all add: run1_parts chain1_readable)

text \<open>C20: The main loop of the engine stops: from any state it takes at most as many steps as bytes of the
  script are left and then reads an operation that fails, breaks or ends the script.\<close>

theorem script_terminates:
  "\<exists>n rs'. n \<le> length (ed_script d) - eg_pos (rs_engine rs) \<and> (loop_step X d ^^ n) rs rs' \<and>
    (\<nexists>rs''. loop_step X d rs' rs'') \<and> run_loop X d rs = run_loop X d rs'"
  using run_loop_halts [of d rs X] by (simp add: bytes_left_def)

text \<open>A script whose table points behind its end panics the evaluation of a transfer that calls that
  function.\<close>

lemma pointer_panics:
  assumes "pd_tx (ed_tx_data d) = TxV0 (TransferTx t)" "get_fn_ptr (ed_script d) (call_fn t) = Inr (Some ptr)"
    and "length (ed_script d) < unat ptr"
  shows "eval X d = Inl Panic"
  using assms(2,3) by (intro eval_ptr_panics) (simp_all add: assms(1))

lemma pointer_panics_run: "eval sample (run1\<lparr>ed_script := [1, 1, 0, 0, 1, 0]\<rparr>) = Inl Panic"
proof (rule pointer_panics)
  show "get_fn_ptr (ed_script (run1\<lparr>ed_script := [1, 1, 0, 0, 1, 0]\<rparr>)) (call_fn transfer1_signed) = Inr (Some 256)"
    unfolding transfer1_signed_parts by simp code_simp
qed (simp_all add: run1_parts)

section \<open>Conditionals\<close>

text \<open>C18: On a script whose branch is well nested, an if pops the condition and either enters the branch or
  continues right behind the else of its own level, whatever conditionals the skipped branch contains.\<close>

theorem if_takes_branch:
  assumes "eg_stack (rs_engine rs) = frame_of_bool b # st" "closed 0 fs" "encodes fs code"
    and "drop (eg_pos (rs_engine rs)) (ed_script d) = code @ operand_byte operand.OpElse # rest"
  shows "exec_op X d OpIf rs = Inr (Continue
    (rs\<lparr>rs_engine := (rs_engine rs)\<lparr>eg_stack := st,
          eg_pos := eg_pos (rs_engine rs) + (if b then 0 else length code + 1)\<rparr>,
        rs_if_marker := rs_if_marker rs + 1, rs_ignore_else := b\<rparr>))"
  using exec_if_branch [OF assms(1-3), of OpElse d rest X] assms(4) by simp

definition branch_state :: "bool \<Rightarrow> nat \<Rightarrow> run_state" where
  "branch_state b pos = \<lparr>rs_engine = \<lparr>eg_pos = pos, eg_stack = [frame_of_bool b], eg_log = [],
     eg_total_amt = Asset 0, eg_remaining_amt = Asset 0\<rparr>, rs_if_marker = 0, rs_ignore_else = False\<rparr>"

definition branch_run :: "bytes \<Rightarrow> sample_db engine_data" where
  "branch_run scr = run1\<lparr>ed_script := scr\<rparr>"

text \<open>A rejected branch that holds a conditional of its own.\<close>

definition inner_if :: bytes where
  "inner_if = [operand_byte operand.PushTrue, operand_byte operand.OpIf, operand_byte operand.OpElse, operand_byte operand.OpEndIf]"

theorem if_takes_branch_witness:
  "exec_op sample (branch_run (inner_if @ [operand_byte operand.OpElse, operand_byte operand.OpEndIf])) OpIf (branch_state False 0) =
   Inr (Continue ((branch_state False 0)\<lparr>rs_engine := (rs_engine (branch_state False 0))\<lparr>eg_stack := [], eg_pos := 5\<rparr>,
     rs_if_marker := 1, rs_ignore_else := False\<rparr>))"
proof -
  have c: "encodes [FrameTrue, OpIf, OpElse, OpEndIf] inner_if"
    by (simp add: encodes_Cons inner_if_def)
  show ?thesis
    using if_takes_branch [OF _ _ c, of "branch_state False 0" False "[]"
        "branch_run (inner_if @ [operand_byte operand.OpElse, operand_byte operand.OpEndIf])" "[operand_byte operand.OpEndIf]" sample]
    by (simp add: branch_state_def branch_run_def inner_if_def)
qed

text \<open>A conditional inside the taken branch, and the same function without it.\<close>

definition nested_body :: bytes where
  "nested_body = define_code [] @ map operand_byte [operand.PushTrue, operand.OpIf, operand.PushFalse, operand.OpIf, operand.OpEndIf,
     operand.OpElse, operand.OpAbort, operand.OpEndIf, operand.PushTrue]"

definition plain_body :: bytes where
  "plain_body = define_code [] @ map operand_byte [operand.PushTrue, operand.OpIf, operand.OpElse, operand.OpAbort, operand.OpEndIf,
     operand.PushTrue]"

definition one_function :: "bytes \<Rightarrow> sample_db engine_data" where
  "one_function code = \<lparr>ed_script = [1, 1, 0, 0, 0, 6] @ code,
     ed_tx_data = \<lparr>pd_tx = TxV0 (TransferTx transfer1), pd_txid = TxId (Digest (replicate 32 0))\<rparr>,
     ed_chain = empty_chain, ed_receipts = []\<rparr>"

definition nested_runs :: "(eval_err fail + log_entry list) \<times> (eval_err fail + log_entry list)" where
  "nested_runs = (eval sample (one_function nested_body), eval sample (one_function plain_body))"

text \<open>One flag serves all levels of conditionals: after a rejected inner if, the taken outer branch falls
  into its own else, so the nested script aborts where the plain one succeeds.\<close>

lemma nested_if_runs_else:
  "eval sample (one_function nested_body) = Inl (new_err 15 Aborted) \<and>
   eval sample (one_function plain_body) = Inr [LogTransfer 0 (Asset 200000)]"
proof -
  have "nested_runs = (Inl (new_err 15 Aborted), Inr [LogTransfer 0 (Asset 200000)])" by code_simp
  then show ?thesis by (simp only: nested_runs_def prod.inject)
qed

end
