(* ===== verification/Readable.thy ===== *)
theory Readable
  imports Startup
begin

text \<open>
  A running server reads its own index: every account entry and the owner entry parse in every state a
  server that was started on nothing reaches, so no request fails on what is stored.
\<close>

section \<open>An index that parses\<close>

definition index_readable :: "'db ext \<Rightarrow> 'db \<Rightarrow> bool" where
  "index_readable X db \<longleftrightarrow>
     (\<forall>i. \<exists>r. idx_get_account X db i = (Inr r :: unit fail + _)) \<and>
     (\<exists>t. get_owner X db = (Inr (Some t) :: unit fail + _))"

lemma same_reads_readable: "same_reads X c c' \<Longrightarrow> index_readable X (bc_db c') = index_readable X (bc_db c)"
  by (simp add: index_readable_def same_reads_index)

lemma insert_block_readable:
  assumes "chain_repr X c bs" "insert_block X c b = Inr c'" "db_ok X" "storable b" "room X c b"
    and "index_readable X (bc_db c)"
  shows "index_readable X (bc_db c')"
proof -
  obtain batch where b: "\<And>i. idx_get_account X (bc_db c') i = (batch_account X (bc_db c) batch i :: unit fail + _)"
    "(get_owner X (bc_db c') :: unit fail + _) = (case wb_owner batch of Some t \<Rightarrow> Inr (Some t) | None \<Rightarrow> get_owner X (bc_db c))"
    using insert_block_repr(3) [OF assms(1-5), where 'e = unit] by blast
  show ?thesis
    using assms(6) by (auto simp: index_readable_def b batch_account_def split: option.splits)
qed

section \<open>In every reachable state\<close>

lemma node_step_readable:
  assumes "node_step X m m'" "node_ok X m bs" "index_readable X (bc_db (rp_chain (mt_pool m)))"
    and "db_ok X"
  shows "index_readable X (bc_db (rp_chain (mt_pool m')))"
  using assms(1)
proof cases
  case (push now t)
  then obtain p where p: "pool_push X now (mt_pool m) (TxPrecompData_from_tx X t) = Inr p" "m' = m\<lparr>mt_pool := p\<rparr>"
    by (auto simp: minter_push_tx_def fallible_iffs)
  have "pool_ok X (mt_pool m)" using assms(2) by (simp add: node_ok_def)
  then show ?thesis
    using same_reads_readable [OF pool_push_ok(2) [OF assms(4) _ p(1)]] assms(3) p(2) by simp
next
  case (produce now child_time force r)
  from produce(1) show ?thesis
  proof (cases rule: produce_cases)
    case (failed e)
    then show ?thesis using assms(3) by simp
  next
    case (dropped rcs p)
    show ?thesis
      using assms(3) same_reads_readable [OF pool_flush_Inr(3) [OF dropped(1) assms(4)]] by (simp add: dropped(2))
  next
    case (inserted rcs p hd b c)
    note f = pool_flush_Inr [OF inserted(1) assms(4)]
    have "chain_repr X (rp_chain p) bs" using assms(2) chain_repr_same_reads [OF f(3)] by (simp add: node_ok_def)
    moreover have "storable (Block_sign X b (mt_key m))" "room X (rp_chain p) (Block_sign X b (mt_key m))"
      using produce(2) inserted(5) room_same_reads [OF f(3)] by simp_all
    ultimately show ?thesis
      using insert_block_readable [OF _ inserted(4) assms(4)] assms(3) same_reads_readable [OF f(3)]
      by (simp add: inserted(6))
  qed
qed

lemma net_steps_readable:
  assumes "(net_step X)\<^sup>*\<^sup>* n n'" "node_ok X (sv_minter (nt_server n)) bs" "index_readable X (bc_db (sv_chain (nt_server n)))"
    and "db_ok X" "sign_ok X" "wf_key_pair X (mt_key (sv_minter (nt_server n)))"
  shows "index_readable X (bc_db (sv_chain (nt_server n')))"
  using assms(1)
proof (induction rule: rtranclp_induct)
  case (step n1 n2)
  obtain bs1 where "node_ok X (sv_minter (nt_server n1)) bs1"
    using node_steps_ok [OF net_steps_node [OF step(1)] assms(2,4-6)] by blast
  then show ?case
    using net_step_node [OF step(2)] node_step_readable [OF _ _ _ assms(4)] step(3) by (auto simp: sv_chain_def)
qed (rule assms(3))

lemma reached_readable:
  assumes "start X now seeds opts db [] = (Inr sv :: 'e fail + ('db, 'a, 'c) server)" "\<And>cf k. db_get X db cf k = None"
    and "db_ok X" "sign_ok X" "sha256_ok X" "wf_key_pair X (so_minter_key opts)"
    and "length seeds = 4" "list_all (\<lambda>s. length s = SEEDBYTES) seeds"
    and "(net_step X)\<^sup>*\<^sup>* \<lparr>nt_server = sv, nt_clients = Map.empty\<rparr> n"
  shows "index_readable X (bc_db (sv_chain (nt_server n)))" "supply_readable X (bc_db (sv_chain (nt_server n)))"
proof -
  obtain c c1 info where g: "empty_node X c" "create_genesis_block X now seeds c (so_minter_key opts) = (Inr (c1, info) :: 'e fail + _)"
    "Minter_new X c1 (so_minter_key opts) (so_enable_stale_production opts) = (Inr (sv_minter sv) :: 'e fail + _)"
    and fits: "storable (genesis_block X now info)" "length (disk_record X (genesis_block X now info)) < 2 ^ 64"
    "wf_account (genesis_owner_wallet info)" "wf_tx (genesis_owner_tx now info)"
    and ok: "node_ok X (sv_minter sv) [genesis_block X now info]" "wf_key_pair X (mt_key (sv_minter sv))"
    by (rule first_start [OF assms(1-8)])
  note r = create_genesis_repr [OF g(2,1) assms(3) fits]
  have "index_readable X (bc_db (sv_chain sv))"
    using r(2) [where 'f = unit] r(3) [where 'f = unit]
    by (simp add: index_readable_def sv_chain_def Minter_new_Inr [OF g(3)])
  then show "index_readable X (bc_db (sv_chain (nt_server n)))"
    using net_steps_readable [OF assms(9) _ _ assms(3,4)] ok by simp
  obtain bs where "node_ok X (sv_minter (nt_server n)) bs"
    using node_steps_ok [OF net_steps_node [OF assms(9)] _ assms(3,4)] ok by auto
  then show "supply_readable X (bc_db (sv_chain (nt_server n)))" by (simp add: node_ok_def sv_chain_def)
qed

end
