(* ===== verification/Answers.thy ===== *)
theory Answers
  imports Readable
begin

text \<open>
  What a client is told: for each of the ten requests the answer that the stored blocks, the index and the
  pool determine, the messages a range task sends, and the proof that the server's message handler gives
  that answer under the request's id.
\<close>

section \<open>The answers\<close>

definition good_range :: "block list \<Rightarrow> u64 \<Rightarrow> u64 \<Rightarrow> bool" where
  "good_range bs lo hi \<longleftrightarrow> lo \<le> hi \<and> unat hi < length bs"

text \<open>\<open>answers X now m bs flt req b\<close>: the body \<open>b\<close> answers \<open>req\<close> on a node with the minter \<open>m\<close> over the
  blocks \<open>bs\<close>, for a client whose filter is \<open>flt\<close>.  A valid range has no such body.\<close>

fun answers :: "'db ext \<Rightarrow> u64 \<Rightarrow> 'db minter \<Rightarrow> block list \<Rightarrow> account_id set option \<Rightarrow> request \<Rightarrow> body \<Rightarrow> bool" where
  "answers X now m bs flt (ReqBroadcast t) b \<longleftrightarrow>
     (case minter_push_tx X now m t of
        Inr m' \<Rightarrow> b = BodyResponse ResBroadcast
      | Inl (Err e) \<Rightarrow> b = BodyError (TxValidation e)
      | Inl Panic \<Rightarrow> False)"
| "answers X now m bs flt (ReqSetBlockFilter f) b \<longleftrightarrow>
     b = (if card f \<le> 16 then BodyResponse ResSetBlockFilter else BodyError InvalidRequest)"
| "answers X now m bs flt ReqClearBlockFilter b \<longleftrightarrow> b = BodyResponse ResClearBlockFilter"
| "answers X now m bs flt ReqSubscribe b \<longleftrightarrow> b = BodyResponse ResSubscribe"
| "answers X now m bs flt ReqUnsubscribe b \<longleftrightarrow> b = BodyResponse ResUnsubscribe"
| "answers X now m bs flt ReqGetProperties b \<longleftrightarrow>
     (\<exists>ow net_fee supply.
        get_owner X (bc_db (rp_chain (mt_pool m))) = (Inr (Some ow) :: unit fail + _) \<and>
        get_network_fee X (rp_chain (mt_pool m)) = (Inr (Some net_fee) :: unit fail + _) \<and>
        get_token_supply X (bc_db (rp_chain (mt_pool m))) = (Inr supply :: unit fail + _) \<and>
        b = BodyResponse (ResGetProperties \<lparr>pr_height = of_nat (length bs - 1), pr_owner = ow,
              pr_network_fee = net_fee, pr_token_supply = supply\<rparr>))"
| "answers X now m bs flt (ReqGetBlock h) b \<longleftrightarrow>
     b = (if unat h < length bs then BodyResponse (ResGetBlock (filtered flt (bs ! unat h))) else BodyError InvalidHeight)"
| "answers X now m bs flt (ReqGetFullBlock h) b \<longleftrightarrow>
     b = (if unat h < length bs then BodyResponse (ResGetFullBlock (bs ! unat h)) else BodyError InvalidHeight)"
| "answers X now m bs flt (ReqGetBlockRange lo hi) b \<longleftrightarrow> \<not> good_range bs lo hi \<and> b = BodyError InvalidHeight"
| "answers X now m bs flt (ReqGetAccountInfo i) b \<longleftrightarrow>
     (case get_account_info X (rp_chain (mt_pool m)) i (rp_receipts (mt_pool m)) :: tx_err fail + _ of
        Inr (Some info) \<Rightarrow> b = BodyResponse (ResGetAccountInfo info)
      | Inr None \<Rightarrow> b = BodyError (TxValidation Arithmetic)
      | Inl _ \<Rightarrow> False)"

text \<open>The message that carries a body.\<close>

definition sent :: "u32 \<Rightarrow> body \<Rightarrow> ws_message" where
  "sent i b = WsBinary (msg_bytes \<lparr>msg_id = i, msg_body = b\<rparr>)"

section \<open>The bodies can be sent\<close>

lemma stored_wf: "chain_repr X c bs \<Longrightarrow> i < length bs \<Longrightarrow> wf_block (bs ! i)"
  using chain_ok_nth [of X bs i] by (simp add: chain_repr_def store_repr_def storable_def)

lemma wf_filtered:
  assumes "wf_block b"
  shows "wf_response (ResGetBlock (filtered flt b))"
  using assms by (auto simp: filtered_def wf_block_def split: option.splits)

text \<open>Only a block can fail to serialize.\<close>

fun sendable :: "body \<Rightarrow> bool" where
  "sendable (BodyResponse (ResGetBlock b)) = wf_response (ResGetBlock b)"
| "sendable (BodyResponse (ResGetFullBlock b)) = wf_block b"
| "sendable b = True"

lemma Msg_serialize_sendable:
  assumes "sendable b"
  shows "Msg_serialize \<lparr>msg_id = i, msg_body = b\<rparr> = Inr (msg_bytes \<lparr>msg_id = i, msg_body = b\<rparr>)"
  using assms
proof (cases b)
  case (BodyResponse r)
  then show ?thesis
    using assms by (cases r) (simp_all add: Msg_serialize_eq wf_msg_def, simp_all add: Msg_serialize_def msg_bytes_def)
qed (simp_all add: Msg_serialize_def msg_bytes_def)

lemma answer_sent: "sendable b \<Longrightarrow> answer i b = Inr (Some (sent i b))"
  by (simp add: answer_def Msg_serialize_sendable sent_def)

lemma answers_sendable:
  assumes "answers X now m bs flt req b" "chain_repr X c bs"
  shows "sendable b"
  using assms(1) stored_wf [OF assms(2)] wf_filtered
  by (cases req) (auto split: if_splits sum.splits fail.splits option.splits)

section \<open>The task of a range\<close>

lemma block_messages_sent:
  "list_all (\<lambda>b. wf_response (ResGetBlock b)) fbs \<Longrightarrow>
    block_messages i fbs =
      Inr (map (\<lambda>b. sent i (BodyResponse (ResGetBlock b))) fbs @ [sent i (BodyResponse ResGetBlockRange)])"
  by (induction fbs) (simp_all add: Msg_serialize_sendable sent_def)

text \<open>The task reads the chain as it is when it runs, which may have grown.\<close>

lemma range_messages_repr:
  assumes "chain_repr X c bs" "good_range bs lo hi" "chain_repr X c' (bs @ later)"
  shows "range_messages X c' i \<lparr>br_filter = flt, br_min = lo, br_max = hi\<rparr> =
    Some (Inr (map (\<lambda>h. sent i (BodyResponse (ResGetBlock (filtered flt (bs ! h))))) [unat lo..<Suc (unat hi)] @
      [sent i (BodyResponse ResGetBlockRange)]))"
proof -
  let ?hs = "[unat lo..<Suc (unat hi)]"
  have hi: "unat hi < length bs" using assms(2) by (simp add: good_range_def)
  have "hi \<noteq> - 1" using hi chain_repr_length [OF assms(1)] by (auto simp: unsigned_minus_1_eq_mask mask_eq_exp_minus_1)
  then have "range_blocks X c' \<lparr>br_filter = flt, br_min = lo, br_max = hi\<rparr> =
      Some (Inr (map (\<lambda>h. filtered flt ((bs @ later) ! h)) ?hs))"
    using range_blocks_repr [OF assms(3), of "\<lparr>br_filter = flt, br_min = lo, br_max = hi\<rparr>"] hi by (simp del: upt_Suc)
  moreover have "map (\<lambda>h. filtered flt ((bs @ later) ! h)) ?hs = map (\<lambda>h. filtered flt (bs ! h)) ?hs"
    using hi by (intro map_cong) (auto simp: nth_append)
  moreover have "list_all (\<lambda>b. wf_response (ResGetBlock b)) (map (\<lambda>h. filtered flt (bs ! h)) ?hs)"
    using hi wf_filtered [OF stored_wf [OF assms(1)]] by (auto simp: list_all_iff simp del: upt_Suc)
  ultimately show ?thesis
    by (simp add: range_messages_def block_messages_sent o_def del: upt_Suc)
qed

section \<open>Refinement\<close>

lemma block_range_try_new_repr:
  assumes "chain_repr X c bs"
  shows "block_range_try_new X c lo hi =
    Inr (if good_range bs lo hi then Some \<lparr>br_filter = None, br_min = lo, br_max = hi\<rparr> else None)"
proof -
  have n: "0 < length bs" "length bs < 2 ^ 64" using chain_repr_length [OF assms] by auto
  have u: "unat (of_nat (length bs - 1) :: u64) = length bs - 1"
    by (rule unat_height) (use n in simp)
  have "hi \<le> of_nat (length bs - 1) \<longleftrightarrow> unat hi < length bs"
    unfolding word_le_nat_alt u using n(1) by arith
  then show ?thesis
    by (auto simp: block_range_try_new_def chain_height_repr [OF assms] good_range_def not_le not_less)
qed

lemma filtered_repr:
  assumes "chain_repr X c bs"
  shows "get_filtered_block X c h f =
    Inr (if unat h < length bs then Some (filtered (Some f) (bs ! unat h)) else None)"
  by (simp add: get_filtered_block_repr [OF assms] filtered_def Let_def)

text \<open>What of the node state the requests about properties and accounts read.\<close>

lemma account_info_total:
  assumes "chain_repr X c bs" "bigint_ok X" "index_readable X (bc_db c)"
  shows "\<exists>r. get_account_info X c i rs = (Inr r :: 'e fail + _)"
proof -
  obtain a where a: "idx_get_account X (bc_db c) i = (Inr a :: 'e fail + _)"
    using assms(3) idx_get_account_retype [where 'e = unit and 'f = 'e] by (fastforce simp: index_readable_def)
  obtain nf where nf: "get_network_fee X c = (Inr nf :: 'e fail + _)" using fees_total(1) [OF assms(1,2)] by blast
  obtain af where af: "get_account_fee X c i rs = (Inr af :: 'e fail + _)" using fees_total(2) [OF assms(1,2)] by blast
  show ?thesis
    by (auto simp: get_account_info_def get_account_def a nf af and_then_some_def split: option.splits)
qed

lemma handle_answers:
  assumes "chain_repr X (sv_chain data) bs" "bigint_ok X" "index_readable X (bc_db (sv_chain data))"
    and "supply_readable X (bc_db (sv_chain data))"
  shows "case handle_rpc_request X now data state req of
      Inl e \<Rightarrow> (\<exists>t. req = ReqBroadcast t \<and> minter_push_tx X now (sv_minter data) t = Inl Panic) \<or>
        req = ReqGetProperties \<and> get_network_fee X (sv_chain data) = (Inr None :: unit fail + _)
    | Inr r \<Rightarrow>
        (case hd_spawned r of
           None \<Rightarrow> (\<exists>b. hd_reply r = Some b \<and> answers X now (sv_minter data) bs (wc_filter state) req b)
         | Some rg \<Rightarrow> hd_reply r = None \<and>
             (\<exists>lo hi. req = ReqGetBlockRange lo hi \<and> good_range bs lo hi \<and>
               rg = \<lparr>br_filter = wc_filter state, br_min = lo, br_max = hi\<rparr>))"
proof (cases req)
  case (ReqBroadcast t)
  show ?thesis
    by (auto simp: ReqBroadcast reply_def split: sum.splits fail.splits)
next
  case (ReqGetBlockRange lo hi)
  then show ?thesis
    by (auto simp: block_range_try_new_repr [OF assms(1)] reply_def no_reply_def block_range_set_filter_def
        Let_def split: option.splits)
next
  case ReqGetProperties
  obtain ow where ow: "get_owner X (bc_db (sv_chain data)) = (Inr (Some ow) :: unit fail + _)"
    using assms(3) by (auto simp: index_readable_def)
  obtain s where s: "get_token_supply X (bc_db (sv_chain data)) = (Inr s :: unit fail + _)"
    using assms(4) by (auto simp: supply_readable_def)
  obtain nf where nf: "get_network_fee X (sv_chain data) = (Inr nf :: unit fail + _)"
    using fees_total(1) [OF assms(1,2)] by blast
  show ?thesis
    using ow s nf
    by (cases nf) (simp_all add: ReqGetProperties reply_def get_properties_def chain_height_repr [OF assms(1), unfolded sv_chain_def]
        chain_get_owner_def sv_chain_def)
next
  case (ReqGetAccountInfo i)
  obtain info where "get_account_info X (sv_chain data) i (rp_receipts (mt_pool (sv_minter data))) = (Inr info :: tx_err fail + _)"
    using account_info_total [OF assms(1-3)] by blast
  then show ?thesis
    by (cases info) (simp_all add: ReqGetAccountInfo reply_def minter_get_account_info_def pool_get_account_info_def
        sv_chain_def ok_or_def)
qed (auto simp: reply_def filtered_repr [OF assms(1)] get_block_repr [OF assms(1)] filtered_def split: option.splits)

lemma process_answers:
  assumes "chain_repr X (sv_chain data) bs" "bigint_ok X" "index_readable X (bc_db (sv_chain data))"
    and "supply_readable X (bc_db (sv_chain data))"
    and "wf_msg \<lparr>msg_id = i, msg_body = BodyRequest req\<rparr>"
  shows "case process_ws_msg X now data state (sent i (BodyRequest req)) of
      Inl e \<Rightarrow> (\<exists>t. req = ReqBroadcast t \<and> minter_push_tx X now (sv_minter data) t = Inl Panic) \<or>
        req = ReqGetProperties \<and> get_network_fee X (sv_chain data) = (Inr None :: unit fail + _)
    | Inr r \<Rightarrow>
        (case ps_spawned r of
           None \<Rightarrow> (\<exists>b. ps_out r = Some (sent i b) \<and> answers X now (sv_minter data) bs (wc_filter state) req b)
         | Some (j, rg) \<Rightarrow> ps_out r = None \<and> j = i \<and>
             (\<exists>lo hi. req = ReqGetBlockRange lo hi \<and> good_range bs lo hi \<and>
               rg = \<lparr>br_filter = wc_filter state, br_min = lo, br_max = hi\<rparr>))"
proof -
  have d: "Msg_deserialize (msg_bytes \<lparr>msg_id = i, msg_body = BodyRequest req\<rparr>) =
      Inr (\<lparr>msg_id = i, msg_body = BodyRequest req\<rparr>, [])"
    using msg_codec.io_roundtrip [OF assms(5), of "[]"] by simp
  let ?st = "state\<lparr>wc_needs_pong := False\<rparr>"
  note h = handle_answers [OF assms(1-4), where now = now and state = ?st and req = req]
  show ?thesis
  proof (cases "handle_rpc_request X now data ?st req")
    case (Inl e)
    then show ?thesis using h by (auto simp: sent_def d handle_protocol_msg_def Let_def)
  next
    case (Inr r)
    show ?thesis
    proof (cases "hd_spawned r")
      case None
      then obtain b where b: "hd_reply r = Some b" "answers X now (sv_minter data) bs (wc_filter state) req b"
        using h Inr by auto
      show ?thesis
        using b(1) Inr None answer_sent [OF answers_sendable [OF b(2) assms(1)], of i]
        by (simp add: sent_def [of i "BodyRequest req"] d handle_protocol_msg_def Let_def) (use b(2) in blast)
    next
      case (Some rg)
      then show ?thesis using h Inr by (simp add: sent_def d handle_protocol_msg_def Let_def)
    qed
  qed
qed

end
