(* ===== verification/Server_Properties.thy ===== *)
theory Server_Properties
  imports Sample_Mint Answers
begin

text \<open>
  The properties of the server: its clients and subscriptions, the answers it gives, and the
  transactions it refuses, each with an instance on the sample run.
\<close>

section \<open>Clients\<close>

text \<open>C33: From the start of a node on nothing, however clients connect, send messages, time out and leave
  while blocks are produced, every subscription belongs to a connected client and its channel, no filter
  exceeds 16 accounts, and the node keeps its chain invariant.\<close>

theorem server_run:
  assumes "start X now seeds opts db [] = (Inr sv :: 'e fail + ('db, 'a, 'c) server)" "\<And>cf k. db_get X db cf k = None"
    and "db_ok X" "sign_ok X" "sha256_ok X" "wf_key_pair X (so_minter_key opts)"
    and "length seeds = 4" "list_all (\<lambda>s. length s = SEEDBYTES) seeds"
    and "(net_step X)\<^sup>*\<^sup>* \<lparr>nt_server = sv, nt_clients = Map.empty\<rparr> n"
  shows "(\<forall>addr cl. nt_clients n addr = Some cl \<longrightarrow>
      wc_addr cl = addr \<and> (\<forall>f. wc_filter cl = Some f \<longrightarrow> card f \<le> 16)) \<and>
    (\<forall>addr tx. sv_subs (nt_server n) addr = Some tx \<longrightarrow> (\<exists>cl. nt_clients n addr = Some cl \<and> wc_tx cl = tx)) \<and>
    (\<exists>bs. node_ok X (sv_minter (nt_server n)) bs)"
proof -
  obtain info where g: "node_ok X (sv_minter sv) [genesis_block X now info]" "wf_key_pair X (mt_key (sv_minter sv))"
    by (rule first_start [OF assms(1-8)])
  have "(node_step X)\<^sup>*\<^sup>* (sv_minter sv) (sv_minter (nt_server n))"
    using net_steps_node [OF assms(9)] by simp
  from node_steps_ok [OF this g(1) assms(3,4) g(2)]
  have "\<exists>bs. node_ok X (sv_minter (nt_server n)) bs" by auto
  moreover have "clients_ok n"
    by (rule net_steps_clients_ok [OF assms(9)]) (simp add: clients_ok_def start_subs [OF assms(1)])
  ultimately show ?thesis by (simp add: clients_ok_def)
qed

text \<open>A client on address 5 with channel 8 subscribes.\<close>

definition net0 :: "(sample_db, nat, nat) net" where
  "net0 = \<lparr>nt_server = server1, nt_clients = Map.empty\<rparr>"

definition net1 :: "(sample_db, nat, nat) net" where
  "net1 = net0\<lparr>nt_clients := [5 \<mapsto> WsClient_new 5 8]\<rparr>"

definition net2 :: "(sample_db, nat, nat) net" where
  "net2 = \<lparr>nt_server = \<lparr>sv_minter = minter1, sv_subs = [5 \<mapsto> 8]\<rparr>, nt_clients = [5 \<mapsto> WsClient_new 5 8]\<rparr>"

definition subscribe_msg :: msg where
  "subscribe_msg = \<lparr>msg_id = 7, msg_body = BodyRequest ReqSubscribe\<rparr>"

lemma subscribe_decodes: "Msg_deserialize (msg_bytes subscribe_msg) = Inr (subscribe_msg, [])"
  using msg_codec.io_roundtrip [of subscribe_msg "[]"] by (simp add: subscribe_msg_def wf_msg_def)

lemma net_run: "(net_step sample)\<^sup>*\<^sup>* net0 net2"
proof -
  have a: "net_step sample net0 net1"
    using net_step.connect [of net0 5 sample 8] by (simp add: net0_def net1_def server1_def)
  let ?m = "WsBinary (msg_bytes subscribe_msg)"
  obtain r where r: "process_ws_msg sample 0 (nt_server net1) (WsClient_new 5 8) ?m = Inr r"
    "ps_data r = \<lparr>sv_minter = minter1, sv_subs = [5 \<mapsto> 8]\<rparr>" "ps_client r = WsClient_new 5 8"
    by (simp add: subscribe_decodes Let_def)
      (simp add: subscribe_msg_def handle_protocol_msg_def reply_def net1_def net0_def server1_def sub_insert_def WsClient_new_def
        answer_def Msg_serialize_def)
  have "net_step sample net1 net2"
    using net_step.receive [OF _ r(1), of 5] r(2,3) by (simp add: net1_def net2_def)
  with a show ?thesis by (meson rtranclp.simps)
qed

theorem server_run_witness:
  "sv_subs (nt_server net2) 5 = Some 8 \<and> (\<exists>cl. nt_clients net2 5 = Some cl \<and> wc_tx cl = 8)"
  using server_run [OF sample_first_start net_run [unfolded net0_def]] by (simp add: net2_def WsClient_new_def)

text \<open>C3: Whatever clients send, the receipts a node pools are well-formed, and each block it makes of them,
  when it is shorter than 2^32 bytes, is well-formed and read back from its bytes.\<close>

theorem made_blocks_decode:
  assumes "start X now seeds opts db [] = (Inr sv :: 'e fail + ('db, 'a, 'c) server)" "\<And>cf k. db_get X db cf k = None"
    and "db_ok X" "sign_ok X" "sha256_ok X" "wf_key_pair X (so_minter_key opts)"
    and "length seeds = 4" "list_all (\<lambda>s. length s = SEEDBYTES) seeds"
    and "bigint_ok X" "(net_step X)\<^sup>*\<^sup>* \<lparr>nt_server = sv, nt_clients = Map.empty\<rparr> n"
    and "produce X later child_time force (sv_minter (nt_server n)) = (Inr (Some b), m)" "length (block_bytes b) < 2 ^ 32"
  shows "list_all wf_receipt (rp_receipts (mt_pool (sv_minter (nt_server n)))) \<and> wf_block b \<and>
    Block_deserialize (block_bytes b @ rest) = Some (b, rest)"
proof -
  obtain c c1 info where g: "Minter_new X c1 (so_minter_key opts) (so_enable_stale_production opts) = (Inr (sv_minter sv) :: 'e fail + _)"
    "node_ok X (sv_minter sv) [genesis_block X now info]" "wf_key_pair X (mt_key (sv_minter sv))"
    by (rule first_start [OF assms(1-8)])
  have "pool_wf (sv_minter sv)" by (simp add: pool_wf_def Minter_new_Inr(2) [OF g(1)])
  then have p: "pool_wf (sv_minter (nt_server n))"
    using net_steps_pool [OF assms(10)] g(2,3) first_start_solvent [OF assms(1-8)] assms(3,4,9) by simp
  have "mt_key (sv_minter (nt_server n)) = mt_key (sv_minter sv)"
    using node_steps_ok [OF net_steps_node [OF assms(10)], of "[genesis_block X now info]"] g(2,3) assms(3,4) by simp
  then have "wf_block b"
    using produced_block_wf [OF assms(11) p assms(12,3-5)] g(3) by simp
  then show ?thesis using p block_codec.roundtrip by (simp add: pool_wf_def)
qed

text \<open>A client sends the mint, and the node makes a block of it.\<close>

definition mint_msg :: msg where
  "mint_msg = \<lparr>msg_id = 9, msg_body = BodyRequest (ReqBroadcast mint_tx1)\<rparr>"

definition net3 :: "(sample_db, nat, nat) net" where
  "net3 = \<lparr>nt_server = \<lparr>sv_minter = minter2, sv_subs = Map.empty\<rparr>, nt_clients = [5 \<mapsto> WsClient_new 5 8]\<rparr>"

lemma net_mint_run: "(net_step sample)\<^sup>*\<^sup>* net0 net3"
proof -
  have a: "net_step sample net0 net1"
    using net_step.connect [of net0 5 sample 8] by (simp add: net0_def net1_def server1_def)
  have "wf_tx mint_tx1" using mint_receipt_wf by (simp add: wf_receipt_def mint_receipt_def)
  then have d: "Msg_deserialize (msg_bytes mint_msg) = Inr (mint_msg, [])"
    using msg_codec.io_roundtrip [of mint_msg "[]"] by (simp add: mint_msg_def wf_msg_def)
  obtain r where r: "process_ws_msg sample 2000 (nt_server net1) (WsClient_new 5 8) (WsBinary (msg_bytes mint_msg)) = Inr r"
    "ps_data r = \<lparr>sv_minter = minter2, sv_subs = Map.empty\<rparr>" "ps_client r = WsClient_new 5 8"
    by (simp add: d Let_def)
      (simp add: mint_msg_def handle_protocol_msg_def reply_def net1_def net0_def server1_def push_run_ok WsClient_new_def
        answer_def Msg_serialize_def)
  have "net_step sample net1 net3"
    using net_step.receive [OF _ r(1), of 5] r(2,3) by (simp add: net1_def net3_def)
  with a show ?thesis by (meson rtranclp.simps)
qed

theorem made_blocks_decode_witness:
  "wf_block mint_block \<and> Block_deserialize (block_bytes mint_block @ [7]) = Some (mint_block, [7])"
  using made_blocks_decode [OF sample_first_start sample_bigint_ok net_mint_run [unfolded net0_def], of 2500 2500 True mint_block minter3]
    minter3_produced mint_block_length
  by (simp add: net3_def)

section \<open>Answers\<close>

text \<open>C34: In every state of a server that was started on nothing, each of the ten requests, well-formed, is
  answered by exactly one message with the request's id and the body that the stored blocks, the index
  and the pool determine, or, for a valid block range, by a task that sends each block of the range in
  order, as the client's filter leaves it, and then the closing message, all under that id, also when
  the chain has grown meanwhile. The handler panics only where pushing a broadcast transaction does, or
  where the properties are asked for while the network fee overflows.\<close>

theorem request_answered:
  assumes "start X now seeds opts db [] = (Inr sv :: 'e fail + ('db, 'a, 'c) server)" "\<And>cf k. db_get X db cf k = None"
    and "db_ok X" "sign_ok X" "sha256_ok X" "wf_key_pair X (so_minter_key opts)"
    and "length seeds = 4" "list_all (\<lambda>s. length s = SEEDBYTES) seeds"
    and "bigint_ok X" "(net_step X)\<^sup>*\<^sup>* \<lparr>nt_server = sv, nt_clients = Map.empty\<rparr> n"
    and "chain_repr X (sv_chain (nt_server n)) bs" "wf_msg \<lparr>msg_id = i, msg_body = BodyRequest req\<rparr>"
  shows "case process_ws_msg X later (nt_server n) state (sent i (BodyRequest req)) of
      Inl e \<Rightarrow>
        (\<exists>t. req = ReqBroadcast t \<and> minter_push_tx X later (sv_minter (nt_server n)) t = Inl Panic) \<or>
        req = ReqGetProperties \<and> get_network_fee X (sv_chain (nt_server n)) = (Inr None :: unit fail + _)
    | Inr r \<Rightarrow>
        (case ps_spawned r of
           None \<Rightarrow>
             (\<exists>b. ps_out r = Some (sent i b) \<and> answers X later (sv_minter (nt_server n)) bs (wc_filter state) req b)
         | Some (j, rg) \<Rightarrow> ps_out r = None \<and> j = i \<and>
             (\<exists>lo hi. req = ReqGetBlockRange lo hi \<and> good_range bs lo hi \<and>
               (\<forall>c made. chain_repr X c (bs @ made) \<longrightarrow>
                  range_messages X c i rg =
                    Some (Inr (map (\<lambda>h. sent i (BodyResponse (ResGetBlock (filtered (wc_filter state) (bs ! h)))))
                        [unat lo..<Suc (unat hi)] @ [sent i (BodyResponse ResGetBlockRange)])))))"
proof -
  note p = process_answers [OF assms(11,9) reached_readable [OF assms(1-8,10)] assms(12), of later state]
  show ?thesis
    using p range_messages_repr [OF assms(11)] by (fastforce split: sum.splits option.splits)
qed

theorem request_answered_witness:
  "\<exists>r. process_ws_msg sample 2000 (nt_server net2) (WsClient_new 5 8) (sent 3 (BodyRequest (ReqGetBlockRange 0 0))) = Inr r \<and>
    ps_out r = None \<and>
    (\<exists>rg. ps_spawned r = Some (3, rg) \<and>
      range_messages sample chain1 3 rg =
        Some (Inr [sent 3 (BodyResponse (ResGetBlock (FilteredBlock genesis1))), sent 3 (BodyResponse ResGetBlockRange)]))"
proof -
  have c: "chain_repr sample (sv_chain (nt_server net2)) [genesis1]"
    using chain1_repr by (simp add: sv_chain_def net2_def minter1_parts)
  have "wf_msg \<lparr>msg_id = 3, msg_body = BodyRequest (ReqGetBlockRange 0 0)\<rparr>" by (simp add: wf_msg_def)
  note r = request_answered [OF sample_first_start sample_bigint_ok net_run [unfolded net0_def] c this, of 2000 "WsClient_new 5 8"]
  have "chain_repr sample chain1 ([genesis1] @ [])" using chain1_repr by simp
  then show ?thesis
    using r by (fastforce simp: good_range_def filtered_def WsClient_new_def split: sum.splits option.splits)
qed

section \<open>Replay\<close>

text \<open>C32: A transaction accepted by the pool is refused when it is pushed again, also with other signatures
  and after the pool was flushed: as a duplicate while its id is indexed and as expired afterwards.\<close>

theorem replay_rejected:
  assumes "minter_push_tx X now m t = Inr m1" "(clocked X)\<^sup>*\<^sup>* (now, m1) (now2, m2)" "db_ok X" "now2 \<le> now3"
  shows "minter_push_tx X now3 m2 (with_sigs t sigs) =
    Inl (Err (if tx_expiry t \<le> now3 \<or> tx_expiry t - now3 > TX_MAX_EXPIRY_TIME then TxExpired else TxDupe))"
  using assms by (rule replayed_refused)

theorem replay_rejected_witness:
  "minter_push_tx sample 2010 minter2 (with_sigs mint_tx1 []) = Inl (Err TxDupe) \<and>
   minter_push_tx sample 3000 minter2 mint_tx1 = Inl (Err TxExpired)"
  using replay_rejected [OF push_run_ok rtranclp.rtrancl_refl sample_db_ok, of 2010 "[]"]
    replay_rejected [OF push_run_ok rtranclp.rtrancl_refl sample_db_ok, of 3000 "tx_sigs mint_tx1"]
  by (simp add: mint_tx1_def append_sign_def TX_MAX_EXPIRY_TIME_def)

end
