(* ===== verification/Files.thy ===== *)
theory Files
  imports Prelude
begin

text \<open>
  What the two entry points use of \<open>std::path\<close>, \<open>std::fs\<close> and \<open>std::env\<close>.  A path is the list of its
  components; the operations act on a map from paths to what is there.
\<close>

section \<open>Files\<close>

type_synonym path = "string list"

text \<open>A plain directory, a file, or a directory that holds a database.\<close>

datatype 'db node = Dir | RegularFile bytes | DbDir 'db

type_synonym 'db files = "path \<Rightarrow> 'db node option"

definition path_join :: "path \<Rightarrow> string \<Rightarrow> path" where
  "path_join p x = p @ [x]"

definition is_dir :: "'db files \<Rightarrow> path \<Rightarrow> bool" where
  "is_dir fs p = (case fs p of Some Dir \<Rightarrow> True | Some (DbDir _) \<Rightarrow> True | _ \<Rightarrow> False)"

text \<open>A directory is created within one that is there.\<close>

definition create_dir :: "'db files \<Rightarrow> path \<Rightarrow> 'db files option" where
  "create_dir fs p =
     (if fs p = None \<and> p \<noteq> [] \<and> (butlast p = [] \<or> is_dir fs (butlast p)) then Some (fs(p \<mapsto> Dir)) else None)"

definition read_file :: "'db files \<Rightarrow> path \<Rightarrow> bytes option" where
  "read_file fs p = (case fs p of Some (RegularFile b) \<Rightarrow> Some b | _ \<Rightarrow> None)"

definition path_exists :: "'db files \<Rightarrow> path \<Rightarrow> bool" where
  "path_exists fs p \<longleftrightarrow> fs p \<noteq> None"

definition remove_dir_all :: "'db files \<Rightarrow> path \<Rightarrow> 'db files option" where
  "remove_dir_all fs p = (if is_dir fs p then Some (\<lambda>q. if take (length p) q = p then None else fs q) else None)"

section \<open>The home directory\<close>

text \<open>\<open>GODCOIN_HOME\<close>, or a directory below the user's local data, which must be known then.\<close>

definition home_default :: "path option \<Rightarrow> path option \<Rightarrow> 'e fail + path" where
  "home_default godcoin_home data_local_dir =
     (case godcoin_home of
        Some s \<Rightarrow> Inr s
      | None \<Rightarrow> and_then (unwrap data_local_dir) (\<lambda>d. Inr (path_join d ''godcoin'')))"

definition ensure_home :: "'db files \<Rightarrow> path \<Rightarrow> 'e fail + 'db files" where
  "ensure_home fs home = (if \<not> is_dir fs home then unwrap (create_dir fs home) else Inr fs)"

text \<open>RocksDB opens the database at a path, and creates one where there is none.\<close>

definition open_db :: "'db \<Rightarrow> 'db files \<Rightarrow> path \<Rightarrow> 'e fail + 'db" where
  "open_db blank fs p =
     (case fs p of Some (DbDir db) \<Rightarrow> Inr db | Some (RegularFile _) \<Rightarrow> Inl Panic | _ \<Rightarrow> Inr blank)"

lemma ensure_home_Inr:
  "ensure_home fs home = (Inr fs' :: 'e fail + _) \<Longrightarrow> fs' = (if is_dir fs home then fs else fs(home \<mapsto> Dir))"
  by (auto simp: ensure_home_def create_dir_def fallible_iffs split: if_splits)

end
