(* ===== verification/Launch.thy ===== *)
theory Launch
  imports Startup Wif Files
begin

text \<open>
  The entry point of the server, \<open>bin/server/main.rs\<close>: from the command line, the environment and the
  configuration file to the options of \<open>start\<close>, with the directories it makes and removes on the way.
  Parsing TOML and socket addresses are parameters, as is a database without content.
\<close>

section \<open>Configuration\<close>

record config =
  cf_minter_key :: string
  cf_enable_stale_production :: bool
  cf_bind_address :: "string option"
  cf_metrics_bind_address :: "string option"

text \<open>The libraries the entry point calls: \<open>toml::from_str\<close> on UTF-8 text, the parser of socket addresses,
  and the content of a database that was just created.\<close>

record ('db, 'addr) server_libs =
  toml_config :: "bytes \<Rightarrow> config option"
  parse_addr :: "string \<Rightarrow> 'addr option"
  new_db :: 'db

text \<open>The environment and what clap matched: the path behind \<open>--home\<close>, when it was given, and two flags.\<close>

record server_env =
  se_godcoin_home :: "path option"
  se_data_local_dir :: "path option"
  se_home :: "path option"
  se_reindex :: bool
  se_auto_trim :: bool

definition blocklog_loc :: "path \<Rightarrow> path" where "blocklog_loc home = path_join home ''blklog''"
definition index_loc :: "path \<Rightarrow> path" where "index_loc home = path_join home ''index''"

definition read_config :: "('db, 'addr) server_libs \<Rightarrow> 'db files \<Rightarrow> path \<Rightarrow> 'e fail + config" where
  "read_config L fs home =
     and_then (unwrap (read_file fs (path_join home ''config.toml''))) (\<lambda>config_file.
     and_then (if utf8_valid config_file then Inr config_file else Inl Panic) (\<lambda>text.
       unwrap (toml_config L text)))"

text \<open>The address of the metrics endpoint, when one is configured.\<close>

definition metrics_addr :: "('db, 'addr) server_libs \<Rightarrow> config \<Rightarrow> 'e fail + 'addr option" where
  "metrics_addr L config =
     (case cf_metrics_bind_address config of
        Some bind_address \<Rightarrow> and_then (unwrap (parse_addr L bind_address)) (\<lambda>addr. Inr (Some addr))
      | None \<Rightarrow> Inr None)"

text \<open>The index is removed when it shall be rebuilt.\<close>

definition reindex_opts :: "server_env \<Rightarrow> 'db files \<Rightarrow> path \<Rightarrow> 'e fail + (bool option \<times> 'db files)" where
  "reindex_opts env fs loc =
     (if se_reindex env then
        and_then (if path_exists fs loc then unwrap (remove_dir_all fs loc) else Inr fs) (\<lambda>fs.
          Inr (Some (se_auto_trim env), fs))
      else Inr (None, fs))"

section \<open>The entry point\<close>

record ('db, 'addr) launch_plan =
  la_files :: "'db files"
  la_home :: path
  la_metrics :: "'addr option"
  la_opts :: server_opts
  la_bind_addr :: string

definition prepare :: "'db ext \<Rightarrow> ('db, 'addr) server_libs \<Rightarrow> server_env \<Rightarrow> 'db files \<Rightarrow> 'e fail + ('db, 'addr) launch_plan" where
  "prepare X L env fs =
     and_then (home_default (se_godcoin_home env) (se_data_local_dir env)) (\<lambda>default.
     let home = (case se_home env of Some h \<Rightarrow> h | None \<Rightarrow> default)
     in and_then (ensure_home fs home) (\<lambda>fs.
     and_then (read_config L fs home) (\<lambda>config.
     and_then (metrics_addr L config) (\<lambda>metrics.
     and_then (unwrap (ok (PrivateKey_from_wif X (cf_minter_key config)))) (\<lambda>minter_key.
     let bind_addr = (case cf_bind_address config of Some a \<Rightarrow> a | None \<Rightarrow> ''127.0.0.1:7777'')
     in and_then (reindex_opts env fs (index_loc home)) (\<lambda>(reindex, fs).
          Inr \<lparr>la_files = fs, la_home = home, la_metrics = metrics,
               la_opts = \<lparr>so_minter_key = minter_key, so_reindex = reindex,
                          so_enable_stale_production = cf_enable_stale_production config\<rparr>,
               la_bind_addr = bind_addr\<rparr>))))))"

text \<open>Opening the block log creates it when it is missing.\<close>

definition open_log :: "'db files \<Rightarrow> path \<Rightarrow> 'e fail + bytes" where
  "open_log fs p = (case fs p of None \<Rightarrow> Inr [] | Some (RegularFile b) \<Rightarrow> Inr b | _ \<Rightarrow> Inl Panic)"

text \<open>\<open>start\<close> of \<open>lib.rs\<close> on the files, to the address the server listens on.\<close>

definition launch ::
  "'db ext \<Rightarrow> ('db, 'addr) server_libs \<Rightarrow> u64 \<Rightarrow> bytes list \<Rightarrow> server_env \<Rightarrow> 'db files \<Rightarrow>
    'e fail + ('db, 'a, 'c) server \<times> 'addr" where
  "launch X L now seeds env fs =
     and_then (prepare X L env fs) (\<lambda>la.
     and_then (open_db (new_db L) (la_files la) (index_loc (la_home la))) (\<lambda>db.
     and_then (open_log (la_files la) (blocklog_loc (la_home la))) (\<lambda>log.
     and_then (start X now seeds (la_opts la) db log) (\<lambda>sv.
     and_then (unwrap (parse_addr L (la_bind_addr la))) (\<lambda>addr.
       Inr (sv, addr))))))"

section \<open>Stopping and launching again\<close>

text \<open>What a stopped node leaves on the disk: its index and its log, with a tail of a torn write.\<close>

definition left_files :: "'db files \<Rightarrow> path \<Rightarrow> 'db minter \<Rightarrow> bytes \<Rightarrow> 'db files" where
  "left_files fs home m tail =
     (if is_dir fs home then fs else fs(home \<mapsto> Dir))
       (index_loc home \<mapsto> DbDir (bc_db (rp_chain (mt_pool m))),
        blocklog_loc home \<mapsto> RegularFile (st_file (bc_store (rp_chain (mt_pool m))) @ tail))"

lemma locs_distinct [simp]:
  "index_loc home \<noteq> home" "blocklog_loc home \<noteq> home" "home \<noteq> index_loc home" "home \<noteq> blocklog_loc home"
  "index_loc home \<noteq> blocklog_loc home" "blocklog_loc home \<noteq> index_loc home"
  "path_join home ''config.toml'' \<noteq> home" "path_join home ''config.toml'' \<noteq> index_loc home"
  "path_join home ''config.toml'' \<noteq> blocklog_loc home"
  by (simp_all add: index_loc_def blocklog_loc_def path_join_def)

lemma left_files_simps [simp]:
  "is_dir (left_files fs home m tail) home"
  "left_files fs home m tail (index_loc home) = Some (DbDir (bc_db (rp_chain (mt_pool m))))"
  "left_files fs home m tail (blocklog_loc home) = Some (RegularFile (st_file (bc_store (rp_chain (mt_pool m))) @ tail))"
  "read_file (left_files fs home m tail) (path_join home ''config.toml'') = read_file fs (path_join home ''config.toml'')"
  by (auto simp: left_files_def is_dir_def read_file_def)

lemma PrivateKey_from_wif_wf: "PrivateKey_from_wif X s = Inr kp \<Longrightarrow> wf_key_pair X kp"
  by (auto simp: PrivateKey_from_wif_def Let_def fallible_iffs wf_key_pair_def SEEDBYTES_def split: if_splits prod.splits)

text \<open>The plan of a launch: what the configuration says, whatever the flags.\<close>

lemma prepare_Inr:
  assumes "prepare X L env fs = (Inr la :: 'e fail + _)" "se_home env = Some home" "fs (index_loc home) = None"
  obtains config metrics d where
    "home_default (se_godcoin_home env) (se_data_local_dir env) = (Inr d :: 'e fail + _)"
    "read_config L fs home = (Inr config :: 'e fail + _)" "metrics_addr L config = (Inr metrics :: 'e fail + _)"
    "PrivateKey_from_wif X (cf_minter_key config) = Inr (so_minter_key (la_opts la))"
    "so_enable_stale_production (la_opts la) = cf_enable_stale_production config"
    "la_bind_addr la = (case cf_bind_address config of Some a \<Rightarrow> a | None \<Rightarrow> ''127.0.0.1:7777'')"
    "la_home la = home" "la_files la (index_loc home) = None" "la_files la (blocklog_loc home) = fs (blocklog_loc home)"
proof -
  obtain d fs1 config metrics mk r where p: "home_default (se_godcoin_home env) (se_data_local_dir env) = (Inr d :: 'e fail + _)"
    "ensure_home fs home = (Inr fs1 :: 'e fail + _)" "read_config L fs1 home = (Inr config :: 'e fail + _)"
    "metrics_addr L config = (Inr metrics :: 'e fail + _)" "PrivateKey_from_wif X (cf_minter_key config) = Inr mk"
    "reindex_opts env fs1 (index_loc home) = (Inr r :: 'e fail + _)"
    "la = \<lparr>la_files = snd r, la_home = home, la_metrics = metrics,
       la_opts = \<lparr>so_minter_key = mk, so_reindex = fst r, so_enable_stale_production = cf_enable_stale_production config\<rparr>,
       la_bind_addr = (case cf_bind_address config of Some a \<Rightarrow> a | None \<Rightarrow> ''127.0.0.1:7777'')\<rparr>"
    using assms(1,2) by (auto simp: prepare_def Let_def fallible_iffs split: prod.splits)
  note fs1 = ensure_home_Inr [OF p(2)]
  have "snd r = fs1" using p(6) assms(3) fs1 by (auto simp: reindex_opts_def path_exists_def split: if_splits)
  moreover have "read_config L fs1 home = (read_config L fs home :: 'e fail + _)"
    using fs1 by (simp add: read_config_def read_file_def)
  ultimately show ?thesis using that [OF p(1) _ p(4)] p(3,5,7) fs1 assms(3) by simp
qed

lemma relaunch:
  assumes "launch X L now seeds env fs = (Inr (sv, addr) :: 'e fail + ('db, 'a, 'c) server \<times> 'addr)"
    and "se_home env = Some home" "fs (index_loc home) = None" "fs (blocklog_loc home) = None"
  obtains opts where "start X now seeds opts (new_db L) [] = (Inr sv :: 'e fail + ('db, 'a, 'c) server)"
    "wf_key_pair X (so_minter_key opts)"
    "\<And>later seeds' m tail (sv' :: ('db, 'a, 'c) server).
      start X later seeds' (opts\<lparr>so_reindex := None\<rparr>) (bc_db (rp_chain (mt_pool m))) (st_file (bc_store (rp_chain (mt_pool m))) @ tail) =
        (Inr sv' :: block_err fail + _) \<Longrightarrow>
      launch X L later seeds' (env\<lparr>se_reindex := False\<rparr>) (left_files fs home m tail) = (Inr (sv', addr) :: block_err fail + _)"
    "\<And>later seeds' m tail (sv' :: ('db, 'a, 'c) server).
      start X later seeds' (opts\<lparr>so_reindex := Some True\<rparr>) (new_db L) (st_file (bc_store (rp_chain (mt_pool m))) @ tail) =
        (Inr sv' :: block_err fail + _) \<Longrightarrow>
      launch X L later seeds' (env\<lparr>se_reindex := True, se_auto_trim := True\<rparr>) (left_files fs home m tail) =
        (Inr (sv', addr) :: block_err fail + _)"
proof -
  obtain la where la: "prepare X L env fs = (Inr la :: 'e fail + _)"
    and rest: "and_then (open_db (new_db L) (la_files la) (index_loc (la_home la))) (\<lambda>db.
      and_then (open_log (la_files la) (blocklog_loc (la_home la))) (\<lambda>log.
      and_then (start X now seeds (la_opts la) db log) (\<lambda>sv.
      and_then (unwrap (parse_addr L (la_bind_addr la))) (\<lambda>addr. Inr (sv, addr))))) =
      (Inr (sv, addr) :: 'e fail + ('db, 'a, 'c) server \<times> 'addr)"
    using assms(1) unfolding launch_def and_then_Inr_iff by blast
  obtain config metrics d where p:
    "home_default (se_godcoin_home env) (se_data_local_dir env) = (Inr d :: 'e fail + _)"
    "read_config L fs home = (Inr config :: 'e fail + _)" "metrics_addr L config = (Inr metrics :: 'e fail + _)"
    "PrivateKey_from_wif X (cf_minter_key config) = Inr (so_minter_key (la_opts la))"
    "so_enable_stale_production (la_opts la) = cf_enable_stale_production config"
    "la_bind_addr la = (case cf_bind_address config of Some a \<Rightarrow> a | None \<Rightarrow> ''127.0.0.1:7777'')"
    "la_home la = home" "la_files la (index_loc home) = None" "la_files la (blocklog_loc home) = fs (blocklog_loc home)"
    by (rule prepare_Inr [OF la assms(2,3)])
  have st: "start X now seeds (la_opts la) (new_db L) [] = (Inr sv :: 'e fail + ('db, 'a, 'c) server)"
    "parse_addr L (la_bind_addr la) = Some addr"
    using rest p(7-9) assms(4) by (auto simp: open_db_def open_log_def fallible_iffs)
  have d: "home_default (se_godcoin_home env) (se_data_local_dir env) = (Inr d :: block_err fail + _)"
    using p(1) by (auto simp: home_default_def fallible_iffs split: option.splits)
  have c: "read_config L (left_files fs home m tail) home = (Inr config :: block_err fail + _)" for m tail
    using p(2) by (auto simp: read_config_def fallible_iffs split: if_splits)
  have mt: "metrics_addr L config = (Inr metrics :: block_err fail + _)"
    using p(3) by (auto simp: metrics_addr_def fallible_iffs split: option.splits)
  note plan = launch_def prepare_def assms(2) d c mt p(4) Let_def ensure_home_def reindex_opts_def path_exists_def
    open_db_def open_log_def p(5) [symmetric] p(6) [symmetric] st(2)
  show ?thesis
  proof (rule that [OF st(1) PrivateKey_from_wif_wf [OF p(4)]])
    fix later seeds' tail and m :: "'db minter" and sv' :: "('db, 'a, 'c) server"
    let ?log = "st_file (bc_store (rp_chain (mt_pool m))) @ tail"
    assume "start X later seeds' (la_opts la\<lparr>so_reindex := None\<rparr>) (bc_db (rp_chain (mt_pool m))) ?log = (Inr sv' :: block_err fail + _)"
    then show "launch X L later seeds' (env\<lparr>se_reindex := False\<rparr>) (left_files fs home m tail) = (Inr (sv', addr) :: block_err fail + _)"
      by (cases "la_opts la") (simp add: plan)
  next
    fix later seeds' tail and m :: "'db minter" and sv' :: "('db, 'a, 'c) server"
    let ?log = "st_file (bc_store (rp_chain (mt_pool m))) @ tail"
    assume s: "start X later seeds' (la_opts la\<lparr>so_reindex := Some True\<rparr>) (new_db L) ?log = (Inr sv' :: block_err fail + _)"
    have "is_dir (left_files fs home m tail) (index_loc home)" by (simp add: is_dir_def)
    then have "remove_dir_all (left_files fs home m tail) (index_loc home) =
        Some (\<lambda>q. if take (length (index_loc home)) q = index_loc home then None else left_files fs home m tail q)"
      by (simp add: remove_dir_all_def)
    moreover have "take (length (index_loc home)) (blocklog_loc home) \<noteq> index_loc home"
      by (simp add: index_loc_def blocklog_loc_def path_join_def)
    ultimately show "launch X L later seeds' (env\<lparr>se_reindex := True, se_auto_trim := True\<rparr>) (left_files fs home m tail) =
        (Inr (sv', addr) :: block_err fail + _)"
      using s by (cases "la_opts la") (simp add: plan)
  qed
qed

end
