(* ===== verification/Log_Properties.thy ===== *)
theory Log_Properties
  imports Sample_Mint Launch
begin

text \<open>
  Properties of the block log: a node opened again on its log and index stores the same blocks, and an
  index rebuilt from the log alone, even when its last record was cut off, agrees with the one the
  running node kept.
\<close>

text \<open>Opening alone, on the log and the index a chain left, in whatever state its pool was.\<close>

lemma chain_reopens:
  assumes "chain_repr X c bs" "get_index_status X (bc_db c) = (Inr status :: 'e fail + _)"
  shows "\<exists>c'. Blockchain_new X (bc_db c) (st_file (bc_store c)) = (Inr c' :: 'e fail + _) \<and>
    chain_repr X c' bs \<and> bc_db c' = bc_db c \<and> (\<forall>h. get_block X c' h = get_block X c h)"
  using reopen_repr [OF assms] get_block_repr [OF assms(1)] get_block_repr by metis

text \<open>C29: A node launched with an empty home directory can be stopped after any run and launched again by the
  key of its owner: on the log and index it left, or, with the flags that rebuild the index and trim the
  log, on its log with a last record cut off behind its header; either way it listens on the same
  address, serves the same blocks and keeps the chain invariant.\<close>

theorem node_restarts:
  assumes "launch X L now seeds env fs = (Inr (sv, addr) :: 'e fail + ('db, 'a, 'c) server \<times> 'addr)"
    and "se_home env = Some home" "fs (index_loc home) = None" "fs (blocklog_loc home) = None"
    and "\<And>cf k. db_get X (new_db L) cf k = None" "db_ok X" "sign_ok X" "sha256_ok X"
    and "length seeds = 4" "list_all (\<lambda>s. length s = SEEDBYTES) seeds"
    and "(node_step X)\<^sup>*\<^sup>* (sv_minter sv) m"
    and "chain_get_owner X (rp_chain (mt_pool m)) = (Inr (TxV0 (OwnerTx ow)) :: block_err fail + _)"
      "minter ow = kp_public (mt_key (sv_minter sv))"
    and "storable b" "n < length (disk_record X b)" "n = 0 \<or> 8 \<le> n"
  shows "\<exists>bs. node_ok X m bs \<and>
      (\<exists>sv'. launch X L later seeds' (env\<lparr>se_reindex := False\<rparr>) (left_files fs home m []) =
          (Inr (sv', addr) :: block_err fail + ('db, 'a, 'c) server \<times> 'addr) \<and> node_ok X (sv_minter sv') bs) \<and>
      (\<exists>sv'. launch X L later seeds' (env\<lparr>se_reindex := True, se_auto_trim := True\<rparr>)
            (left_files fs home m (take n (disk_record X b))) =
          (Inr (sv', addr) :: block_err fail + ('db, 'a, 'c) server \<times> 'addr) \<and> node_ok X (sv_minter sv') bs)"
proof (rule relaunch [OF assms(1-4)], goal_cases)
  case (1 opts)
  note l = 1(1,2) and again = 1(3,4)
  have "mt_key (sv_minter sv) = so_minter_key opts"
    by (rule first_start [OF l(1) assms(5-8) l(2) assms(9,10)]) (simp add: Minter_new_Inr(3))
  then have key: "minter ow = kp_public (so_minter_key (opts\<lparr>so_reindex := r\<rparr>))" for r using assms(13) by simp
  note run = restarts [OF l(1) assms(5-8) l(2) assms(9-12) key, of later seeds']
  obtain bs sv1 where a: "node_ok X m bs" "node_ok X (sv_minter sv1) bs"
    "start X later seeds' (opts\<lparr>so_reindex := None\<rparr>) (bc_db (rp_chain (mt_pool m))) (st_file (bc_store (rp_chain (mt_pool m)))) =
      (Inr sv1 :: block_err fail + ('db, 'a, 'c) server)"
    using run by blast
  obtain bs' sv2 where t: "node_ok X m bs'" "node_ok X (sv_minter sv2) bs'"
    "start X later seeds' (opts\<lparr>so_reindex := Some True\<rparr>) (new_db L) (st_file (bc_store (rp_chain (mt_pool m))) @ take n (disk_record X b)) =
      (Inr sv2 :: block_err fail + ('db, 'a, 'c) server)"
    using run [of "Some True" b n] assms(14-16) by auto
  have "bs' = bs" using chain_repr_unique a(1) t(1) by (auto simp: node_ok_def)
  then show ?case using a t(2) again(1) [of later seeds' m "[]" sv1] again(2) [OF t(3)] by auto
qed

text \<open>The sample node launched in an empty home directory; its configuration file holds one byte.\<close>

definition sample_config :: config where
  "sample_config = \<lparr>cf_minter_key = PrivateKey_to_wif sample (kp_private minter_key), cf_enable_stale_production = False,
     cf_bind_address = None, cf_metrics_bind_address = None\<rparr>"

definition sample_libs :: "(sample_db, nat) server_libs" where
  "sample_libs = \<lparr>toml_config = (\<lambda>text. if text = [1] then Some sample_config else None),
     parse_addr = (\<lambda>s. if s = ''127.0.0.1:7777'' then Some 7777 else None), new_db = []\<rparr>"

definition sample_env :: server_env where
  "sample_env = \<lparr>se_godcoin_home = None, se_data_local_dir = Some [''var''], se_home = Some [''home''],
     se_reindex = False, se_auto_trim = False\<rparr>"

definition sample_files :: "sample_db files" where
  "sample_files = [[''home''] \<mapsto> Dir, [''home'', ''config.toml''] \<mapsto> RegularFile [1]]"

lemma sample_launch:
  "launch sample sample_libs 1000 sample_seeds sample_env sample_files =
    (Inr (server1, 7777) :: unit fail + (sample_db, 'a, 'c) server \<times> nat)"
proof -
  have k: "PrivateKey_from_wif sample (PrivateKey_to_wif sample (kp_private minter_key)) = Inr minter_key"
    by (rule private_key_wif.from_to) (simp_all add: wif_libs_def sample_sha256_ok sample_bs58_ok minter_key_def wf_keypair_of)
  have "start sample 1000 sample_seeds \<lparr>so_minter_key = minter_key, so_reindex = None, so_enable_stale_production = False\<rparr> [] [] =
      (Inr server1 :: unit fail + (sample_db, 'a, 'c) server)"
    by (rule sample_starts) simp_all
  then show ?thesis
    by (simp add: launch_def prepare_def sample_env_def sample_files_def home_default_def ensure_home_def is_dir_def
        read_config_def read_file_def path_join_def sample_libs_def sample_config_def metrics_addr_def k reindex_opts_def
        index_loc_def blocklog_loc_def open_db_def open_log_def Let_def)
qed

theorem node_restarts_witness:
  "\<exists>bs. node_ok sample minter3 bs \<and>
      (\<exists>sv'. launch sample sample_libs 5000 [] (sample_env\<lparr>se_reindex := False\<rparr>) (left_files sample_files [''home''] minter3 []) =
          (Inr (sv', 7777) :: block_err fail + (sample_db, unit, unit) server \<times> nat) \<and> node_ok sample (sv_minter sv') bs) \<and>
      (\<exists>sv'. launch sample sample_libs 5000 [] (sample_env\<lparr>se_reindex := True, se_auto_trim := True\<rparr>)
            (left_files sample_files [''home''] minter3 (take 9 (disk_record sample genesis1))) =
          (Inr (sv', 7777) :: block_err fail + (sample_db, unit, unit) server \<times> nat) \<and> node_ok sample (sv_minter sv') bs)"
proof (rule node_restarts [OF sample_launch])
  show "chain_get_owner sample (rp_chain (mt_pool minter3)) =
      (Inr (TxV0 (OwnerTx \<lparr>own_base = genesis_base 1000, minter = kp_public minter_key, wallet = 0\<rparr>)) :: block_err fail + _)"
    by (rule minter3_owner)
  show "(node_step sample)\<^sup>*\<^sup>* (sv_minter server1) minter3" by (rule minter3_run)
qed (simp_all add: sample_env_def sample_files_def index_loc_def blocklog_loc_def path_join_def sample_libs_def sample_empty
    sample_db_ok sample_sign_ok sample_sha256_ok sample_seeds_ok server1_def minter1_parts genesis1_storable
    disk_record_def disk_meta_eq genesis1_length)

text \<open>C30: However a node ran since it was started on nothing, opening its log without an index and rebuilding
  gives a chain that stores the same blocks and an index that answers every account, the supply and the
  owner as the one the node kept, also when the last record of the log was cut off behind its header.\<close>

theorem torn_log_recovered:
  assumes "start X now seeds opts db [] = (Inr sv :: 'e fail + ('db, 'a, 'c) server)" "\<And>cf k. db_get X db cf k = None"
    and "db_ok X" "sign_ok X" "sha256_ok X" "wf_key_pair X (so_minter_key opts)"
    and "length seeds = 4" "list_all (\<lambda>s. length s = SEEDBYTES) seeds"
    and "(node_step X)\<^sup>*\<^sup>* (sv_minter sv) m"
    and "storable b" "n < length (disk_record X b)" "n = 0 \<or> 8 \<le> n"
  shows "\<exists>bs c'. chain_repr X (rp_chain (mt_pool m)) bs \<and>
    and_then (Blockchain_new X db (st_file (bc_store (rp_chain (mt_pool m))) @ take n (disk_record X b)))
      (reindex X later True) = (Inr c' :: block_err fail + _) \<and>
    chain_repr X c' bs \<and> same_index X (bc_db (rp_chain (mt_pool m))) (bc_db c')"
proof -
  obtain c c1 info where g: "empty_node X c" "create_genesis_block X now seeds c (so_minter_key opts) = (Inr (c1, info) :: 'e fail + _)"
    "Minter_new X c1 (so_minter_key opts) (so_enable_stale_production opts) = (Inr (sv_minter sv) :: 'e fail + _)"
    and fits: "storable (genesis_block X now info)" "length (disk_record X (genesis_block X now info)) < 2 ^ 64"
    "wf_account (genesis_owner_wallet info)" "wf_tx (genesis_owner_tx now info)"
    by (rule first_start [OF assms(1-8)])
  show ?thesis by (rule reindex_agrees [OF g(2,1) assms(3) fits g(3) assms(9,2,10-12)])
qed

theorem torn_log_recovered_witness:
  "\<exists>bs c'. chain_repr sample (rp_chain (mt_pool minter3)) bs \<and>
    and_then (Blockchain_new sample [] (st_file (bc_store (rp_chain (mt_pool minter3))) @ take 9 (disk_record sample genesis1)))
      (reindex sample 5000 True) = (Inr c' :: block_err fail + _) \<and>
    chain_repr sample c' bs \<and> same_index sample (bc_db (rp_chain (mt_pool minter3))) (bc_db c')"
  by (rule torn_log_recovered [OF sample_first_start minter3_run genesis1_storable])
    (simp_all add: disk_record_def disk_meta_eq genesis1_length)

end
