(* ===== verification/Wallet_Text.thy ===== *)
theory Wallet_Text
  imports Wif Asset_Text
begin

text \<open>
  The text the wallet reads: the splitting of a typed line, \<open>wallet/parser.rs\<close>, and the textual script
  builder, \<open>wallet/script_builder.rs\<close>.  The iterator over the operations is the list of those left.
\<close>

section \<open>Splitting a line\<close>

record line_state =
  ls_vec :: "string list"
  ls_tmp :: string
  ls_quotes :: bool

definition parse_char :: "line_state \<Rightarrow> char \<Rightarrow> line_state" where
  "parse_char st c =
     (if c = CHR '' '' then
        if ls_quotes st then st\<lparr>ls_tmp := ls_tmp st @ [CHR '' '']\<rparr>
        else if ls_tmp st \<noteq> [] then st\<lparr>ls_vec := ls_vec st @ [ls_tmp st], ls_tmp := []\<rparr>
        else st\<lparr>ls_tmp := []\<rparr>
      else if c = CHR 0x22 then st\<lparr>ls_quotes := \<not> ls_quotes st\<rparr>
      else st\<lparr>ls_tmp := ls_tmp st @ [c]\<rparr>)"

definition parse_line :: "string \<Rightarrow> string list" where
  "parse_line line =
     (let st = foldl parse_char \<lparr>ls_vec = [], ls_tmp = [], ls_quotes = False\<rparr> line
      in if ls_tmp st \<noteq> [] then ls_vec st @ [ls_tmp st] else ls_vec st)"

text \<open>
  A line as its writer means it: words, each made of plain and quoted pieces, behind any number of
  spaces, at least one between two words.
\<close>

datatype piece = Plain (piece_content: string) | Quoted (piece_content: string)

fun piece_text :: "piece \<Rightarrow> string" where
  "piece_text (Plain s) = s"
| "piece_text (Quoted s) = CHR 0x22 # s @ [CHR 0x22]"

fun piece_ok :: "piece \<Rightarrow> bool" where
  "piece_ok (Plain s) \<longleftrightarrow> CHR '' '' \<notin> set s \<and> CHR 0x22 \<notin> set s"
| "piece_ok (Quoted s) \<longleftrightarrow> CHR 0x22 \<notin> set s"

definition word_text :: "piece list \<Rightarrow> string" where
  "word_text w = concat (map piece_text w)"

definition word_content :: "piece list \<Rightarrow> string" where
  "word_content w = concat (map piece_content w)"

definition line_text :: "(nat \<times> piece list) list \<Rightarrow> string" where
  "line_text ws = concat (map (\<lambda>(n, w). replicate (Suc n) (CHR '' '') @ word_text w) ws)"

lemma foldl_parse_plain:
  "CHR 0x22 \<notin> set s \<Longrightarrow> q \<or> CHR '' '' \<notin> set s \<Longrightarrow>
    foldl parse_char \<lparr>ls_vec = v, ls_tmp = t, ls_quotes = q\<rparr> s = \<lparr>ls_vec = v, ls_tmp = t @ s, ls_quotes = q\<rparr>"
  by (induction s arbitrary: t) (auto simp: parse_char_def)

lemma foldl_parse_word:
  "list_all piece_ok w \<Longrightarrow>
    foldl parse_char \<lparr>ls_vec = v, ls_tmp = t, ls_quotes = False\<rparr> (word_text w) =
      \<lparr>ls_vec = v, ls_tmp = t @ word_content w, ls_quotes = False\<rparr>"
proof (induction w arbitrary: t)
  case (Cons p w)
  then show ?case
    by (cases p) (simp_all add: word_text_def word_content_def foldl_parse_plain, simp add: parse_char_def foldl_parse_plain)
qed (simp add: word_text_def word_content_def)

definition flushed :: "string list \<Rightarrow> string \<Rightarrow> string list" where
  "flushed v t = v @ filter (\<lambda>s. s \<noteq> []) [t]"

lemma foldl_parse_spaces:
  "foldl parse_char \<lparr>ls_vec = v, ls_tmp = t, ls_quotes = False\<rparr> (replicate (Suc n) (CHR '' '')) =
    \<lparr>ls_vec = flushed v t, ls_tmp = [], ls_quotes = False\<rparr>"
proof (induction n arbitrary: v t)
  case 0
  then show ?case by (simp add: parse_char_def flushed_def)
next
  case (Suc n)
  have "foldl parse_char \<lparr>ls_vec = v, ls_tmp = t, ls_quotes = False\<rparr> [CHR '' ''] =
      \<lparr>ls_vec = flushed v t, ls_tmp = [], ls_quotes = False\<rparr>"
    by (simp add: parse_char_def flushed_def)
  with Suc [of "flushed v t" "[]"] show ?case by (simp add: flushed_def)
qed

lemma foldl_parse_words:
  "list_all (\<lambda>(n, w). list_all piece_ok w) ws \<Longrightarrow>
    (let st = foldl parse_char \<lparr>ls_vec = v, ls_tmp = t, ls_quotes = False\<rparr> (line_text ws)
     in flushed (ls_vec st) (ls_tmp st)) = flushed v t @ filter (\<lambda>s. s \<noteq> []) (map (word_content \<circ> snd) ws)"
proof (induction ws arbitrary: v t)
  case (Cons x ws)
  obtain n w where x: "x = (n, w)" by (cases x)
  then show ?case
    using Cons.IH [of "flushed v t" "word_content w"] Cons.prems
    by (simp add: line_text_def foldl_parse_spaces foldl_parse_word Let_def del: replicate_Suc)
      (simp add: flushed_def)
qed (simp add: line_text_def)

text \<open>The words come back without their quotes; a word that is empty is lost, quoted or not.\<close>

lemma parse_line_words:
  assumes "list_all piece_ok w" "list_all (\<lambda>(n, w). list_all piece_ok w) ws"
  shows "parse_line (word_text w @ line_text ws) = filter (\<lambda>s. s \<noteq> []) (map word_content (w # map snd ws))"
  using foldl_parse_words [OF assms(2), of "[]" "word_content w"]
  by (auto simp: parse_line_def Let_def foldl_parse_word [OF assms(1)] flushed_def split: if_splits)


section \<open>Unsigned integers\<close>

text \<open>\<open>ParseIntError\<close> with its texts, and \<open>str::parse\<close> at a width of \<open>n\<close> bits.\<close>

datatype int_error_kind = IntEmpty | IntInvalidDigit | IntPosOverflow

fun int_error_text :: "int_error_kind \<Rightarrow> string" where
  "int_error_text IntEmpty = ''cannot parse integer from empty string''"
| "int_error_text IntInvalidDigit = ''invalid digit found in string''"
| "int_error_text IntPosOverflow = ''number too large to fit in target type''"

fun parse_digits :: "nat \<Rightarrow> nat \<Rightarrow> string \<Rightarrow> int_error_kind + nat" where
  "parse_digits n acc [] = Inr acc"
| "parse_digits n acc (c # cs) =
     and_then (ok_or (char_digit c) IntInvalidDigit) (\<lambda>d.
       if 10 * acc + d < 2 ^ n then parse_digits n (10 * acc + d) cs else Inl IntPosOverflow)"

definition parse_uint :: "string \<Rightarrow> int_error_kind + 'a::len word" where
  "parse_uint s =
     (case s of
        [] \<Rightarrow> Inl IntEmpty
      | c # cs \<Rightarrow>
          if s = ''+'' \<or> s = ''-'' then Inl IntInvalidDigit
          else and_then (parse_digits LENGTH('a) 0 (if c = CHR ''+'' then cs else s)) (\<lambda>n. Inr (of_nat n)))"

definition uint_text :: "'a::len word \<Rightarrow> string" where
  "uint_text w = nat_to_string (unat w)"

lemma digits_value_mono: "digits_value acc cs = Some m \<Longrightarrow> acc \<le> m"
proof (induction cs arbitrary: acc)
  case (Cons c cs)
  then obtain d where "digits_value (10 * acc + d) cs = Some m"
    by (auto split: option.splits)
  from Cons.IH [OF this] show ?case by simp
qed simp

lemma parse_digits_value:
  "digits_value acc cs = Some m \<Longrightarrow> m < 2 ^ n \<Longrightarrow> parse_digits n acc cs = Inr m"
proof (induction cs arbitrary: acc)
  case (Cons c cs)
  then obtain d where d: "char_digit c = Some d" "digits_value (10 * acc + d) cs = Some m"
    by (auto split: option.splits)
  show ?case
    using Cons.IH [OF d(2) Cons.prems(2)] digits_value_mono [OF d(2)] d(1) Cons.prems(2) by simp
qed simp

lemma parse_uint_text [simp]: "parse_uint (uint_text w) = Inr (w :: 'a::len word)"
proof -
  let ?s = "nat_to_string (unat w)"
  have plain: "c \<noteq> CHR ''+'' \<and> c \<noteq> CHR ''-''" if "c \<in> set ?s" for c
    using nat_to_string_digits [OF that] by (auto simp: is_digit_def)
  have "parse_digits LENGTH('a) 0 ?s = Inr (unat w)"
    by (rule parse_digits_value) simp_all
  moreover obtain c cs where s: "?s = c # cs" by (cases ?s) simp_all
  ultimately show ?thesis using plain [of c] by (simp add: parse_uint_def uint_text_def)
qed

section \<open>The script builder\<close>

datatype build_error = ExpectedFnDefinition | ScriptSizeOverflow nat | UnknownOp string
  | MissingArgForOp string | WifError wif_error_kind | AssetParseError asset_error_kind | BuildOther string

text \<open>The operations without an argument.\<close>

definition plain_ops :: "(string \<times> op_frame) list" where
  "plain_ops = [
     (''OP_TRANSFER'', OpTransfer), (''OP_DESTROY'', OpDestroy),
     (''OP_FALSE'', FrameFalse), (''OP_TRUE'', FrameTrue),
     (''OP_LOADAMT'', OpLoadAmt), (''OP_LOADREMAMT'', OpLoadRemAmt),
     (''OP_ADD'', OpAdd), (''OP_SUB'', OpSub), (''OP_MUL'', OpMul), (''OP_DIV'', OpDiv),
     (''OP_NOT'', OpNot), (''OP_IF'', OpIf), (''OP_ELSE'', OpElse), (''OP_ENDIF'', OpEndIf),
     (''OP_RETURN'', OpReturn), (''OP_ABORT'', OpAbort),
     (''OP_CHECKPERMS'', OpCheckPerms), (''OP_CHECKPERMSFASTFAIL'', OpCheckPermsFastFail)]"

text \<open>\<open>iter.next()\<close>, where a missing argument is an error, and an integer read from it.\<close>

definition next_arg :: "string \<Rightarrow> string list \<Rightarrow> build_error fail + (string \<times> string list)" where
  "next_arg op iter = (case iter of [] \<Rightarrow> Inl (Err (MissingArgForOp op)) | a # iter \<Rightarrow> Inr (a, iter))"

definition next_uint :: "string \<Rightarrow> string list \<Rightarrow> build_error fail + ('a::len word \<times> string list)" where
  "next_uint op iter =
     and_then (next_arg op iter) (\<lambda>(a, iter).
     and_then (map_err (\<lambda>e. Err (BuildOther (int_error_text e))) (parse_uint a)) (\<lambda>n. Inr (n, iter)))"

text \<open>The frame an operation's text stands for, and the operations left behind its arguments.\<close>

definition parse_op :: "'db ext \<Rightarrow> string \<Rightarrow> string list \<Rightarrow> build_error fail + (op_frame \<times> string list)" where
  "parse_op X op iter =
     (case map_of plain_ops op of
        Some frame \<Rightarrow> Inr (frame, iter)
      | None \<Rightarrow>
          if op = ''OP_ACCOUNTID'' then
            and_then (next_arg op iter) (\<lambda>(a, iter).
            and_then (map_err (map_fail WifError) (AccountId_from_wif X a)) (\<lambda>i. Inr (FrameAccountId i, iter)))
          else if op = ''OP_ASSET'' then
            and_then (next_arg op iter) (\<lambda>(a, iter).
            and_then (map_err (\<lambda>e. Err (AssetParseError e)) (Asset_from_str X a)) (\<lambda>a. Inr (FrameAsset a, iter)))
          else if op = ''OP_CHECKMULTIPERMS'' then
            and_then (next_uint op iter) (\<lambda>(n, iter).
            and_then (next_uint op iter) (\<lambda>(acc_count, iter). Inr (OpCheckMultiPerms n acc_count, iter)))
          else if op = ''OP_CHECKMULTIPERMSFASTFAIL'' then
            and_then (next_uint op iter) (\<lambda>(n, iter).
            and_then (next_uint op iter) (\<lambda>(acc_count, iter). Inr (OpCheckMultiPermsFastFail n acc_count, iter)))
          else if op = ''OP_CHECKTIME'' then
            and_then (next_uint op iter) (\<lambda>(time, iter). Inr (OpCheckTime time, iter))
          else if op = ''OP_CHECKTIMEFASTFAIL'' then
            and_then (next_uint op iter) (\<lambda>(time, iter). Inr (OpCheckTimeFastFail time, iter))
          else Inl (Err (UnknownOp op)))"

lemma next_arg_length: "next_arg op iter = Inr (a, iter') \<Longrightarrow> length iter' \<le> length iter"
  by (auto simp: next_arg_def split: list.splits)

lemma next_uint_length: "next_uint op iter = Inr (n, iter') \<Longrightarrow> length iter' \<le> length iter"
  by (auto simp: next_uint_def and_then_Inr_iff dest: next_arg_length)

lemma parse_op_length: "parse_op X op iter = Inr (frame, iter') \<Longrightarrow> length iter' \<le> length iter"
  by (auto simp: parse_op_def and_then_Inr_iff split: option.splits if_splits dest!: next_arg_length next_uint_length)

text \<open>The loop over the operations: the script builder, the function in work and the next function id,
  which wraps like the \<open>u8\<close> it is.  Pushing a 256th function panics.\<close>

function build_loop :: "'db ext \<Rightarrow> builder \<Rightarrow> fn_builder option \<Rightarrow> u8 \<Rightarrow> string list \<Rightarrow>
    build_error fail + (builder \<times> fn_builder option)" where
  "build_loop X b fnb fn_id [] = Inr (b, fnb)"
| "build_loop X b fnb fn_id (op # iter) =
     (if op = ''OP_DEFINE'' then
        and_then (case fnb of Some f \<Rightarrow> Builder_push b f | None \<Rightarrow> Inr b) (\<lambda>b.
        and_then (FnBuilder_new fn_id (OpDefine [])) (\<lambda>f.
          build_loop X b (Some f) (fn_id + 1) iter))
      else
        (case fnb of
           None \<Rightarrow> Inl (Err ExpectedFnDefinition)
         | Some f \<Rightarrow>
             (case parse_op X op iter of
                Inl e \<Rightarrow> Inl e
              | Inr (frame, iter') \<Rightarrow>
                  and_then (FnBuilder_push f frame) (\<lambda>f. build_loop X b (Some f) fn_id iter'))))"
  by pat_completeness auto
termination
  by (relation "measure (\<lambda>(X, b, fnb, fn_id, iter). length iter)") (auto dest: parse_op_length)

definition build_text :: "'db ext \<Rightarrow> string list \<Rightarrow> build_error fail + script" where
  "build_text X ops =
     and_then (build_loop X Builder_new None 0 ops) (\<lambda>(b, fnb).
     and_then (case fnb of Some f \<Rightarrow> Builder_push b f | None \<Rightarrow> Inr b) (\<lambda>b.
       map_err (\<lambda>n. Err (ScriptSizeOverflow n)) (build b)))"

section \<open>Scripts as text\<close>

text \<open>The text of a frame and of a function, as the builder reads them, and the bytes they compile to.\<close>

fun op_text :: "'db ext \<Rightarrow> op_frame \<Rightarrow> string list" where
  "op_text X (FrameAccountId i) = [''OP_ACCOUNTID'', AccountId_to_wif X i]"
| "op_text X (FrameAsset a) = [''OP_ASSET'', Asset_to_string X a]"
| "op_text X (OpCheckMultiPerms n k) = [''OP_CHECKMULTIPERMS'', uint_text n, uint_text k]"
| "op_text X (OpCheckMultiPermsFastFail n k) = [''OP_CHECKMULTIPERMSFASTFAIL'', uint_text n, uint_text k]"
| "op_text X (OpCheckTime t) = [''OP_CHECKTIME'', uint_text t]"
| "op_text X (OpCheckTimeFastFail t) = [''OP_CHECKTIMEFASTFAIL'', uint_text t]"
| "op_text X frame = [fst (hd (filter (\<lambda>e. snd e = frame) plain_ops))]"

text \<open>The amounts whose text is read back, and the frames a function can hold.\<close>

fun printable :: "'db ext \<Rightarrow> op_frame \<Rightarrow> bool" where
  "printable X (OpDefine args) \<longleftrightarrow> False"
| "printable X (FrameAsset a) \<longleftrightarrow> Asset_from_str X (Asset_to_string X a) = Inr a"
| "printable X _ \<longleftrightarrow> True"

definition fn_text :: "'db ext \<Rightarrow> op_frame list \<Rightarrow> string list" where
  "fn_text X frames = ''OP_DEFINE'' # concat (map (op_text X) frames)"

definition code_of :: "op_frame list \<Rightarrow> bytes" where
  "code_of frames = concat (map (\<lambda>f. projr (frame_code f :: unit fail + bytes)) frames)"

definition compiled :: "u8 \<Rightarrow> op_frame list \<Rightarrow> fn_builder" where
  "compiled fn_id frames = \<lparr>fb_id = fn_id, byte_code = [operand_byte operand.OpDefine, 0] @ code_of frames\<rparr>"

primrec compile_fns :: "u8 \<Rightarrow> op_frame list list \<Rightarrow> fn_builder list" where
  "compile_fns fn_id [] = []"
| "compile_fns fn_id (frames # fns) = compiled fn_id frames # compile_fns (fn_id + 1) fns"

lemma parse_op_text:
  assumes "wif_libs X" "printable X frame"
  shows "\<exists>op args. op_text X frame = op # args \<and> op \<noteq> ''OP_DEFINE'' \<and>
    (\<forall>rest. parse_op X op (args @ rest) = Inr (frame, rest))"
  using assms(2) account_wif.from_to [OF assms(1)]
  by (cases frame)
    (simp_all add: plain_ops_def parse_op_def next_arg_def next_uint_def and_then_def map_err_def)

lemma FnBuilder_push_printable:
  "printable X frame \<Longrightarrow> FnBuilder_push f frame = (Inr (f\<lparr>byte_code := byte_code f @ code_of [frame]\<rparr>) :: 'e fail + _)"
  by (cases frame) (simp_all add: FnBuilder_push_def code_of_def)

lemma build_loop_body:
  assumes "wif_libs X"
  shows "list_all (printable X) frames \<Longrightarrow>
    build_loop X b (Some f) fn_id (concat (map (op_text X) frames) @ rest) =
      build_loop X b (Some (f\<lparr>byte_code := byte_code f @ code_of frames\<rparr>)) fn_id rest"
proof (induction frames arbitrary: f)
  case (Cons frame frames)
  then have p: "printable X frame" by simp
  obtain op args where t: "op_text X frame = op # args" "op \<noteq> ''OP_DEFINE''"
    "parse_op X op (args @ rest) = Inr (frame, rest)" for rest
    using parse_op_text [OF assms p] by metis
  then show ?case
    using Cons by (simp add: FnBuilder_push_printable [OF p]) (simp add: code_of_def)
qed (simp add: code_of_def)

definition push_pending :: "builder \<Rightarrow> fn_builder option \<Rightarrow> 'e fail + builder" where
  "push_pending b fnb = (case fnb of Some f \<Rightarrow> Builder_push b f | None \<Rightarrow> Inr b)"

lemma build_loop_fns:
  assumes "wif_libs X"
  shows "list_all (list_all (printable X)) fns \<Longrightarrow>
    and_then (build_loop X b fnb fn_id (concat (map (fn_text X) fns))) (\<lambda>(b, fnb). push_pending b fnb) =
      and_then (push_pending b fnb) (\<lambda>b. Builder_push_all b (compile_fns fn_id fns))"
proof (induction fns arbitrary: b fnb fn_id)
  case Nil
  then show ?case by (simp add: and_then_def split: sum.splits)
next
  case (Cons frames fns)
  note IH = Cons.IH [where fnb = "Some (compiled fn_id frames)" and fn_id = "fn_id + 1"]
  show ?case
  proof (cases "push_pending b fnb :: build_error fail + builder")
    case (Inr b')
    then show ?thesis
      using Cons.prems IH [of b']
      by (simp add: fn_text_def FnBuilder_new_def build_loop_body [OF assms] compiled_def flip: push_pending_def)
        (simp add: push_pending_def compiled_def)
  qed (use Cons.prems in \<open>simp add: fn_text_def flip: push_pending_def\<close>)
qed

lemma build_text_eq:
  assumes "wif_libs X" "list_all (list_all (printable X)) fns"
  shows "build_text X (concat (map (fn_text X) fns)) =
    and_then (Builder_push_all Builder_new (compile_fns 0 fns)) (\<lambda>b. map_err (\<lambda>n. Err (ScriptSizeOverflow n)) (build b))"
proof -
  have "build_text X ops = and_then (and_then (build_loop X Builder_new None 0 ops) (\<lambda>(b, fnb). push_pending b fnb))
      (\<lambda>b. map_err (\<lambda>n. Err (ScriptSizeOverflow n)) (build b))" for ops
    by (simp add: build_text_def push_pending_def and_then_def split: sum.splits)
  moreover have "push_pending Builder_new None = (Inr Builder_new :: build_error fail + _)"
    by (simp add: push_pending_def)
  ultimately show ?thesis by (simp add: build_loop_fns [OF assms] del: and_then_assoc)
qed

text \<open>The size of the script, and where the pointer of each function leads.\<close>

definition script_size :: "op_frame list list \<Rightarrow> nat" where
  "script_size fns = 1 + sum_list (map (\<lambda>frames. 7 + length (code_of frames)) fns)"

lemma length_compile_fns [simp]: "length (compile_fns fn_id fns) = length fns"
  by (induction fns arbitrary: fn_id) simp_all

lemma compile_fns_size:
  "5 * length fns + length (concat (map byte_code (compile_fns fn_id fns))) + 1 = script_size fns"
  by (induction fns arbitrary: fn_id) (simp_all add: script_size_def compiled_def)

lemma compile_fns_split:
  assumes "i < length fns"
  shows "compile_fns fn_id fns =
    compile_fns fn_id (take i fns) @ compiled (fn_id + of_nat i) (fns ! i) #
      compile_fns (fn_id + of_nat i + 1) (drop (Suc i) fns)"
  using assms
proof (induction fns arbitrary: fn_id i)
  case (Cons f fns)
  then show ?case
    by (cases i) (simp_all add: add.commute add.left_commute)
qed simp

lemma compile_fns_ids:
  "f \<in> set (compile_fns fn_id fns) \<Longrightarrow> \<exists>j < length fns. fb_id f = fn_id + of_nat j"
proof (induction fns arbitrary: fn_id)
  case (Cons g fns)
  show ?case
  proof (cases "f = compiled fn_id g")
    case True
    then show ?thesis by (intro exI [of _ 0]) (simp add: compiled_def)
  next
    case False
    then obtain j where "j < length fns" "fb_id f = fn_id + 1 + of_nat j"
      using Cons by auto
    then show ?thesis by (intro exI [of _ "Suc j"]) simp
  qed
qed simp

lemma Builder_push_all_ok:
  "length (lookup_table b) + length fs \<le> 255 \<Longrightarrow> \<exists>b'. Builder_push_all b fs = (Inr b' :: 'e fail + _)"
proof (induction fs arbitrary: b)
  case (Cons f fs)
  then show ?case by (simp add: Builder_push_def Let_def)
qed simp

lemma build_text_compiles:
  assumes "wif_libs X" "list_all (list_all (printable X)) fns" "length fns \<le> 255"
  shows "if script_size fns > 2048 then build_text X (concat (map (fn_text X) fns)) = Inl (Err (ScriptSizeOverflow (script_size fns)))
    else \<exists>scr. build_text X (concat (map (fn_text X) fns)) = Inr scr \<and> length scr = script_size fns \<and>
      (\<forall>i < length fns. \<exists>ptr. get_fn_ptr scr (of_nat i) = Inr (Some ptr) \<and>
        take (2 + length (code_of (fns ! i))) (drop (unat ptr) scr) =
          [operand_byte operand.OpDefine, 0] @ code_of (fns ! i))"
proof -
  let ?fs = "compile_fns 0 fns"
  obtain b where b: "Builder_push_all Builder_new ?fs = (Inr b :: build_error fail + _)"
    using Builder_push_all_ok [of Builder_new ?fs] assms(3) by (auto simp: Builder_new_def)
  from Builder_push_all_result [OF this] have r: "length (lookup_table b) = length fns" "body b = concat (map byte_code ?fs)"
    by (simp_all add: Builder_new_def)
  have size: "1 + length (lookup_table b) * 5 + length (body b) = script_size fns"
    using compile_fns_size [of fns 0] by (simp add: r)
  note eq = build_text_eq [OF assms(1,2), unfolded b and_then_simps]
  show ?thesis
  proof (cases "script_size fns > 2048")
    case True
    then have "build b = Inl (script_size fns)"
      using size by (simp add: build_def Let_def MAX_SCRIPT_BYTE_SIZE_def)
    then show ?thesis using True by (simp add: eq map_err_def)
  next
    case False
    then obtain scr where scr: "build b = Inr scr"
      using size by (simp add: build_def Let_def MAX_SCRIPT_BYTE_SIZE_def)
    have "\<exists>ptr. get_fn_ptr scr (of_nat i) = Inr (Some ptr) \<and>
        take (2 + length (code_of (fns ! i))) (drop (unat ptr) scr) =
          [operand_byte operand.OpDefine, 0] @ code_of (fns ! i)" if i: "i < length fns" for i
    proof -
      let ?pre = "compile_fns 0 (take i fns)" and ?f = "compiled (of_nat i) (fns ! i)"
      have "fb_id ?f \<notin> fb_id ` set ?pre"
      proof
        assume "fb_id ?f \<in> fb_id ` set ?pre"
        then obtain j where "j < i" "(of_nat i :: u8) = of_nat j"
          by (auto simp: compiled_def dest!: compile_fns_ids)
        moreover have "unat (of_nat k :: u8) = k" if "k < 255" for k
          using that by (simp add: unat_of_nat)
        ultimately show False using i assms(3) by (metis less_imp_le_nat less_irrefl less_le_trans)
      qed
      then obtain ptr where "get_fn_ptr scr (fb_id ?f) = Inr (Some ptr)"
        "drop (unat ptr) scr = byte_code ?f @ concat (map byte_code (compile_fns (of_nat i + 1) (drop (Suc i) fns)))"
        using built_function_found [where pre = ?pre and f = ?f, OF _ scr] b compile_fns_split [OF i, of 0] by fastforce
      then show ?thesis by (simp add: compiled_def)
    qed
    moreover have "length scr = script_size fns"
      using build_shape(3) [OF b scr] compile_fns_size [of fns 0] by simp
    ultimately show ?thesis using False by (simp add: eq scr map_err_def)
  qed
qed

end
