(* ===== verification/Wallet_Db.thy ===== *)
theory Wallet_Db
  imports Wallet_Text Indexes
begin

text \<open>
  The wallet's database, \<open>wallet/db/mod.rs\<close> and \<open>wallet/db/crypto.rs\<close>: accounts under encrypted names,
  behind a key that is itself stored encrypted under the password.  Randomness (nonces, the salt, a fresh
  key) is an argument of the operation that draws it.  A Rust \<open>String\<close> is the list of its UTF-8 bytes as
  characters.
\<close>

section \<open>The libraries\<close>

text \<open>
  What the wallet calls outside the repository: libsodium's \<open>secretbox\<close> (message, nonce, key), the
  Argon2id key derivation at the moderate limits (password, salt), and the hexadecimal codec, which
  decodes into a buffer of a given length.
\<close>

record wallet_ext =
  sb_seal :: "bytes \<Rightarrow> bytes \<Rightarrow> bytes \<Rightarrow> bytes"
  sb_open :: "bytes \<Rightarrow> bytes \<Rightarrow> bytes \<Rightarrow> bytes option"
  derive_key :: "bytes \<Rightarrow> bytes \<Rightarrow> bytes option"
  hex_string :: "bytes \<Rightarrow> string"
  hex_decode :: "string \<Rightarrow> nat \<Rightarrow> bytes option"

definition SALTBYTES :: nat where "SALTBYTES = 16"
definition KEYBYTES :: nat where "KEYBYTES = 32"
definition NONCEBYTES :: nat where "NONCEBYTES = 24"

definition secretbox_ok :: "wallet_ext \<Rightarrow> bool" where
  "secretbox_ok W \<longleftrightarrow> (\<forall>m n k. length n = NONCEBYTES \<longrightarrow> length k = KEYBYTES \<longrightarrow> sb_open W (sb_seal W m n k) n k = Some m)"

definition derive_ok :: "wallet_ext \<Rightarrow> bool" where
  "derive_ok W \<longleftrightarrow> (\<forall>p s. \<exists>k. derive_key W p s = Some k \<and> length k = KEYBYTES)"

section \<open>Encryption\<close>

definition encrypt_with_key :: "wallet_ext \<Rightarrow> bytes \<Rightarrow> bytes \<Rightarrow> bytes \<Rightarrow> bytes" where
  "encrypt_with_key W nc msg k = nc @ sb_seal W msg nc k"

definition decrypt_with_key :: "wallet_ext \<Rightarrow> bytes \<Rightarrow> bytes \<Rightarrow> 'e fail + bytes option" where
  "decrypt_with_key W msg k =
     (if length msg < NONCEBYTES then Inl Panic
      else Inr (sb_open W (drop NONCEBYTES msg) (take NONCEBYTES msg) k))"

lemma decrypt_encrypt:
  assumes "secretbox_ok W" "length nc = NONCEBYTES" "length k = KEYBYTES"
  shows "decrypt_with_key W (encrypt_with_key W nc msg k) k = Inr (Some msg)"
  using assms by (simp add: decrypt_with_key_def encrypt_with_key_def secretbox_ok_def)

section \<open>Accounts\<close>

record wallet_account =
  wa_id :: account_id
  wa_keys :: "key_pair list"

definition WalletAccount_serialize :: "'db ext \<Rightarrow> wallet_account \<Rightarrow> bytes" where
  "WalletAccount_serialize X self =
     push_u64 (wa_id self) @ push_u16 (of_nat (length (wa_keys self))) @
     concat (map (\<lambda>k. push_bytes (ascii (PrivateKey_to_wif X (kp_private k)))) (wa_keys self))"

definition from_utf8 :: "bytes \<Rightarrow> string option" where
  "from_utf8 bs = (if utf8_valid bs then Some (map (\<lambda>b. char_of (unat b)) bs) else None)"

definition take_wallet_key :: "'db ext \<Rightarrow> bytes \<Rightarrow> 'e fail + (key_pair \<times> bytes)" where
  "take_wallet_key X cur =
     and_then (unwrap (ok (take_bytes cur))) (\<lambda>(bs, cur).
     and_then (unwrap (from_utf8 bs)) (\<lambda>wif.
     and_then (unwrap (ok (PrivateKey_from_wif X wif))) (\<lambda>k. Inr (k, cur))))"

definition WalletAccount_deserialize :: "'db ext \<Rightarrow> bytes \<Rightarrow> 'e fail + wallet_account" where
  "WalletAccount_deserialize X cur =
     and_then (unwrap (ok (take_u64 cur))) (\<lambda>(i, cur).
     and_then (unwrap (ok (take_u16 cur))) (\<lambda>(key_len, cur).
     and_then (take_many (take_wallet_key X) (unat key_len) cur) (\<lambda>(ks, cur).
       Inr \<lparr>wa_id = i, wa_keys = ks\<rparr>)))"

text \<open>An account the wallet can store: its key count fits the length field and its keys have texts.\<close>

definition key_storable :: "'db ext \<Rightarrow> key_pair \<Rightarrow> bool" where
  "key_storable X k \<longleftrightarrow> wf_key_pair X k \<and> utf8_valid (ascii (PrivateKey_to_wif X (kp_private k))) \<and>
     wf_bytes (ascii (PrivateKey_to_wif X (kp_private k)))"

definition account_storable :: "'db ext \<Rightarrow> wallet_account \<Rightarrow> bool" where
  "account_storable X a \<longleftrightarrow> length (wa_keys a) < 2 ^ 16 \<and> list_all (key_storable X) (wa_keys a)"

lemma char_of_word [simp]: "char_of (unat (of_char c :: u8)) = c"
proof -
  have "(of_char c :: u8) = of_nat (of_char c)" by (rule of_nat_of_char [symmetric])
  moreover have "of_char c < (256 :: nat)" by simp
  ultimately show ?thesis by (simp only: unat_of_nat) (simp add: take_bit_nat_eq_self)
qed

lemma from_utf8_ascii: "utf8_valid (ascii s) \<Longrightarrow> from_utf8 (ascii s) = Some s"
  by (simp add: from_utf8_def ascii_def comp_def)

lemma wallet_account_roundtrip:
  assumes "wif_libs X" "account_storable X a"
  shows "WalletAccount_deserialize X (WalletAccount_serialize X a) = (Inr a :: 'e fail + _)"
proof -
  have keys: "take_many (take_wallet_key X) (length ks)
      (concat (map (\<lambda>k. push_bytes (ascii (PrivateKey_to_wif X (kp_private k)))) ks)) = (Inr (ks, []) :: 'e fail + _)"
    if "list_all (key_storable X) ks" for ks
    using that
    by (induction ks) (simp_all add: take_wallet_key_def key_storable_def from_utf8_ascii bytes_codec.io_roundtrip
        private_key_wif.from_to [OF assms(1)])
  have n: "unat (of_nat (length (wa_keys a)) :: u16) = length (wa_keys a)"
    using assms(2) by (simp add: account_storable_def unat_of_nat)
  show ?thesis
    using keys [of "wa_keys a"] assms(2)
    by (simp add: WalletAccount_deserialize_def WalletAccount_serialize_def account_storable_def n)
qed

section \<open>The database\<close>

datatype db_state = New | Locked | Unlocked

record 'db wallet_db =
  wd_state :: db_state
  wd_db :: 'db
  wd_key :: "bytes option"

definition CF_ACCOUNTS :: string where "CF_ACCOUNTS = ''accounts''"
definition PROP_INIT :: bytes where "PROP_INIT = ascii ''init''"

definition Db_new :: "'db ext \<Rightarrow> 'db \<Rightarrow> 'db wallet_db" where
  "Db_new X db =
     \<lparr>wd_state = (if db_get X db CF_DEFAULT PROP_INIT \<noteq> None then Locked else New), wd_db = db, wd_key = None\<rparr>"

definition Db_lock :: "'db wallet_db \<Rightarrow> 'db wallet_db" where
  "Db_lock self = self\<lparr>wd_state := Locked, wd_key := None\<rparr>"

text \<open>\<open>set_password\<close> with the salt, the nonce and the fresh key it draws.\<close>

definition set_password :: "wallet_ext \<Rightarrow> 'db ext \<Rightarrow> bytes \<Rightarrow> bytes \<Rightarrow> bytes \<Rightarrow> bytes \<Rightarrow> 'db wallet_db \<Rightarrow> 'e fail + 'db wallet_db" where
  "set_password W X salt nc gen_key pass self =
     (if \<not> (wd_state self = New \<or> wd_state self = Unlocked) then Inl Panic
      else
        and_then (unwrap (derive_key W pass salt)) (\<lambda>temp_key.
        and_then (case wd_state self of
                    New \<Rightarrow> Inr gen_key
                  | Unlocked \<Rightarrow> unwrap (wd_key self)
                  | Locked \<Rightarrow> Inl Panic) (\<lambda>perm_key_dec.
        let perm_key = encrypt_with_key W nc perm_key_dec temp_key
        in Inr (Db_lock (self\<lparr>wd_db := db_write X (wd_db self) [PutCf CF_DEFAULT PROP_INIT (salt @ perm_key)]\<rparr>)))))"

definition Db_unlock :: "wallet_ext \<Rightarrow> 'db ext \<Rightarrow> bytes \<Rightarrow> 'db wallet_db \<Rightarrow> 'e fail + (bool \<times> 'db wallet_db)" where
  "Db_unlock W X pass self =
     (if wd_state self \<noteq> Locked then Inl Panic
      else
        and_then (unwrap (db_get X (wd_db self) CF_DEFAULT PROP_INIT)) (\<lambda>init_bytes.
        if length init_bytes < SALTBYTES then Inl Panic
        else
          and_then (unwrap (derive_key W pass (take SALTBYTES init_bytes))) (\<lambda>temp_key.
          and_then (decrypt_with_key W (drop SALTBYTES init_bytes) temp_key) (\<lambda>dec.
            case dec of
              None \<Rightarrow> Inr (False, self)
            | Some k \<Rightarrow>
                if length k \<noteq> KEYBYTES then Inl Panic
                else Inr (True, self\<lparr>wd_key := Some k, wd_state := Unlocked\<rparr>)))))"

text \<open>The name under which an entry is stored, and a whole entry.\<close>

definition entry_name :: "wallet_ext \<Rightarrow> bytes \<Rightarrow> bytes \<Rightarrow> 'e fail + string" where
  "entry_name W secret k =
     and_then (decrypt_with_key W k secret) (\<lambda>dec_key.
     and_then (unwrap dec_key) (\<lambda>dec_key. unwrap (from_utf8 dec_key)))"

definition read_entry :: "wallet_ext \<Rightarrow> 'db ext \<Rightarrow> bytes \<Rightarrow> bytes \<times> bytes \<Rightarrow> 'e fail + (string \<times> wallet_account)" where
  "read_entry W X secret e =
     and_then (entry_name W secret (fst e)) (\<lambda>dec_key.
     and_then (decrypt_with_key W (snd e) secret) (\<lambda>dec_val.
     and_then (unwrap dec_val) (\<lambda>dec_val.
     and_then (WalletAccount_deserialize X dec_val) (\<lambda>dec_val. Inr (dec_key, dec_val)))))"

primrec read_entries :: "wallet_ext \<Rightarrow> 'db ext \<Rightarrow> bytes \<Rightarrow> (bytes \<times> bytes) list \<Rightarrow> 'e fail + (string \<times> wallet_account) list" where
  "read_entries W X secret [] = Inr []"
| "read_entries W X secret (e # es) =
     and_then (read_entry W X secret e) (\<lambda>a.
     and_then (read_entries W X secret es) (\<lambda>as. Inr (a # as)))"

definition get_accounts :: "wallet_ext \<Rightarrow> 'db ext \<Rightarrow> 'db wallet_db \<Rightarrow> 'e fail + (string \<times> wallet_account) list" where
  "get_accounts W X self =
     and_then (unwrap (wd_key self)) (\<lambda>secret.
       read_entries W X secret (db_iter X (wd_db self) CF_ACCOUNTS))"

definition Db_get_account :: "wallet_ext \<Rightarrow> 'db ext \<Rightarrow> string \<Rightarrow> 'db wallet_db \<Rightarrow> 'e fail + wallet_account option" where
  "Db_get_account W X account self =
     and_then (get_accounts W X self) (\<lambda>accs. Inr (map_option snd (find (\<lambda>(acc, pair). acc = account) accs)))"

text \<open>\<open>set_account\<close> with the two nonces it draws.\<close>

definition Db_set_account :: "wallet_ext \<Rightarrow> 'db ext \<Rightarrow> bytes \<Rightarrow> bytes \<Rightarrow> string \<Rightarrow> wallet_account \<Rightarrow> 'db wallet_db \<Rightarrow> 'e fail + 'db wallet_db" where
  "Db_set_account W X nc1 nc2 name account self =
     and_then (unwrap (wd_key self)) (\<lambda>secret.
     let enc_key = encrypt_with_key W nc1 (ascii name) secret;
         enc_value = encrypt_with_key W nc2 (WalletAccount_serialize X account) secret
     in Inr (self\<lparr>wd_db := db_write X (wd_db self) [PutCf CF_ACCOUNTS enc_key enc_value]\<rparr>))"

primrec find_entry :: "wallet_ext \<Rightarrow> bytes \<Rightarrow> string \<Rightarrow> (bytes \<times> bytes) list \<Rightarrow> 'e fail + bytes option" where
  "find_entry W secret name [] = Inr None"
| "find_entry W secret name (e # es) =
     and_then (entry_name W secret (fst e)) (\<lambda>dec_key.
       if dec_key = name then Inr (Some (fst e)) else find_entry W secret name es)"

definition Db_del_account :: "wallet_ext \<Rightarrow> 'db ext \<Rightarrow> string \<Rightarrow> 'db wallet_db \<Rightarrow> 'e fail + (bool \<times> 'db wallet_db)" where
  "Db_del_account W X name self =
     and_then (unwrap (wd_key self)) (\<lambda>secret.
     and_then (find_entry W secret name (db_iter X (wd_db self) CF_ACCOUNTS)) (\<lambda>found.
       case found of
         Some k \<Rightarrow> Inr (True, self\<lparr>wd_db := db_write X (wd_db self) [DeleteCf CF_ACCOUNTS k]\<rparr>)
       | None \<Rightarrow> Inr (False, self)))"

section \<open>Accounts as a map\<close>

text \<open>
  A store holds the accounts of a map: each entry reads as an account of the map, and each account has
  exactly one entry.
\<close>

definition holds :: "wallet_ext \<Rightarrow> 'db ext \<Rightarrow> bytes \<Rightarrow> 'db \<Rightarrow> (string \<Rightarrow> wallet_account option) \<Rightarrow> bool" where
  "holds W X secret db m \<longleftrightarrow>
     (\<forall>k v. db_get X db CF_ACCOUNTS k = Some v \<longrightarrow>
        (\<exists>n a. read_entry W X secret (k, v) = (Inr (n, a) :: unit fail + _) \<and> m n = Some a)) \<and>
     (\<forall>n a. m n = Some a \<longrightarrow>
        (\<exists>!k. \<exists>v. db_get X db CF_ACCOUNTS k = Some v \<and> entry_name W secret k = (Inr n :: unit fail + _)))"

lemma decrypt_retype:
  "(decrypt_with_key W k secret = (Inr n :: 'e fail + _)) = (decrypt_with_key W k secret = (Inr n :: 'f fail + _))"
  by (simp add: decrypt_with_key_def)

lemma entry_name_retype:
  "(entry_name W secret k = (Inr n :: 'e fail + _)) = (entry_name W secret k = (Inr n :: 'f fail + _))"
  by (simp add: entry_name_def fallible_iffs decrypt_retype [where 'e = 'e and 'f = 'f])

lemma take_many_retype:
  assumes "\<And>cur r. (f cur = (Inr r :: 'e + _)) = (g cur = (Inr r :: 'f + _))"
  shows "(take_many f n cur = (Inr r :: 'e + _)) = (take_many g n cur = (Inr r :: 'f + _))"
  by (induction n arbitrary: cur r) (auto simp: and_then_Inr_iff assms)

lemma deserialize_retype:
  "(WalletAccount_deserialize X cur = (Inr a :: 'e fail + _)) = (WalletAccount_deserialize X cur = (Inr a :: 'f fail + _))"
proof -
  have "(take_wallet_key X cur = (Inr r :: 'e fail + _)) = (take_wallet_key X cur = (Inr r :: 'f fail + _))" for cur r
    by (auto simp: take_wallet_key_def fallible_iffs)
  from take_many_retype [OF this] show ?thesis
    by (simp add: WalletAccount_deserialize_def fallible_iffs split_beta)
qed

lemma read_entry_retype:
  "(read_entry W X secret e = (Inr r :: 'e fail + _)) = (read_entry W X secret e = (Inr r :: 'f fail + _))"
  unfolding read_entry_def fallible_iffs
  by (simp add: entry_name_retype [where 'e = 'e and 'f = 'f] decrypt_retype [where 'e = 'e and 'f = 'f]
      deserialize_retype [where 'e = 'e and 'f = 'f])

lemma read_entry_name:
  "read_entry W X secret (k, v) = (Inr (n, a) :: 'e fail + _) \<Longrightarrow> entry_name W secret k = (Inr n :: 'e fail + _)"
  by (auto simp: read_entry_def fallible_iffs)

lemma holds_entry:
  assumes "holds W X secret db m" "db_get X db CF_ACCOUNTS k = Some v"
  obtains n a where "read_entry W X secret (k, v) = (Inr (n, a) :: 'e fail + _)" "m n = Some a"
proof -
  obtain n a where "read_entry W X secret (k, v) = (Inr (n, a) :: unit fail + _)" "m n = Some a"
    using assms unfolding holds_def by blast
  from that [OF this(1) [unfolded read_entry_retype [where 'e = unit and 'f = 'e]] this(2)] show ?thesis .
qed

lemma holds_stored:
  assumes "holds W X secret db m" "m n = Some a"
  obtains k v where "db_get X db CF_ACCOUNTS k = Some v" "entry_name W secret k = (Inr n :: 'e fail + _)"
    "\<And>k' v'. db_get X db CF_ACCOUNTS k' = Some v' \<Longrightarrow> entry_name W secret k' = (Inr n :: 'e fail + _) \<Longrightarrow> k' = k"
proof -
  have "\<exists>!k. \<exists>v. db_get X db CF_ACCOUNTS k = Some v \<and> entry_name W secret k = (Inr n :: unit fail + _)"
    using assms unfolding holds_def by blast
  then have "\<exists>!k. \<exists>v. db_get X db CF_ACCOUNTS k = Some v \<and> entry_name W secret k = (Inr n :: 'e fail + _)"
    by (simp add: entry_name_retype [where 'e = unit and 'f = 'e])
  then show ?thesis using that by blast
qed

lemma read_entries_all:
  "list_all (\<lambda>e. \<exists>r. read_entry W X secret e = (Inr r :: 'e fail + _)) es \<Longrightarrow>
    \<exists>accs. read_entries W X secret es = (Inr accs :: 'e fail + _) \<and> (\<forall>r. r \<in> set accs \<longleftrightarrow> (\<exists>e \<in> set es. read_entry W X secret e = (Inr r :: 'e fail + _)))"
  by (induction es) auto

lemma holds_list:
  assumes "db_ok X" "holds W X secret db m"
  shows "\<exists>accs. read_entries W X secret (db_iter X db CF_ACCOUNTS) = (Inr accs :: 'e fail + _) \<and>
    (\<forall>n a. (n, a) \<in> set accs \<longleftrightarrow> m n = Some a)"
proof -
  let ?es = "db_iter X db CF_ACCOUNTS"
  have entry: "\<exists>n a. read_entry W X secret e = (Inr (n, a) :: 'e fail + _) \<and> m n = Some a" if "e \<in> set ?es" for e
  proof -
    obtain k v where e: "e = (k, v)" by (cases e)
    then have "db_get X db CF_ACCOUNTS k = Some v" using that by (simp add: db_iter_iff [OF assms(1)])
    from holds_entry [OF assms(2) this] show ?thesis unfolding e by metis
  qed
  then have "list_all (\<lambda>e. \<exists>r. read_entry W X secret e = (Inr r :: 'e fail + _)) ?es"
    unfolding list_all_iff by blast
  from read_entries_all [OF this] obtain accs where accs: "read_entries W X secret ?es = (Inr accs :: 'e fail + _)"
    "\<And>r. r \<in> set accs \<longleftrightarrow> (\<exists>e \<in> set ?es. read_entry W X secret e = (Inr r :: 'e fail + _))"
    by blast
  have "(n, a) \<in> set accs \<longleftrightarrow> m n = Some a" for n a
  proof
    assume "(n, a) \<in> set accs"
    then show "m n = Some a" using accs(2) entry by fastforce
  next
    assume m: "m n = Some a"
    obtain k v where k: "db_get X db CF_ACCOUNTS k = Some v" "entry_name W secret k = (Inr n :: 'e fail + _)"
      by (rule holds_stored [OF assms(2) m])
    obtain n' a' where r: "read_entry W X secret (k, v) = (Inr (n', a') :: 'e fail + _)" "m n' = Some a'"
      by (rule holds_entry [OF assms(2) k(1)])
    have "n' = n" "a' = a" using read_entry_name [OF r(1)] k(2) r(2) m by auto
    then show "(n, a) \<in> set accs" using accs(2) r(1) k(1) by (force simp: db_iter_iff [OF assms(1)])
  qed
  with accs(1) show ?thesis by blast
qed

lemma find_functional:
  assumes "\<And>n a. (n, a) \<in> set xs \<longleftrightarrow> m n = Some a"
  shows "map_option snd (find (\<lambda>(n', a). n' = n) xs) = m n"
proof (cases "find (\<lambda>(n', a). n' = n) xs")
  case None
  then have "m n \<noteq> Some a" for a using assms [of n a] by (auto simp: find_None_iff)
  then show ?thesis using None by (cases "m n") auto
next
  case (Some r)
  then have "r \<in> set xs \<and> fst r = n" by (auto simp: find_Some_iff) (metis nth_mem)
  then show ?thesis using Some assms [of n "snd r"] by auto
qed

lemma find_entry_all:
  assumes "list_all (\<lambda>e. \<exists>n. entry_name W secret (fst e) = (Inr n :: 'e fail + _)) es"
  shows "\<exists>r. find_entry W secret name es = (Inr r :: 'e fail + _) \<and>
    (case r of
       None \<Rightarrow> \<forall>e \<in> set es. entry_name W secret (fst e) \<noteq> (Inr name :: 'e fail + _)
     | Some k \<Rightarrow> \<exists>v. (k, v) \<in> set es \<and> entry_name W secret k = (Inr name :: 'e fail + _))"
  using assms
proof (induction es)
  case (Cons e es)
  then obtain n r where "entry_name W secret (fst e) = (Inr n :: 'e fail + _)"
    "find_entry W secret name es = (Inr r :: 'e fail + _)"
    "case r of
       None \<Rightarrow> \<forall>e \<in> set es. entry_name W secret (fst e) \<noteq> (Inr name :: 'e fail + _)
     | Some k \<Rightarrow> \<exists>v. (k, v) \<in> set es \<and> entry_name W secret k = (Inr name :: 'e fail + _)"
    by auto
  then show ?case by (cases e; cases "n = name"; cases r) auto
qed simp

section \<open>The interface of the accounts\<close>

text \<open>
  What the wallet's commands rely on: \<open>repr s m\<close> says that the state holds the accounts \<open>m\<close>;
  listing and looking up agree with \<open>m\<close>, a new account is added under a fresh draw \<open>r\<close>, a deletion
  says whether there was something to delete.
\<close>

locale account_book =
  fixes repr :: "'s \<Rightarrow> (string \<Rightarrow> wallet_account option) \<Rightarrow> bool"
    and listing :: "'s \<Rightarrow> 'e fail + (string \<times> wallet_account) list"
    and lookup :: "string \<Rightarrow> 's \<Rightarrow> 'e fail + wallet_account option"
    and good :: "'r \<Rightarrow> string \<Rightarrow> wallet_account \<Rightarrow> 's \<Rightarrow> bool"
    and add :: "'r \<Rightarrow> string \<Rightarrow> wallet_account \<Rightarrow> 's \<Rightarrow> 'e fail + 's"
    and remove :: "string \<Rightarrow> 's \<Rightarrow> 'e fail + (bool \<times> 's)"
    and libs :: bool
  assumes listing_law: "libs \<Longrightarrow> repr s m \<Longrightarrow> \<exists>accs. listing s = Inr accs \<and> (\<forall>n a. (n, a) \<in> set accs \<longleftrightarrow> m n = Some a)"
    and lookup_law: "libs \<Longrightarrow> repr s m \<Longrightarrow> lookup n s = Inr (m n)"
    and add_law: "libs \<Longrightarrow> repr s m \<Longrightarrow> m n = None \<Longrightarrow> good r n a s \<Longrightarrow> \<exists>s'. add r n a s = Inr s' \<and> repr s' (m(n \<mapsto> a))"
    and remove_law: "libs \<Longrightarrow> repr s m \<Longrightarrow> \<exists>s'. remove n s = Inr (m n \<noteq> None, s') \<and> repr s' (m(n := None))"
begin

lemma repr_unique: "libs \<Longrightarrow> repr s m \<Longrightarrow> repr s m' \<Longrightarrow> m = m'"
  using lookup_law by (metis ext sum.inject(2))

lemma added_found:
  assumes "libs" "repr s m" "m n = None" "good r n a s"
  shows "\<exists>s'. add r n a s = Inr s' \<and> lookup n s' = Inr (Some a) \<and> (\<forall>n'. n' \<noteq> n \<longrightarrow> lookup n' s' = lookup n' s)"
  using add_law [OF assms] lookup_law [OF assms(1)] assms(2) by fastforce

lemma removed_gone:
  assumes "libs" "repr s m"
  shows "\<exists>s'. remove n s = Inr (m n \<noteq> None, s') \<and> lookup n s' = Inr None \<and>
    (\<exists>s''. remove n s' = Inr (False, s'') \<and> repr s'' (m(n := None)))"
proof -
  obtain s' where s: "remove n s = Inr (m n \<noteq> None, s')" "repr s' (m(n := None))"
    using remove_law [OF assms] by blast
  show ?thesis
    using s lookup_law [OF assms(1) s(2)] remove_law [OF assms(1) s(2), of n] by fastforce
qed

text \<open>The check of an import: no listed account has the name or the address.\<close>

lemma listing_unused:
  assumes "libs" "repr s m"
  shows "\<exists>accs. listing s = Inr accs \<and>
    (find (\<lambda>(n', a). n' = n \<or> wa_id a = i) accs = None \<longleftrightarrow> m n = None \<and> (\<forall>a \<in> ran m. wa_id a \<noteq> i))"
proof -
  obtain accs where accs: "listing s = Inr accs" "\<And>n a. (n, a) \<in> set accs \<longleftrightarrow> m n = Some a"
    using listing_law [OF assms] by blast
  have "find (\<lambda>(n', a). n' = n \<or> wa_id a = i) accs = None \<longleftrightarrow>
      (\<forall>n' a. m n' = Some a \<longrightarrow> n' \<noteq> n \<and> wa_id a \<noteq> i)"
    by (auto simp: find_None_iff simp flip: accs(2))
  also have "\<dots> \<longleftrightarrow> m n = None \<and> (\<forall>a \<in> ran m. wa_id a \<noteq> i)"
  proof
    assume u: "\<forall>n' a. m n' = Some a \<longrightarrow> n' \<noteq> n \<and> wa_id a \<noteq> i"
    then have "m n \<noteq> Some a" for a by blast
    then have "m n = None" by (cases "m n") auto
    moreover have "wa_id a \<noteq> i" if "a \<in> ran m" for a using that u unfolding ran_def by blast
    ultimately show "m n = None \<and> (\<forall>a \<in> ran m. wa_id a \<noteq> i)" by blast
  next
    assume u: "m n = None \<and> (\<forall>a \<in> ran m. wa_id a \<noteq> i)"
    show "\<forall>n' a. m n' = Some a \<longrightarrow> n' \<noteq> n \<and> wa_id a \<noteq> i"
    proof (intro allI impI conjI)
      fix n' a
      assume a: "m n' = Some a"
      then show "n' \<noteq> n" using u by auto
      show "wa_id a \<noteq> i" using u ranI [of m, OF a] by blast
    qed
  qed
  finally have "find (\<lambda>(n', a). n' = n \<or> wa_id a = i) accs = None \<longleftrightarrow> m n = None \<and> (\<forall>a \<in> ran m. wa_id a \<noteq> i)" .
  then show ?thesis using accs(1) by (intro exI [of _ accs] conjI)
qed

end

text \<open>The unlocked database provides it.\<close>

definition open_wallet :: "wallet_ext \<Rightarrow> 'db ext \<Rightarrow> 'db wallet_db \<Rightarrow> (string \<Rightarrow> wallet_account option) \<Rightarrow> bool" where
  "open_wallet W X self m \<longleftrightarrow> wd_state self = Unlocked \<and>
     (\<exists>secret. wd_key self = Some secret \<and> length secret = KEYBYTES \<and> holds W X secret (wd_db self) m)"

definition wallet_libs :: "wallet_ext \<Rightarrow> 'db ext \<Rightarrow> bool" where
  "wallet_libs W X \<longleftrightarrow> secretbox_ok W \<and> db_ok X \<and> wif_libs X"

text \<open>Nonces of the right length that give an encrypted name the store does not have yet, for an account
  and a name that can be stored.\<close>

definition good_draw :: "wallet_ext \<Rightarrow> 'db ext \<Rightarrow> bytes \<times> bytes \<Rightarrow> string \<Rightarrow> wallet_account \<Rightarrow> 'db wallet_db \<Rightarrow> bool" where
  "good_draw W X r name a self \<longleftrightarrow> length (fst r) = NONCEBYTES \<and> length (snd r) = NONCEBYTES \<and>
     utf8_valid (ascii name) \<and> account_storable X a \<and>
     (\<forall>secret. wd_key self = Some secret \<longrightarrow>
        db_get X (wd_db self) CF_ACCOUNTS (encrypt_with_key W (fst r) (ascii name) secret) = None)"

lemma holds_insert:
  assumes h: "holds W X secret db m" and new: "m name = None" "db_get X db CF_ACCOUNTS ek = None"
    and g: "db_get X db' CF_ACCOUNTS = (db_get X db CF_ACCOUNTS)(ek \<mapsto> ev)"
    and rd: "read_entry W X secret (ek, ev) = (Inr (name, a) :: unit fail + _)"
  shows "holds W X secret db' (m(name \<mapsto> a))"
proof -
  have nm: "entry_name W secret ek = (Inr name :: unit fail + _)" by (rule read_entry_name [OF rd])
  have old: "n \<noteq> name" if "db_get X db CF_ACCOUNTS k = Some v" "entry_name W secret k = (Inr n :: unit fail + _)" for k v n
    using holds_entry [OF h that(1), where 'e = unit] that(2) new(1) read_entry_name [where 'e = unit]
    by (metis Inr_inject option.distinct(1))
  show ?thesis
    unfolding holds_def g
  proof (intro conjI allI impI)
    fix k v
    assume "((db_get X db CF_ACCOUNTS)(ek \<mapsto> ev)) k = Some v"
    then consider "k = ek" "v = ev" | "db_get X db CF_ACCOUNTS k = Some v" "k \<noteq> ek"
      by (cases "k = ek") simp_all
    then show "\<exists>n b. read_entry W X secret (k, v) = (Inr (n, b) :: unit fail + _) \<and> (m(name \<mapsto> a)) n = Some b"
    proof cases
      case 1
      then show ?thesis using rd by auto
    next
      case 2
      obtain n b where r: "read_entry W X secret (k, v) = (Inr (n, b) :: unit fail + _)" "m n = Some b"
        by (rule holds_entry [OF h 2(1)])
      then show ?thesis using new(1) by (intro exI [of _ n] exI [of _ b]) auto
    qed
  next
    fix n b
    assume m: "(m(name \<mapsto> a)) n = Some b"
    show "\<exists>!k. \<exists>v. ((db_get X db CF_ACCOUNTS)(ek \<mapsto> ev)) k = Some v \<and> entry_name W secret k = (Inr n :: unit fail + _)"
    proof (cases "n = name")
      case True
      show ?thesis
      proof (rule ex1I [of _ ek])
        show "\<exists>v. ((db_get X db CF_ACCOUNTS)(ek \<mapsto> ev)) ek = Some v \<and> entry_name W secret ek = (Inr n :: unit fail + _)"
          using nm True by simp
        fix k'
        assume a: "\<exists>v. ((db_get X db CF_ACCOUNTS)(ek \<mapsto> ev)) k' = Some v \<and> entry_name W secret k' = (Inr n :: unit fail + _)"
        show "k' = ek"
        proof (rule ccontr)
          assume "k' \<noteq> ek"
          then obtain v where "db_get X db CF_ACCOUNTS k' = Some v" "entry_name W secret k' = (Inr n :: unit fail + _)"
            using a by auto
          from old [OF this] True show False by simp
        qed
      qed
    next
      case False
      then have "m n = Some b" using m by simp
      then obtain k v where k: "db_get X db CF_ACCOUNTS k = Some v" "entry_name W secret k = (Inr n :: unit fail + _)"
        "\<And>k' v'. db_get X db CF_ACCOUNTS k' = Some v' \<Longrightarrow> entry_name W secret k' = (Inr n :: unit fail + _) \<Longrightarrow> k' = k"
        by (rule holds_stored [OF h]) blast
      have ne: "k \<noteq> ek" using k(1) new(2) by auto
      show ?thesis
      proof (rule ex1I [of _ k])
        show "\<exists>v. ((db_get X db CF_ACCOUNTS)(ek \<mapsto> ev)) k = Some v \<and> entry_name W secret k = (Inr n :: unit fail + _)"
          using k(1,2) ne by simp
        fix k'
        assume a: "\<exists>v. ((db_get X db CF_ACCOUNTS)(ek \<mapsto> ev)) k' = Some v \<and> entry_name W secret k' = (Inr n :: unit fail + _)"
        then have "k' \<noteq> ek" using nm False by auto
        then show "k' = k" using a k(3) by auto
      qed
    qed
  qed
qed

lemma holds_put:
  assumes libs: "wallet_libs W X" and h: "holds W X secret db m" and key: "length secret = KEYBYTES"
    and new: "m name = None" "db_get X db CF_ACCOUNTS (encrypt_with_key W nc1 (ascii name) secret) = None"
    and ok: "length nc1 = NONCEBYTES" "length nc2 = NONCEBYTES" "utf8_valid (ascii name)" "account_storable X a"
  shows "holds W X secret (db_write X db [PutCf CF_ACCOUNTS (encrypt_with_key W nc1 (ascii name) secret)
      (encrypt_with_key W nc2 (WalletAccount_serialize X a) secret)]) (m(name \<mapsto> a))"
proof -
  let ?k = "encrypt_with_key W nc1 (ascii name) secret" and ?v = "encrypt_with_key W nc2 (WalletAccount_serialize X a) secret"
  have l: "secretbox_ok W" "db_ok X" "wif_libs X" using libs by (simp_all add: wallet_libs_def)
  note dec = decrypt_encrypt [OF l(1) ok(1) key] decrypt_encrypt [OF l(1) ok(2) key]
  have nm: "entry_name W secret ?k = (Inr name :: unit fail + _)"
    by (simp add: entry_name_def dec from_utf8_ascii [OF ok(3)])
  have rd: "read_entry W X secret (?k, ?v) = (Inr (name, a) :: unit fail + _)"
    by (simp add: read_entry_def nm dec wallet_account_roundtrip [OF l(3) ok(4)])
  have g: "db_get X (db_write X db [PutCf CF_ACCOUNTS ?k ?v]) CF_ACCOUNTS = (db_get X db CF_ACCOUNTS)(?k \<mapsto> ?v)"
    by (simp add: db_get_write [OF l(2)])
  show ?thesis by (rule holds_insert [OF h new g rd])
qed

lemma holds_remove:
  assumes h: "holds W X secret db m" and k0: "entry_name W secret k0 = (Inr name :: unit fail + _)" "db_get X db CF_ACCOUNTS k0 = Some v0"
    and g: "db_get X db' CF_ACCOUNTS = (db_get X db CF_ACCOUNTS)(k0 := None)"
  shows "holds W X secret db' (m(name := None))"
proof -
  obtain n1 a1 where "read_entry W X secret (k0, v0) = (Inr (n1, a1) :: unit fail + _)" "m n1 = Some a1"
    by (rule holds_entry [OF h k0(2)])
  then have name: "m name = Some a1" using read_entry_name k0(1) by fastforce
  have stored: "db_get X db CF_ACCOUNTS k = Some v \<and> k \<noteq> k0" if "((db_get X db CF_ACCOUNTS)(k0 := None)) k = Some v" for k v
    using that by (cases "k = k0") simp_all
  show ?thesis
    unfolding holds_def g
  proof (intro conjI allI impI)
    fix k v
    assume "((db_get X db CF_ACCOUNTS)(k0 := None)) k = Some v"
    from stored [OF this] have k: "db_get X db CF_ACCOUNTS k = Some v" "k \<noteq> k0" by simp_all
    obtain n b where r: "read_entry W X secret (k, v) = (Inr (n, b) :: unit fail + _)" "m n = Some b"
      by (rule holds_entry [OF h k(1)])
    obtain k1 where u: "\<And>k' v'. db_get X db CF_ACCOUNTS k' = Some v' \<Longrightarrow> entry_name W secret k' = (Inr name :: unit fail + _) \<Longrightarrow> k' = k1"
      by (rule holds_stored [OF h name]) blast
    have "n \<noteq> name"
      using u [OF k(1)] u [OF k0(2,1)] k(2) read_entry_name [OF r(1)] by auto
    then show "\<exists>n b. read_entry W X secret (k, v) = (Inr (n, b) :: unit fail + _) \<and> (m(name := None)) n = Some b"
      using r by auto
  next
    fix n b
    assume "(m(name := None)) n = Some b"
    then have n: "m n = Some b" "n \<noteq> name" by (simp_all split: if_splits)
    obtain k v where k: "db_get X db CF_ACCOUNTS k = Some v" "entry_name W secret k = (Inr n :: unit fail + _)"
      "\<And>k' v'. db_get X db CF_ACCOUNTS k' = Some v' \<Longrightarrow> entry_name W secret k' = (Inr n :: unit fail + _) \<Longrightarrow> k' = k"
      by (rule holds_stored [OF h n(1)]) blast
    have "k \<noteq> k0" using k(2) k0(1) n(2) by auto
    show "\<exists>!k. \<exists>v. ((db_get X db CF_ACCOUNTS)(k0 := None)) k = Some v \<and> entry_name W secret k = (Inr n :: unit fail + _)"
    proof (rule ex1I [of _ k])
      show "\<exists>v. ((db_get X db CF_ACCOUNTS)(k0 := None)) k = Some v \<and> entry_name W secret k = (Inr n :: unit fail + _)"
        using k(1,2) \<open>k \<noteq> k0\<close> by simp
      show "k' = k" if "\<exists>v. ((db_get X db CF_ACCOUNTS)(k0 := None)) k' = Some v \<and> entry_name W secret k' = (Inr n :: unit fail + _)" for k'
        using that stored k(3) by blast
    qed
  qed
qed

lemma get_accounts_holds:
  assumes "db_ok X" "open_wallet W X self m"
  shows "\<exists>accs. get_accounts W X self = (Inr accs :: 'e fail + _) \<and> (\<forall>n a. (n, a) \<in> set accs \<longleftrightarrow> m n = Some a)"
  using assms(2) holds_list [OF assms(1)] by (auto simp: open_wallet_def get_accounts_def)

lemma get_account_holds:
  assumes "db_ok X" "open_wallet W X self m"
  shows "Db_get_account W X name self = (Inr (m name) :: 'e fail + _)"
  using get_accounts_holds [OF assms, where 'e = 'e] by (auto simp: Db_get_account_def find_functional)

lemma del_account_holds:
  assumes "db_ok X" "open_wallet W X self m"
  shows "\<exists>self'. Db_del_account W X name self = (Inr (m name \<noteq> None, self') :: 'e fail + _) \<and> open_wallet W X self' (m(name := None))"
proof -
  obtain secret where s: "wd_state self = Unlocked" "wd_key self = Some secret" "length secret = KEYBYTES" "holds W X secret (wd_db self) m"
    using assms(2) by (auto simp: open_wallet_def)
  let ?es = "db_iter X (wd_db self) CF_ACCOUNTS"
  have "\<exists>n. entry_name W secret (fst e) = (Inr n :: 'e fail + _)" if "e \<in> set ?es" for e
  proof -
    obtain k v where e: "e = (k, v)" by (cases e)
    then have "db_get X (wd_db self) CF_ACCOUNTS k = Some v" using that by (simp add: db_iter_iff [OF assms(1)])
    from holds_entry [OF s(4) this] show ?thesis
      unfolding e fst_conv by (metis read_entry_name)
  qed
  then have "list_all (\<lambda>e. \<exists>n. entry_name W secret (fst e) = (Inr n :: 'e fail + _)) ?es"
    unfolding list_all_iff by blast
  from find_entry_all [OF this] obtain r where r: "find_entry W secret name ?es = (Inr r :: 'e fail + _)"
    "case r of
       None \<Rightarrow> \<forall>e \<in> set ?es. entry_name W secret (fst e) \<noteq> (Inr name :: 'e fail + _)
     | Some k \<Rightarrow> \<exists>v. (k, v) \<in> set ?es \<and> entry_name W secret k = (Inr name :: 'e fail + _)"
    by blast
  show ?thesis
  proof (cases r)
    case None
    have "m name = None"
    proof (rule ccontr)
      assume "m name \<noteq> None"
      then obtain a where "m name = Some a" by blast
      then obtain k v where "db_get X (wd_db self) CF_ACCOUNTS k = Some v" "entry_name W secret k = (Inr name :: 'e fail + _)"
        by (rule holds_stored [OF s(4)])
      then show False using r(2) None by (force simp: db_iter_iff [OF assms(1), symmetric])
    qed
    then have "m(name := None) = m" by auto
    then show ?thesis using assms(2) \<open>m name = None\<close> by (simp add: Db_del_account_def s(2) r(1) None)
  next
    case (Some k)
    then obtain v where k: "db_get X (wd_db self) CF_ACCOUNTS k = Some v" "entry_name W secret k = (Inr name :: 'e fail + _)"
      using r(2) by (auto simp: db_iter_iff [OF assms(1)])
    obtain n a where a: "read_entry W X secret (k, v) = (Inr (n, a) :: 'e fail + _)" "m n = Some a"
      by (rule holds_entry [OF s(4) k(1)])
    then have "m name \<noteq> None" using read_entry_name [OF a(1)] k(2) by simp
    moreover have "holds W X secret (db_write X (wd_db self) [DeleteCf CF_ACCOUNTS k]) (m(name := None))"
      by (rule holds_remove [OF s(4) _ k(1)])
        (simp_all add: db_get_write [OF assms(1)] k(2) entry_name_retype [where 'e = unit and 'f = 'e])
    ultimately show ?thesis
      using s(1-3) by (auto simp: Db_del_account_def r(1) Some open_wallet_def)
  qed
qed

interpretation wallet_book:
  account_book "open_wallet W X" "get_accounts W X" "Db_get_account W X" "good_draw W X"
    "\<lambda>r. Db_set_account W X (fst r) (snd r)" "Db_del_account W X" "wallet_libs W X" for W X
proof
  fix self m name r a
  assume libs: "wallet_libs W X" and self: "open_wallet W X self m"
  then have db: "db_ok X" by (simp add: wallet_libs_def)
  obtain secret where s: "wd_state self = Unlocked" "wd_key self = Some secret" "length secret = KEYBYTES" "holds W X secret (wd_db self) m"
    using self by (auto simp: open_wallet_def)
  show "\<exists>accs. get_accounts W X self = Inr accs \<and> (\<forall>n a. (n, a) \<in> set accs \<longleftrightarrow> m n = Some a)"
    by (rule get_accounts_holds [OF db self])
  show "Db_get_account W X name self = Inr (m name)"
    by (rule get_account_holds [OF db self])
  show "\<exists>self'. Db_del_account W X name self = Inr (m name \<noteq> None, self') \<and> open_wallet W X self' (m(name := None))"
    by (rule del_account_holds [OF db self])
  assume new: "m name = None" and good: "good_draw W X r name a self"
  have "holds W X secret (db_write X (wd_db self) [PutCf CF_ACCOUNTS (encrypt_with_key W (fst r) (ascii name) secret)
      (encrypt_with_key W (snd r) (WalletAccount_serialize X a) secret)]) (m(name \<mapsto> a))"
    using good s(2) by (intro holds_put [OF libs s(4,3) new]) (simp_all add: good_draw_def)
  then show "\<exists>self'. Db_set_account W X (fst r) (snd r) name a self = Inr self' \<and> open_wallet W X self' (m(name \<mapsto> a))"
    using s(1-3) by (simp add: Db_set_account_def open_wallet_def Let_def)
qed

section \<open>Passwords\<close>

text \<open>
  The stored property holds the key \<open>secret\<close> under a password and a salt.
  \<open>authentic\<close> is the promise of \<open>secretbox\<close> that no other key opens what a key sealed.
\<close>

definition authentic :: "wallet_ext \<Rightarrow> bool" where
  "authentic W \<longleftrightarrow> (\<forall>m n k k'. length n = NONCEBYTES \<longrightarrow> length k = KEYBYTES \<longrightarrow> length k' = KEYBYTES \<longrightarrow>
     sb_open W (sb_seal W m n k) n k' = (if k' = k then Some m else None))"

lemma authentic_secretbox: "authentic W \<Longrightarrow> secretbox_ok W"
  by (simp add: authentic_def secretbox_ok_def)

definition keyed :: "wallet_ext \<Rightarrow> 'db ext \<Rightarrow> 'db \<Rightarrow> bytes \<Rightarrow> bytes \<Rightarrow> bytes \<Rightarrow> bool" where
  "keyed W X db salt pass secret \<longleftrightarrow> length secret = KEYBYTES \<and> length salt = SALTBYTES \<and>
     (\<exists>nc k. length nc = NONCEBYTES \<and> derive_key W pass salt = Some k \<and> length k = KEYBYTES \<and>
        db_get X db CF_DEFAULT PROP_INIT = Some (salt @ encrypt_with_key W nc secret k))"

lemma unlock_keyed:
  assumes "authentic W" "derive_ok W" "keyed W X (wd_db self) salt pass secret" "wd_state self = Locked"
  shows "Db_unlock W X pass' self =
    (Inr (if derive_key W pass' salt = derive_key W pass salt then (True, self\<lparr>wd_key := Some secret, wd_state := Unlocked\<rparr>)
      else (False, self)) :: 'e fail + _)"
proof -
  obtain nc k where s: "length secret = KEYBYTES" "length salt = SALTBYTES" "length nc = NONCEBYTES" "derive_key W pass salt = Some k" "length k = KEYBYTES"
    "db_get X (wd_db self) CF_DEFAULT PROP_INIT = Some (salt @ encrypt_with_key W nc secret k)"
    using assms(3) by (auto simp: keyed_def)
  obtain k' where k': "derive_key W pass' salt = Some k'" "length k' = KEYBYTES"
    using assms(2) unfolding derive_ok_def by blast
  have d: "decrypt_with_key W (encrypt_with_key W nc secret k) k' = (Inr (if k' = k then Some secret else None) :: 'e fail + _)"
    using assms(1) s(3,5) k'(2) by (simp add: decrypt_with_key_def encrypt_with_key_def authentic_def)
  have t: "take SALTBYTES (salt @ bs) = salt" "drop SALTBYTES (salt @ bs) = bs" for bs
    using s(2) by simp_all
  show ?thesis
    using s(1,2) by (simp add: Db_unlock_def assms(4) s(6) t k'(1) d s(4) del: take_append drop_append)
qed

lemma set_password_keyed:
  assumes "db_ok X" "derive_ok W" "length salt = SALTBYTES" "length nc = NONCEBYTES" "length secret = KEYBYTES"
    and "(wd_state self = New \<and> gen_key = secret) \<or> (wd_state self = Unlocked \<and> wd_key self = Some secret)"
  shows "\<exists>self'. set_password W X salt nc gen_key pass self = (Inr self' :: 'e fail + _) \<and>
    wd_state self' = Locked \<and> wd_key self' = None \<and> keyed W X (wd_db self') salt pass secret \<and>
    db_get X (wd_db self') CF_ACCOUNTS = db_get X (wd_db self) CF_ACCOUNTS"
proof -
  obtain k where k: "derive_key W pass salt = Some k" "length k = KEYBYTES"
    using assms(2) unfolding derive_ok_def by blast
  let ?v = "salt @ encrypt_with_key W nc secret k"
  let ?s = "Db_lock (self\<lparr>wd_db := db_write X (wd_db self) [PutCf CF_DEFAULT PROP_INIT ?v]\<rparr>)"
  have "set_password W X salt nc gen_key pass self = (Inr ?s :: 'e fail + _)"
    using assms(6) by (auto simp: set_password_def k(1) Let_def)
  moreover have "keyed W X (wd_db ?s) salt pass secret"
    using assms(3-5) k by (auto simp: keyed_def Db_lock_def db_get_write [OF assms(1)])
  moreover have "db_get X (wd_db ?s) CF_ACCOUNTS = db_get X (wd_db self) CF_ACCOUNTS"
    by (simp add: Db_lock_def db_get_write [OF assms(1)] CF_ACCOUNTS_def CF_DEFAULT_def)
  ultimately show ?thesis by (intro exI [of _ ?s]) (simp add: Db_lock_def)
qed

lemma holds_cong: "db_get X db CF_ACCOUNTS = db_get X db' CF_ACCOUNTS \<Longrightarrow> holds W X secret db m = holds W X secret db' m"
  by (simp add: holds_def)

lemma holds_empty: "(\<And>k. db_get X db CF_ACCOUNTS k = None) \<Longrightarrow> holds W X secret db Map.empty"
  by (simp add: holds_def)

text \<open>Opening the database anew finds it locked, or new when nothing was stored.\<close>

lemma Db_new_keyed: "keyed W X db salt pass secret \<Longrightarrow> Db_new X db = \<lparr>wd_state = Locked, wd_db = db, wd_key = None\<rparr>"
  by (auto simp: keyed_def Db_new_def)

end
