(* ===== verification/Wallet_Cmd.thy ===== *)
theory Wallet_Cmd
  imports Wallet_Db Net_Msg
begin

text \<open>
  The wallet's commands, \<open>wallet/mod.rs\<close> and \<open>wallet/cmd/\<close>.  The arguments are those clap parsed; what a
  command prints is a list of values; the random draws, the clock, the files and the connection to the
  node are the fields of an environment.  The texts of \<open>Debug\<close> and \<open>Display\<close> are the values themselves.
\<close>

section \<open>State and results\<close>

record 'db cli_wallet =
  cw_prompt :: string
  cw_db :: "'db wallet_db"
  cw_req_id :: u32

text \<open>\<open>Wallet::new\<close> without the checks of the URL.\<close>

definition Wallet_new :: "'db ext \<Rightarrow> 'db \<Rightarrow> 'db cli_wallet" where
  "Wallet_new X db =
     (let wdb = Db_new X db
      in \<lparr>cw_prompt = (if wd_state wdb = Locked then ''locked>> '' else ''new>> ''), cw_db = wdb, cw_req_id = 0\<rparr>)"

record arg_matches =
  value_of :: "string \<Rightarrow> string option"
  values_of :: "string \<Rightarrow> string list option"

datatype cmd_err = ErrMsg string | ErrText string string | ErrWif string wif_error_kind
  | ErrAsset string asset_error_kind | ErrInt int_error_kind | ErrIo io_error

datatype cmd_out = OutText string | OutHex string | OutTx tx_variant | OutScript script | OutBuildError build_error
  | OutMsg msg | OutErr cmd_err

datatype ws_incoming = WsBinary bytes | WsOther

record cmd_env =
  ev_salt :: bytes
  ev_gen_key :: bytes
  ev_nonce1 :: bytes
  ev_nonce2 :: bytes
  ev_seed :: bytes
  ev_tx_nonce :: u32
  ev_account_id :: account_id
  ev_now :: u64
  ev_file :: "string \<Rightarrow> cmd_err + bytes"
  ev_conn :: "cmd_err + ws_incoming list"

type_synonym cmd_result = "cmd_err fail + cmd_out list"

text \<open>\<open>args.value_of(name).unwrap()\<close>, and a parsed value with the error its caller reports.\<close>

definition arg_value :: "arg_matches \<Rightarrow> string \<Rightarrow> cmd_err fail + string" where
  "arg_value args name = unwrap (value_of args name)"

definition args_of :: "arg_matches \<Rightarrow> string \<Rightarrow> cmd_err fail + string list" where
  "args_of args name = unwrap (values_of args name)"

definition parsed :: "string \<Rightarrow> 'e + 'a \<Rightarrow> cmd_err fail + 'a" where
  "parsed m r = map_err (\<lambda>e. Err (ErrMsg m)) r"

definition check_unlocked :: "'db cli_wallet \<Rightarrow> cmd_err fail + unit" where
  "check_unlocked self =
     (if wd_state (cw_db self) \<noteq> Unlocked then Inl (Err (ErrMsg ''wallet not unlocked'')) else Inr ())"

definition hex_to_bytes :: "wallet_ext \<Rightarrow> string \<Rightarrow> cmd_err fail + bytes" where
  "hex_to_bytes W s = ok_or (hex_decode W s (length s div 2)) (Err (ErrMsg ''invalid hex string''))"

text \<open>An account named in the wallet, or an address.\<close>

definition resolve_account :: "wallet_ext \<Rightarrow> 'db ext \<Rightarrow> string \<Rightarrow> string \<Rightarrow> 'db cli_wallet \<Rightarrow> cmd_err fail + account_id" where
  "resolve_account W X m name self =
     and_then (Db_get_account W X name (cw_db self)) (\<lambda>acc.
       case acc of
         Some acc \<Rightarrow> Inr (wa_id acc)
       | None \<Rightarrow> map_err (map_fail (ErrWif m)) (AccountId_from_wif X name))"

definition decode_hex_tx :: "wallet_ext \<Rightarrow> string \<Rightarrow> cmd_err fail + tx_variant" where
  "decode_hex_tx W hex =
     and_then (hex_to_bytes W hex) (\<lambda>tx_bytes.
     and_then (ok_or (TxVariant_deserialize tx_bytes) (Err (ErrMsg ''Failed to decode tx''))) (\<lambda>(t, cur). Inr t))"

definition print_tx :: "wallet_ext \<Rightarrow> tx_variant \<Rightarrow> cmd_result" where
  "print_tx W t = Inr [OutHex (hex_string W (TxVariant_serialize t))]"

section \<open>Creating and unlocking the wallet\<close>

definition create_wallet :: "wallet_ext \<Rightarrow> 'db ext \<Rightarrow> cmd_env \<Rightarrow> arg_matches \<Rightarrow> 'db cli_wallet \<Rightarrow> cmd_result \<times> 'db cli_wallet" where
  "create_wallet W X env args self =
     (case wd_state (cw_db self) of
        Locked \<Rightarrow> (Inr [OutText ''Wallet is locked, use unlock to use the existing wallet''], self)
      | Unlocked \<Rightarrow> (Inr [OutText ''Existing wallet already unlocked''], self)
      | New \<Rightarrow>
          (case and_then (arg_value args ''password'') (\<lambda>pass.
                  set_password W X (ev_salt env) (ev_nonce1 env) (ev_gen_key env) (ascii pass) (cw_db self)) of
             Inl e \<Rightarrow> (Inl e, self)
           | Inr wdb \<Rightarrow> (Inr [], self\<lparr>cw_db := wdb, cw_prompt := ''locked>> ''\<rparr>)))"

definition unlock_wallet :: "wallet_ext \<Rightarrow> 'db ext \<Rightarrow> arg_matches \<Rightarrow> 'db cli_wallet \<Rightarrow> cmd_result \<times> 'db cli_wallet" where
  "unlock_wallet W X args self =
     (case wd_state (cw_db self) of
        New \<Rightarrow> (Inr [OutText ''A wallet has not yet been created, use new to create one''], self)
      | Unlocked \<Rightarrow> (Inr [OutText ''Wallet already unlocked''], self)
      | Locked \<Rightarrow>
          (case and_then (arg_value args ''password'') (\<lambda>pass. Db_unlock W X (ascii pass) (cw_db self)) of
             Inl e \<Rightarrow> (Inl e, self)
           | Inr (True, wdb) \<Rightarrow> (Inr [], self\<lparr>cw_db := wdb, cw_prompt := ''unlocked>> ''\<rparr>)
           | Inr (False, wdb) \<Rightarrow> (Inr [OutText ''Failed to unlock wallet...incorrect password''], self\<lparr>cw_db := wdb\<rparr>)))"

section \<open>Accounts\<close>

definition account_id_to_address :: "'db ext \<Rightarrow> arg_matches \<Rightarrow> cmd_result" where
  "account_id_to_address X args =
     and_then (arg_value args ''id'') (\<lambda>s.
     and_then (parsed ''Failed to parse decimal ID'' (parse_uint s)) (\<lambda>i.
       Inr [OutText (''Address: '' @ AccountId_to_wif X i)]))"

primrec wif_keys :: "(string \<Rightarrow> wif_error_kind fail + 'k) \<Rightarrow> string \<Rightarrow> string list \<Rightarrow> cmd_err fail + 'k list" where
  "wif_keys from m [] = Inr []"
| "wif_keys from m (w # ws) =
     and_then (map_err (map_fail (\<lambda>e. ErrText m w)) (from w)) (\<lambda>k.
     and_then (wif_keys from m ws) (\<lambda>ks. Inr (k # ks)))"

text \<open>An import: its arguments read, then checked against the listed accounts and stored.\<close>

definition import_request :: "'db ext \<Rightarrow> arg_matches \<Rightarrow> 'db cli_wallet \<Rightarrow> cmd_err fail + (string \<times> wallet_account)" where
  "import_request X args self =
     and_then (check_unlocked self) (\<lambda>_.
     and_then (arg_value args ''name'') (\<lambda>acc_name.
     and_then (arg_value args ''account'') (\<lambda>acc_address.
     and_then (map_err (map_fail (\<lambda>e. ErrText ''Failed to parse account address'' acc_address)) (AccountId_from_wif X acc_address)) (\<lambda>acc_address.
     and_then (args_of args ''wif'') (\<lambda>wifs.
     and_then (wif_keys (PrivateKey_from_wif X) ''Invalid wif'' wifs) (\<lambda>ks.
       Inr (acc_name, \<lparr>wa_id = acc_address, wa_keys = ks\<rparr>)))))))"

definition import_checked :: "wallet_ext \<Rightarrow> 'db ext \<Rightarrow> cmd_env \<Rightarrow> string \<times> wallet_account \<Rightarrow> 'db wallet_db \<Rightarrow>
    cmd_err fail + (cmd_out list \<times> 'db wallet_db)" where
  "import_checked W X env req self =
     (case req of (acc_name, acc) \<Rightarrow>
        and_then (get_accounts W X self) (\<lambda>accs.
          case find (\<lambda>(name, a). name = acc_name \<or> wa_id a = wa_id acc) accs of
            Some (name, a) \<Rightarrow>
              if name = acc_name then Inr ([OutText ''An account with this name already exists''], self)
              else Inr ([OutText (''Account address already exists under the account name `'' @ name @ ''`'')], self)
          | None \<Rightarrow>
              and_then (Db_set_account W X (ev_nonce1 env) (ev_nonce2 env) acc_name acc self) (\<lambda>wdb. Inr ([], wdb))))"

definition import_account :: "wallet_ext \<Rightarrow> 'db ext \<Rightarrow> cmd_env \<Rightarrow> arg_matches \<Rightarrow> 'db cli_wallet \<Rightarrow> cmd_result \<times> 'db cli_wallet" where
  "import_account W X env args self =
     (case and_then (import_request X args self) (\<lambda>req. import_checked W X env req (cw_db self)) of
        Inl e \<Rightarrow> (Inl e, self)
      | Inr (out, wdb) \<Rightarrow> (Inr out, self\<lparr>cw_db := wdb\<rparr>))"

definition print_account :: "'db ext \<Rightarrow> wallet_account \<Rightarrow> cmd_out list" where
  "print_account X acc =
     [OutText (''Account ID => '' @ uint_text (wa_id acc)), OutText (''Account address => '' @ AccountId_to_wif X (wa_id acc))] @
     concat (map (\<lambda>(index, k).
       [OutText (''Key #'' @ nat_to_string index), OutText (''  Public key => '' @ PublicKey_to_wif X (kp_public k)),
        OutText (''  Private key => '' @ PrivateKey_to_wif X (kp_private k))]) (enumerate 0 (wa_keys acc)))"

definition print_account_command :: "wallet_ext \<Rightarrow> 'db ext \<Rightarrow> arg_matches \<Rightarrow> 'db cli_wallet \<Rightarrow> cmd_result" where
  "print_account_command W X args self =
     and_then (check_unlocked self) (\<lambda>_.
     and_then (arg_value args ''name'') (\<lambda>account_name.
     and_then (Db_get_account W X account_name (cw_db self)) (\<lambda>acc.
       Inr (case acc of Some acc \<Rightarrow> print_account X acc | None \<Rightarrow> [OutText ''Account not found'']))))"

definition delete_account :: "wallet_ext \<Rightarrow> 'db ext \<Rightarrow> arg_matches \<Rightarrow> 'db cli_wallet \<Rightarrow> cmd_result \<times> 'db cli_wallet" where
  "delete_account W X args self =
     (case and_then (check_unlocked self) (\<lambda>_.
           and_then (arg_value args ''name'') (\<lambda>account_name. Db_del_account W X account_name (cw_db self))) of
        Inl e \<Rightarrow> (Inl e, self)
      | Inr (deleted, wdb) \<Rightarrow>
          (Inr [OutText (if deleted then ''Account permanently deleted'' else ''Account not found'')], self\<lparr>cw_db := wdb\<rparr>))"

definition list_accounts :: "wallet_ext \<Rightarrow> 'db ext \<Rightarrow> 'db cli_wallet \<Rightarrow> cmd_result" where
  "list_accounts W X self =
     and_then (check_unlocked self) (\<lambda>_.
     and_then (get_accounts W X (cw_db self)) (\<lambda>accs.
       Inr (OutText ''Accounts:'' # map (\<lambda>(name, acc).
         OutText (''  '' @ name @ '' => '' @ AccountId_to_wif X (wa_id acc) @ '' (raw ID: '' @ uint_text (wa_id acc) @ '')'')) accs)))"

section \<open>Keys\<close>

text \<open>\<open>generate_keypair\<close> of \<open>keypair.rs\<close>, with the seed it draws.\<close>

definition generate_keypair :: "'db ext \<Rightarrow> cmd_env \<Rightarrow> cmd_result" where
  "generate_keypair X env =
     and_then (KeyPair_gen X (ev_seed env)) (\<lambda>pair.
       Inr [OutText ''~~ Keys have been generated ~~'',
            OutText (''Private key WIF: '' @ PrivateKey_to_wif X (kp_private pair)),
            OutText (''Public key WIF: '' @ PublicKey_to_wif X (kp_public pair)),
            OutText ''- Make sure the keys are securely stored'',
            OutText ''- Coins cannot be recovered if you lose your private key'',
            OutText ''- Never give private keys to anyone''])"

section \<open>Scripts\<close>

definition build_script :: "'db ext \<Rightarrow> arg_matches \<Rightarrow> cmd_result" where
  "build_script X args =
     and_then (args_of args ''ops'') (\<lambda>ops.
       case build_text X ops of
         Inl Panic \<Rightarrow> Inl Panic
       | Inl (Err e) \<Rightarrow> Inr [OutBuildError e]
       | Inr script \<Rightarrow>
           Inr ((if length script > MAX_SCRIPT_BYTE_SIZE
                 then [OutText ''WARNING: Script exceeds the max byte size 2048''] else []) @ [OutScript script]))"

text \<open>\<open>a.starts_with(p)\<close> and \<open>&a[p.len()..]\<close>.\<close>

definition strip_prefix :: "string \<Rightarrow> string \<Rightarrow> string option" where
  "strip_prefix p a = (if take (length p) a = p then Some (drop (length p) a) else None)"

primrec arg_bytes :: "'db ext \<Rightarrow> string list \<Rightarrow> cmd_err fail + bytes" where
  "arg_bytes X [] = Inr []"
| "arg_bytes X (a # as) =
     and_then
       (case strip_prefix ''address='' a of
          Some a \<Rightarrow> and_then (map_err (map_fail (ErrWif a)) (AccountId_from_wif X a)) (\<lambda>i. Inr (push_u64 i))
        | None \<Rightarrow>
            (case strip_prefix ''asset='' a of
               Some a \<Rightarrow> and_then (map_err (\<lambda>e. Err (ErrAsset a e)) (Asset_from_str X a)) (\<lambda>asset. Inr (push_asset asset))
             | None \<Rightarrow> Inr []))
       (\<lambda>bs. and_then (arg_bytes X as) (\<lambda>rest. Inr (bs @ rest)))"

definition args_to_bin :: "wallet_ext \<Rightarrow> 'db ext \<Rightarrow> arg_matches \<Rightarrow> cmd_result" where
  "args_to_bin W X args =
     and_then (args_of args ''arg'') (\<lambda>str_args.
     and_then (arg_bytes X str_args) (\<lambda>arg_buf. Inr [OutHex (hex_string W arg_buf)]))"

definition check_script_size :: "wallet_ext \<Rightarrow> arg_matches \<Rightarrow> cmd_result" where
  "check_script_size W args =
     and_then (arg_value args ''hex'') (\<lambda>hex.
     and_then (hex_to_bytes W hex) (\<lambda>script.
       Inr ((if length script > MAX_SCRIPT_BYTE_SIZE
             then [OutText ''WARNING: Script exceeds the max byte size 2048''] else []) @
            [OutText (''Script is '' @ nat_to_string (length script) @ '' '' @
               (if length script = 1 then ''byte'' else ''bytes''))])))"

section \<open>Transactions\<close>

definition decode_tx :: "wallet_ext \<Rightarrow> arg_matches \<Rightarrow> cmd_result" where
  "decode_tx W args =
     and_then (arg_value args ''hex'') (\<lambda>hex. and_then (decode_hex_tx W hex) (\<lambda>t. Inr [OutTx t]))"

primrec sign_with_accounts :: "wallet_ext \<Rightarrow> 'db ext \<Rightarrow> 'db cli_wallet \<Rightarrow> string list \<Rightarrow> tx_variant \<Rightarrow> cmd_err fail + tx_variant" where
  "sign_with_accounts W X self [] t = Inr t"
| "sign_with_accounts W X self (account # accounts) t =
     and_then (Db_get_account W X account (cw_db self)) (\<lambda>acc.
     and_then (ok_or acc (Err (ErrMsg ''Account does not exist''))) (\<lambda>account.
       sign_with_accounts W X self accounts (foldl (append_sign X) t (wa_keys account))))"

definition sign_tx :: "wallet_ext \<Rightarrow> 'db ext \<Rightarrow> arg_matches \<Rightarrow> 'db cli_wallet \<Rightarrow> cmd_result" where
  "sign_tx W X args self =
     and_then (check_unlocked self) (\<lambda>_.
     and_then (arg_value args ''hex'') (\<lambda>hex.
     and_then (args_of args ''account'') (\<lambda>accounts.
     and_then (decode_hex_tx W hex) (\<lambda>t.
     and_then (sign_with_accounts W X self accounts t) (print_tx W)))))"

definition unsign_tx :: "wallet_ext \<Rightarrow> arg_matches \<Rightarrow> cmd_result" where
  "unsign_tx W args =
     and_then (arg_value args ''index'') (\<lambda>index.
     and_then (parsed ''Failed to parse signature position'' (parse_uint index :: int_error_kind + u64)) (\<lambda>sig_pos.
     and_then (arg_value args ''hex'') (\<lambda>hex.
     and_then (decode_hex_tx W hex) (\<lambda>t.
     let t = (if unat sig_pos < length (tx_sigs t)
              then with_sigs t (take (unat sig_pos) (tx_sigs t) @ drop (Suc (unat sig_pos)) (tx_sigs t)) else t)
     in print_tx W t))))"

definition parse_expiry :: "cmd_env \<Rightarrow> arg_matches \<Rightarrow> cmd_err fail + u64" where
  "parse_expiry env args =
     and_then (arg_value args ''expiry'') (\<lambda>s.
     and_then (parsed ''Failed to parse expiry ms'' (parse_uint s)) (\<lambda>expiry. Inr (ev_now env + expiry)))"

definition parse_asset_arg :: "'db ext \<Rightarrow> arg_matches \<Rightarrow> string \<Rightarrow> string \<Rightarrow> cmd_err fail + asset" where
  "parse_asset_arg X args name m = and_then (arg_value args name) (\<lambda>s. parsed m (Asset_from_str X s))"

definition build_transfer_tx :: "wallet_ext \<Rightarrow> 'db ext \<Rightarrow> cmd_env \<Rightarrow> arg_matches \<Rightarrow> 'db cli_wallet \<Rightarrow> cmd_result" where
  "build_transfer_tx W X env args self =
     and_then (check_unlocked self) (\<lambda>_.
     and_then (parse_expiry env args) (\<lambda>exp_at.
     and_then (arg_value args ''from_account'') (\<lambda>from_acc.
     and_then (resolve_account W X ''Failed to parse account address'' from_acc self) (\<lambda>from_acc.
     and_then (arg_value args ''call_fn'') (\<lambda>s.
     and_then (map_err (\<lambda>e. Err (ErrInt e)) (parse_uint s)) (\<lambda>fn.
     and_then (case value_of args ''args'' of Some s \<Rightarrow> hex_to_bytes W s | None \<Rightarrow> Inr []) (\<lambda>call_args.
     and_then (parse_asset_arg X args ''amount'' ''Failed to parse asset amount'') (\<lambda>tokens.
     and_then (parse_asset_arg X args ''fee'' ''Failed to parse asset fee'') (\<lambda>tx_fee.
     let text = ascii (case value_of args ''memo'' of Some s \<Rightarrow> s | None \<Rightarrow> [])
     in print_tx W (TxV0 (TransferTx \<lparr>tr_base = \<lparr>nonce = ev_tx_nonce env, expiry = exp_at, fee = tx_fee, signature_pairs = []\<rparr>,
          tr_from = from_acc, call_fn = fn, tr_args = call_args, tr_amount = tokens, memo = text\<rparr>)))))))))))"

definition parse_permissions :: "'db ext \<Rightarrow> arg_matches \<Rightarrow> string \<Rightarrow> cmd_err fail + permissions" where
  "parse_permissions X args s =
     and_then (parsed ''Failed to parse threshold integer'' (parse_uint s)) (\<lambda>n.
     and_then (args_of args ''public_wif'') (\<lambda>vals.
     and_then (wif_keys (PublicKey_from_wif X) ''Failed to parse wif'' vals) (\<lambda>ks.
       Inr \<lparr>threshold = n, keys = ks\<rparr>)))"

definition build_create_tx :: "wallet_ext \<Rightarrow> 'db ext \<Rightarrow> cmd_env \<Rightarrow> arg_matches \<Rightarrow> 'db cli_wallet \<Rightarrow> cmd_result" where
  "build_create_tx W X env args self =
     and_then (check_unlocked self) (\<lambda>_.
     and_then (arg_value args ''creator'') (\<lambda>name.
     and_then (resolve_account W X ''Failed to parse account address'' name self) (\<lambda>from_acc.
     and_then (parse_expiry env args) (\<lambda>exp_at.
     and_then (parse_asset_arg X args ''fee'' ''Failed to parse asset for the fee'') (\<lambda>tx_fee.
     and_then (parse_asset_arg X args ''balance'' ''Failed to parse asset for the balance'') (\<lambda>bal.
     and_then (arg_value args ''threshold'') (\<lambda>s.
     and_then (parse_permissions X args s) (\<lambda>perms.
     and_then (Account_create_default (ev_account_id env) perms) (\<lambda>acc.
     let acc = acc\<lparr>balance := bal\<rparr>
     in and_then (case value_of args ''script'' of
                    Some hex \<Rightarrow> and_then (hex_to_bytes W hex) (\<lambda>scr. Inr (acc\<lparr>acc_script := scr\<rparr>))
                  | None \<Rightarrow> Inr acc) (\<lambda>acc.
       print_tx W (TxV0 (CreateAccountTx \<lparr>ca_base = \<lparr>nonce = ev_tx_nonce env, expiry = exp_at, fee = tx_fee, signature_pairs = []\<rparr>,
         creator = from_acc, ca_account = acc\<rparr>))))))))))))"

text \<open>\<open>build_update_tx\<close> does not check that the wallet is unlocked.\<close>

definition build_update_tx :: "wallet_ext \<Rightarrow> 'db ext \<Rightarrow> cmd_env \<Rightarrow> arg_matches \<Rightarrow> 'db cli_wallet \<Rightarrow> cmd_result" where
  "build_update_tx W X env args self =
     and_then (parse_expiry env args) (\<lambda>exp_at.
     and_then (parse_asset_arg X args ''fee'' ''Failed to parse asset for the fee'') (\<lambda>tx_fee.
     and_then (arg_value args ''account'') (\<lambda>name.
     and_then (resolve_account W X ''Failed to parse account address'' name self) (\<lambda>i.
     and_then (case value_of args ''script'' of
                 Some hex \<Rightarrow> and_then (hex_to_bytes W hex) (\<lambda>scr. Inr (Some scr))
               | None \<Rightarrow> Inr None) (\<lambda>scr.
     and_then (case value_of args ''threshold'' of
                 Some s \<Rightarrow>
                   and_then (parse_permissions X args s) (\<lambda>perms.
                     if \<not> Permissions_is_valid perms
                     then Inl (Err (ErrMsg ''Permissions threshold or key count is incorrect''))
                     else Inr (Some perms))
               | None \<Rightarrow> Inr None) (\<lambda>perms.
       print_tx W (TxV0 (UpdateAccountTx \<lparr>ua_base = \<lparr>nonce = ev_tx_nonce env, expiry = exp_at, fee = tx_fee, signature_pairs = []\<rparr>,
         ua_account_id = i, new_script = scr, new_permissions = perms\<rparr>))))))))"

section \<open>Requests\<close>

text \<open>The id of the next request; the largest is left to messages nobody asked for.\<close>

definition next_req_id :: "'db cli_wallet \<Rightarrow> u32 \<times> 'db cli_wallet" where
  "next_req_id self =
     (let i = cw_req_id self; n = i + 1
      in (i, self\<lparr>cw_req_id := (if n = - 1 then 0 else n)\<rparr>))"

text \<open>The messages read from the connection until the response or the error; a ping is answered.\<close>

fun await_reply :: "ws_incoming list \<Rightarrow> bytes list \<Rightarrow> (cmd_err fail + msg) \<times> bytes list" where
  "await_reply [] sent = (Inl Panic, sent)"
| "await_reply (WsOther # ms) sent = await_reply ms sent"
| "await_reply (WsBinary res # ms) sent =
     (case Msg_deserialize res of
        Inl e \<Rightarrow> (Inl (Err (ErrIo e)), sent)
      | Inr (m, _) \<Rightarrow>
          (case msg_body m of
             BodyError _ \<Rightarrow> (Inr m, sent)
           | BodyResponse _ \<Rightarrow> (Inr m, sent)
           | BodyPing n \<Rightarrow>
               (case Msg_serialize \<lparr>msg_id = msg_id m, msg_body = BodyPong n\<rparr> of
                  Inl e \<Rightarrow> (Inl e, sent)
                | Inr buf \<Rightarrow> await_reply ms (sent @ [buf]))
           | _ \<Rightarrow> await_reply ms sent))"

text \<open>The reply, the messages sent and the wallet with its id counted on.\<close>

definition send_rpc_req :: "cmd_env \<Rightarrow> request \<Rightarrow> 'db cli_wallet \<Rightarrow> (cmd_err fail + msg) \<times> bytes list \<times> 'db cli_wallet" where
  "send_rpc_req env req self =
     (case next_req_id self of (i, self) \<Rightarrow>
        (case and_then (Msg_serialize \<lparr>msg_id = i, msg_body = BodyRequest req\<rparr>) (\<lambda>buf.
              and_then (map_err Err (ev_conn env)) (\<lambda>ms. Inr (buf, ms))) of
           Inl e \<Rightarrow> (Inl e, [], self)
         | Inr (buf, ms) \<Rightarrow> (case await_reply ms [buf] of (r, sent) \<Rightarrow> (r, sent, self))))"

text \<open>\<open>send_print_rpc_req\<close>: an error is printed like a reply.\<close>

definition send_print_rpc_req :: "cmd_env \<Rightarrow> request \<Rightarrow> 'db cli_wallet \<Rightarrow> cmd_result \<times> 'db cli_wallet" where
  "send_print_rpc_req env req self =
     (case send_rpc_req env req self of (r, sent, self) \<Rightarrow>
        (case r of
           Inl Panic \<Rightarrow> Inl Panic
         | Inl (Err e) \<Rightarrow> Inr [OutErr e]
         | Inr m \<Rightarrow> Inr [OutMsg m], self))"

text \<open>A command that sends one request once its arguments are read.\<close>

definition requesting :: "cmd_env \<Rightarrow> (cmd_err fail + request) \<Rightarrow> 'db cli_wallet \<Rightarrow> cmd_result \<times> 'db cli_wallet" where
  "requesting env req self =
     (case req of Inl e \<Rightarrow> (Inl e, self) | Inr req \<Rightarrow> send_print_rpc_req env req self)"

definition broadcast_command :: "wallet_ext \<Rightarrow> cmd_env \<Rightarrow> arg_matches \<Rightarrow> 'db cli_wallet \<Rightarrow> cmd_result \<times> 'db cli_wallet" where
  "broadcast_command W env args =
     requesting env (and_then (arg_value args ''hex'') (\<lambda>hex. and_then (decode_hex_tx W hex) (\<lambda>t. Inr (ReqBroadcast t))))"

definition get_properties_command :: "cmd_env \<Rightarrow> 'db cli_wallet \<Rightarrow> cmd_result \<times> 'db cli_wallet" where
  "get_properties_command env = requesting env (Inr ReqGetProperties)"

definition get_block_command :: "cmd_env \<Rightarrow> arg_matches \<Rightarrow> 'db cli_wallet \<Rightarrow> cmd_result \<times> 'db cli_wallet" where
  "get_block_command env args =
     requesting env (and_then (arg_value args ''height'') (\<lambda>s.
       and_then (parsed ''Failed to parse height argument'' (parse_uint s)) (\<lambda>h. Inr (ReqGetBlock h))))"

definition get_acc_info :: "wallet_ext \<Rightarrow> 'db ext \<Rightarrow> cmd_env \<Rightarrow> arg_matches \<Rightarrow> 'db cli_wallet \<Rightarrow> cmd_result \<times> 'db cli_wallet" where
  "get_acc_info W X env args self =
     requesting env
       (and_then (check_unlocked self) (\<lambda>_.
        and_then (arg_value args ''account'') (\<lambda>name.
        and_then (resolve_account W X ''Invalid account or key'' name self) (\<lambda>i. Inr (ReqGetAccountInfo i))))) self"

text \<open>\<open>build_mint_tx\<close> asks the node for the owner's wallet first.\<close>

definition mint_for :: "wallet_ext \<Rightarrow> cmd_env \<Rightarrow> arg_matches \<Rightarrow> u64 \<Rightarrow> asset \<Rightarrow> msg \<Rightarrow> cmd_result" where
  "mint_for W env args exp_at tokens res =
     and_then (case msg_body res of
                 BodyResponse (ResGetProperties props) \<Rightarrow> Inr (pr_owner props)
               | _ \<Rightarrow> Inl (Err (ErrMsg ''Failed to get blockchain properties''))) (\<lambda>owner.
     and_then (case owner of TxV0 (OwnerTx t) \<Rightarrow> Inr (wallet t) | _ \<Rightarrow> Inl Panic) (\<lambda>owner_wallet.
     and_then (case value_of args ''attachment_path'' of
                 Some path \<Rightarrow>
                   and_then (map_err Err (ev_file env path)) (\<lambda>buf.
                   and_then (arg_value args ''attachment_name'') (\<lambda>name. Inr (buf, ascii name)))
               | None \<Rightarrow> Inr ([], [])) (\<lambda>(file, file_name).
       print_tx W (TxV0 (MintTx \<lparr>mint_base = \<lparr>nonce = ev_tx_nonce env, expiry = exp_at, fee = Asset 0, signature_pairs = []\<rparr>,
         mint_to = owner_wallet, mint_amount = tokens, attachment = file, attachment_name = file_name\<rparr>)))))"

definition build_mint_tx :: "wallet_ext \<Rightarrow> 'db ext \<Rightarrow> cmd_env \<Rightarrow> arg_matches \<Rightarrow> 'db cli_wallet \<Rightarrow> cmd_result \<times> 'db cli_wallet" where
  "build_mint_tx W X env args self =
     (case and_then (parse_expiry env args) (\<lambda>exp_at.
           and_then (parse_asset_arg X args ''amount'' ''Failed to parse asset'') (\<lambda>tokens. Inr (exp_at, tokens))) of
        Inl e \<Rightarrow> (Inl e, self)
      | Inr (exp_at, tokens) \<Rightarrow>
          (case send_rpc_req env ReqGetProperties self of (r, sent, self) \<Rightarrow>
             (and_then r (mint_for W env args exp_at tokens), self)))"

section \<open>Dispatch\<close>

text \<open>\<open>process_line\<close> on what clap makes of the arguments: a subcommand or a message.  The flag says whether
  the line enters the history.\<close>

definition process_line :: "wallet_ext \<Rightarrow> 'db ext \<Rightarrow> cmd_env \<Rightarrow> (string list \<Rightarrow> string + string \<times> arg_matches) \<Rightarrow>
    string list \<Rightarrow> 'db cli_wallet \<Rightarrow> (bool \<times> cmd_result) \<times> 'db cli_wallet" where
  "process_line W X env clap line_args self =
     (if line_args = [] then ((False, Inr []), self)
      else
        (case clap line_args of
           Inl m \<Rightarrow> ((True, Inl (Err (ErrMsg m))), self)
         | Inr (cmd, args) \<Rightarrow>
             let keep = (\<lambda>r. ((True, r), self));
                 change = (\<lambda>history f. case f self of (r, self') \<Rightarrow> ((history, r), self'))
             in if cmd = ''new'' then change False (create_wallet W X env args)
                else if cmd = ''unlock'' then change False (unlock_wallet W X args)
                else if cmd = ''gen_keypair'' then keep (generate_keypair X env)
                else if cmd = ''account_id_to_address'' then keep (account_id_to_address X args)
                else if cmd = ''import_account'' then change True (import_account W X env args)
                else if cmd = ''delete_account'' then change True (delete_account W X args)
                else if cmd = ''list_accounts'' then keep (list_accounts W X self)
                else if cmd = ''get_account'' then keep (print_account_command W X args self)
                else if cmd = ''get_account_info'' then change True (get_acc_info W X env args)
                else if cmd = ''build_script'' then keep (build_script X args)
                else if cmd = ''args_to_bin'' then keep (args_to_bin W X args)
                else if cmd = ''check_script_size'' then keep (check_script_size W args)
                else if cmd = ''decode_tx'' then keep (decode_tx W args)
                else if cmd = ''sign_tx'' then keep (sign_tx W X args self)
                else if cmd = ''unsign_tx'' then keep (unsign_tx W args)
                else if cmd = ''broadcast'' then change True (broadcast_command W env args)
                else if cmd = ''build_create_account_tx'' then keep (build_create_tx W X env args self)
                else if cmd = ''build_update_account_tx'' then keep (build_update_tx W X env args self)
                else if cmd = ''build_mint_tx'' then change True (build_mint_tx W X env args)
                else if cmd = ''build_transfer_tx'' then keep (build_transfer_tx W X env args self)
                else if cmd = ''get_properties'' then change True (get_properties_command env)
                else if cmd = ''get_block'' then change True (get_block_command env args)
                else keep (Inl Panic)))"

section \<open>The prompt\<close>

text \<open>
  The loop of \<open>Wallet::start\<close>: what \<open>readline\<close> returns drives it, each line with the environment its
  command finds.  The state is the wallet, the lines kept in the history and what was printed.
\<close>

datatype readline = ReadLine string | ReadInterrupted | ReadEof | ReadError

record 'db repl =
  rp_wallet :: "'db cli_wallet"
  rp_history :: "string list"
  rp_printed :: "cmd_out list"

definition rp_print :: "cmd_out list \<Rightarrow> 'db repl \<Rightarrow> 'db repl" where
  "rp_print out self = self\<lparr>rp_printed := rp_printed self @ out\<rparr>"

text \<open>One round; the flag says whether the loop goes on.  A panic ends the program.\<close>

definition start_step :: "wallet_ext \<Rightarrow> 'db ext \<Rightarrow> (string list \<Rightarrow> string + string \<times> arg_matches) \<Rightarrow>
    cmd_env \<Rightarrow> readline \<Rightarrow> 'db repl \<Rightarrow> bool \<times> 'db repl" where
  "start_step W X clap env input self =
     (case input of
        ReadLine line \<Rightarrow>
          if line = [] then (True, self)
          else
            (case process_line W X env clap (parse_line line) (rp_wallet self) of
               ((store_history, r), w) \<Rightarrow>
                 let self = self\<lparr>rp_wallet := w\<rparr>;
                     kept = (if store_history then self\<lparr>rp_history := rp_history self @ [line]\<rparr> else self)
                 in (case r of
                       Inl Panic \<Rightarrow> (False, self)
                     | Inl (Err e) \<Rightarrow> (True, rp_print [OutErr e] kept)
                     | Inr out \<Rightarrow> (True, rp_print out kept)))
      | ReadInterrupted \<Rightarrow> (False, rp_print [OutText ''Closing wallet...''] self)
      | ReadEof \<Rightarrow> (False, rp_print [OutText ''Closing wallet...''] self)
      | ReadError \<Rightarrow> (False, rp_print [OutText ''Error reading input''] self))"

fun Wallet_start :: "wallet_ext \<Rightarrow> 'db ext \<Rightarrow> (string list \<Rightarrow> string + string \<times> arg_matches) \<Rightarrow>
    (cmd_env \<times> readline) list \<Rightarrow> 'db repl \<Rightarrow> 'db repl" where
  "Wallet_start W X clap [] self = self"
| "Wallet_start W X clap ((env, input) # inputs) self =
     (case start_step W X clap env input self of
        (True, self) \<Rightarrow> Wallet_start W X clap inputs self
      | (False, self) \<Rightarrow> self)"

end
