(* ===== verification/Wallet_Session.thy ===== *)
theory Wallet_Session
  imports Wallet_Cmd
begin

text \<open>
  A session of the wallet against what it promises: a vault with a password and named accounts.  Every
  line typed and every restart of the program keeps the database in step with the vault.
\<close>

section \<open>The vault\<close>

datatype vault = NoVault
  | Vault (vault_open: bool) (vault_salt: bytes) (vault_pass: bytes) (vault_accounts: "string \<Rightarrow> wallet_account option")

text \<open>The arguments of an import, when they all parse.\<close>

definition import_args :: "'db ext \<Rightarrow> arg_matches \<Rightarrow> (string \<times> wallet_account) option" where
  "import_args X args =
     (case (value_of args ''name'', value_of args ''account'', values_of args ''wif'') of
        (Some name, Some address, Some wifs) \<Rightarrow>
          (case (AccountId_from_wif X address, wif_keys (PrivateKey_from_wif X) ''Invalid wif'' wifs) of
             (Inr i, Inr ks) \<Rightarrow> Some (name, \<lparr>wa_id = i, wa_keys = ks\<rparr>)
           | _ \<Rightarrow> None)
      | _ \<Rightarrow> None)"

definition vault_new :: "cmd_env \<Rightarrow> arg_matches \<Rightarrow> vault \<Rightarrow> vault" where
  "vault_new env args v =
     (case (v, value_of args ''password'') of
        (NoVault, Some pass) \<Rightarrow> Vault False (ev_salt env) (ascii pass) Map.empty
      | _ \<Rightarrow> v)"

definition vault_unlock :: "wallet_ext \<Rightarrow> arg_matches \<Rightarrow> vault \<Rightarrow> vault" where
  "vault_unlock W args v =
     (case (v, value_of args ''password'') of
        (Vault op salt pass m, Some pass') \<Rightarrow>
          Vault (op \<or> derive_key W (ascii pass') salt = derive_key W pass salt) salt pass m
      | _ \<Rightarrow> v)"

definition vault_import :: "'db ext \<Rightarrow> arg_matches \<Rightarrow> vault \<Rightarrow> vault" where
  "vault_import X args v =
     (case (v, import_args X args) of
        (Vault True salt pass m, Some (name, acc)) \<Rightarrow>
          if m name = None \<and> (\<forall>a \<in> ran m. wa_id a \<noteq> wa_id acc) then Vault True salt pass (m(name \<mapsto> acc)) else v
      | _ \<Rightarrow> v)"

definition vault_delete :: "arg_matches \<Rightarrow> vault \<Rightarrow> vault" where
  "vault_delete args v =
     (case (v, value_of args ''name'') of
        (Vault True salt pass m, Some name) \<Rightarrow> Vault True salt pass (m(name := None))
      | _ \<Rightarrow> v)"

definition vault_line :: "wallet_ext \<Rightarrow> 'db ext \<Rightarrow> cmd_env \<Rightarrow> (string list \<Rightarrow> string + string \<times> arg_matches) \<Rightarrow>
    string list \<Rightarrow> vault \<Rightarrow> vault" where
  "vault_line W X env clap line_args v =
     (if line_args = [] then v
      else
        (case clap line_args of
           Inl m \<Rightarrow> v
         | Inr (cmd, args) \<Rightarrow>
             if cmd = ''new'' then vault_new env args v
             else if cmd = ''unlock'' then vault_unlock W args v
             else if cmd = ''import_account'' then vault_import X args v
             else if cmd = ''delete_account'' then vault_delete args v
             else v))"

text \<open>A restart forgets the key.\<close>

definition vault_close :: "vault \<Rightarrow> vault" where
  "vault_close v = (case v of NoVault \<Rightarrow> NoVault | Vault op salt pass m \<Rightarrow> Vault False salt pass m)"

section \<open>The database in step with the vault\<close>

definition wallet_repr :: "wallet_ext \<Rightarrow> 'db ext \<Rightarrow> 'db wallet_db \<Rightarrow> vault \<Rightarrow> bool" where
  "wallet_repr W X self v \<longleftrightarrow>
     (case v of
        NoVault \<Rightarrow> wd_state self = New \<and> wd_key self = None \<and> db_get X (wd_db self) CF_DEFAULT PROP_INIT = None \<and>
          (\<forall>k. db_get X (wd_db self) CF_ACCOUNTS k = None)
      | Vault op salt pass m \<Rightarrow>
          (\<exists>secret. wd_state self = (if op then Unlocked else Locked) \<and> wd_key self = (if op then Some secret else None) \<and>
             keyed W X (wd_db self) salt pass secret \<and> holds W X secret (wd_db self) m))"

text \<open>Draws of the documented lengths, with a nonce no stored entry has.\<close>

definition fresh_env :: "'db ext \<Rightarrow> cmd_env \<Rightarrow> 'db wallet_db \<Rightarrow> bool" where
  "fresh_env X env self \<longleftrightarrow> length (ev_salt env) = SALTBYTES \<and> length (ev_gen_key env) = KEYBYTES \<and>
     length (ev_nonce1 env) = NONCEBYTES \<and> length (ev_nonce2 env) = NONCEBYTES \<and>
     (\<forall>k v. db_get X (wd_db self) CF_ACCOUNTS k = Some v \<longrightarrow> take NONCEBYTES k \<noteq> ev_nonce1 env)"

text \<open>Arguments are Rust strings, and there are fewer than 65536 of a kind.\<close>

definition text_args :: "arg_matches \<Rightarrow> bool" where
  "text_args args \<longleftrightarrow> (\<forall>n s. value_of args n = Some s \<longrightarrow> utf8_valid (ascii s)) \<and>
     (\<forall>n ss. values_of args n = Some ss \<longrightarrow> length ss < 2 ^ 16)"

text \<open>What the session needs of the libraries; a key's Base58 text is ASCII of at most 2^32 bytes.\<close>

definition session_libs :: "wallet_ext \<Rightarrow> 'db ext \<Rightarrow> bool" where
  "session_libs W X \<longleftrightarrow> authentic W \<and> derive_ok W \<and> db_ok X \<and> wif_libs X \<and> (\<forall>k. wf_key_pair X k \<longrightarrow> key_storable X k)"

lemma session_libs_wallet: "session_libs W X \<Longrightarrow> wallet_libs W X"
  by (simp add: session_libs_def wallet_libs_def authentic_secretbox)

lemma open_wallet_repr:
  "wallet_repr W X self (Vault True salt pass m) \<Longrightarrow> open_wallet W X self m"
  by (auto simp: wallet_repr_def open_wallet_def keyed_def)

lemma wallet_repr_new:
  assumes "session_libs W X" "fresh_env X env self" "wallet_repr W X self NoVault"
  shows "\<exists>self'. set_password W X (ev_salt env) (ev_nonce1 env) (ev_gen_key env) pass self = (Inr self' :: 'e fail + _) \<and>
    wallet_repr W X self' (Vault False (ev_salt env) pass Map.empty)"
proof -
  have l: "db_ok X" "derive_ok W" using assms(1) by (simp_all add: session_libs_def)
  have f: "length (ev_salt env) = SALTBYTES" "length (ev_nonce1 env) = NONCEBYTES" "length (ev_gen_key env) = KEYBYTES"
    using assms(2) by (simp_all add: fresh_env_def)
  have r: "wd_state self = New" "\<And>k. db_get X (wd_db self) CF_ACCOUNTS k = None"
    using assms(3) by (simp_all add: wallet_repr_def)
  obtain self' where s: "set_password W X (ev_salt env) (ev_nonce1 env) (ev_gen_key env) pass self = (Inr self' :: 'e fail + _)"
    "wd_state self' = Locked" "wd_key self' = None" "keyed W X (wd_db self') (ev_salt env) pass (ev_gen_key env)"
    "db_get X (wd_db self') CF_ACCOUNTS = db_get X (wd_db self) CF_ACCOUNTS"
    using set_password_keyed [OF l f, of self "ev_gen_key env" pass, where 'e = 'e] r(1) by blast
  have "holds W X (ev_gen_key env) (wd_db self') Map.empty"
    by (rule holds_empty) (simp add: s(5) r(2))
  then have "wallet_repr W X self' (Vault False (ev_salt env) pass Map.empty)"
    using s(2-4) by (auto simp: wallet_repr_def)
  with s(1) show ?thesis by blast
qed

lemma wallet_repr_unlock:
  assumes "session_libs W X" "wallet_repr W X self (Vault False salt pass m)"
  shows "\<exists>self'. Db_unlock W X pass' self = (Inr (derive_key W pass' salt = derive_key W pass salt, self') :: 'e fail + _) \<and>
    wallet_repr W X self' (Vault (derive_key W pass' salt = derive_key W pass salt) salt pass m)"
proof -
  have l: "authentic W" "derive_ok W" using assms(1) by (simp_all add: session_libs_def)
  obtain secret where s: "wd_state self = Locked" "keyed W X (wd_db self) salt pass secret" "holds W X secret (wd_db self) m"
    using assms(2) by (auto simp: wallet_repr_def)
  show ?thesis
    using unlock_keyed [OF l s(2,1), of pass', where 'e = 'e] s assms(2)
    by (cases "derive_key W pass' salt = derive_key W pass salt") (auto simp: wallet_repr_def)
qed

section \<open>The commands\<close>

lemma create_wallet_repr:
  assumes "session_libs W X" "fresh_env X env (cw_db self)" "wallet_repr W X (cw_db self) v"
  shows "wallet_repr W X (cw_db (snd (create_wallet W X env args self))) (vault_new env args v)"
proof (cases v)
  case NoVault
  then have "wd_state (cw_db self) = New" using assms(3) by (simp add: wallet_repr_def)
  then show ?thesis
  proof (cases "value_of args ''password''")
    case (Some pass)
    then show ?thesis
      using wallet_repr_new [OF assms(1,2), of "ascii pass", where 'e = cmd_err] assms(3) NoVault \<open>wd_state (cw_db self) = New\<close>
      by (auto simp: create_wallet_def vault_new_def arg_value_def)
  qed (use assms(3) NoVault in \<open>simp add: create_wallet_def vault_new_def arg_value_def\<close>)
next
  case (Vault op salt pass m)
  then have "wd_state (cw_db self) = (if op then Unlocked else Locked)"
    using assms(3) by (auto simp: wallet_repr_def)
  then show ?thesis using assms(3) Vault by (cases op) (simp_all add: create_wallet_def vault_new_def)
qed

lemma unlock_wallet_repr:
  assumes "session_libs W X" "wallet_repr W X (cw_db self) v"
  shows "wallet_repr W X (cw_db (snd (unlock_wallet W X args self))) (vault_unlock W args v)"
proof (cases v)
  case NoVault
  then have "wd_state (cw_db self) = New" using assms(2) by (simp add: wallet_repr_def)
  then show ?thesis using assms(2) NoVault by (simp add: unlock_wallet_def vault_unlock_def)
next
  case (Vault op salt pass m)
  then have st: "wd_state (cw_db self) = (if op then Unlocked else Locked)"
    using assms(2) by (auto simp: wallet_repr_def)
  show ?thesis
  proof (cases "op \<or> value_of args ''password'' = None")
    case True
    then show ?thesis
      using assms(2) Vault st
      by (cases op) (auto simp: unlock_wallet_def vault_unlock_def arg_value_def split: option.splits)
  next
    case False
    then obtain pass' where p: "value_of args ''password'' = Some pass'" "\<not> op" by auto
    have "wallet_repr W X (cw_db self) (Vault False salt pass m)" using assms(2) Vault p(2) by simp
    from wallet_repr_unlock [OF assms(1) this, of "ascii pass'", where 'e = cmd_err] show ?thesis
      using st p Vault by (auto simp: unlock_wallet_def vault_unlock_def arg_value_def split: bool.splits)
  qed
qed

lemma wif_keys_length: "wif_keys from m ws = Inr ks \<Longrightarrow> length ks = length ws"
  by (induction ws arbitrary: ks) (auto simp: and_then_Inr_iff)

lemma wif_keys_wf:
  assumes "wif_libs X"
  shows "wif_keys (PrivateKey_from_wif X) m ws = Inr ks \<Longrightarrow> list_all (wf_key_pair X) ks"
  by (induction ws arbitrary: ks) (auto simp: and_then_Inr_iff map_err_Inr_iff dest: private_key_wif.from_payload [OF assms])

lemma import_args_storable:
  assumes "session_libs W X" "text_args args" "import_args X args = Some (name, acc)"
  shows "utf8_valid (ascii name)" "account_storable X acc"
proof -
  obtain wifs i ks where a: "value_of args ''name'' = Some name" "values_of args ''wif'' = Some wifs"
    "wif_keys (PrivateKey_from_wif X) ''Invalid wif'' wifs = Inr ks" "acc = \<lparr>wa_id = i, wa_keys = ks\<rparr>"
    using assms(3) by (auto simp: import_args_def split: option.splits sum.splits)
  show "utf8_valid (ascii name)" using a(1) assms(2) by (simp add: text_args_def)
  have "length wifs < 2 ^ 16" using a(2) assms(2) by (simp add: text_args_def)
  moreover have "list_all (key_storable X) ks"
    using wif_keys_wf [OF _ a(3)] assms(1) by (auto simp: session_libs_def list_all_iff)
  ultimately show "account_storable X acc"
    using wif_keys_length [OF a(3)] by (simp add: account_storable_def a(4))
qed

lemma import_request_eq:
  "ok (import_request X args self) = (if wd_state (cw_db self) = Unlocked then import_args X args else None)"
  by (auto simp: import_request_def check_unlocked_def arg_value_def args_of_def import_args_def unwrap_def ok_def and_then_def map_err_def
      split: option.splits sum.splits)

lemma import_account_eq:
  "snd (import_account W X env args self) =
     (case ok (import_request X args self) of
        None \<Rightarrow> self
      | Some req \<Rightarrow>
          (case import_checked W X env req (cw_db self) of Inl e \<Rightarrow> self | Inr (out, wdb) \<Rightarrow> self\<lparr>cw_db := wdb\<rparr>))"
  by (cases "import_request X args self") (simp_all add: import_account_def split: sum.split)

lemma import_account_repr:
  assumes "session_libs W X" "fresh_env X env (cw_db self)" "text_args args" "wallet_repr W X (cw_db self) v"
  shows "wallet_repr W X (cw_db (snd (import_account W X env args self))) (vault_import X args v)"
proof (cases "\<exists>salt pass m. v = Vault True salt pass m")
  case False
  then have "wd_state (cw_db self) \<noteq> Unlocked" "vault_import X args v = v"
    using assms(4) by (auto simp: wallet_repr_def vault_import_def split: vault.splits if_splits bool.splits)
  then show ?thesis using assms(4) by (simp add: import_account_eq import_request_eq)
next
  case True
  then obtain salt pass m where v: "v = Vault True salt pass m" by blast
  note libs = session_libs_wallet [OF assms(1)]
  have op: "open_wallet W X (cw_db self) m" using assms(4) v by (simp add: open_wallet_repr)
  then have st: "wd_state (cw_db self) = Unlocked" by (simp add: open_wallet_def)
  show ?thesis
  proof (cases "import_args X args")
    case None
    then show ?thesis using assms(4) v by (simp add: import_account_eq import_request_eq vault_import_def)
  next
    case (Some r)
    then obtain name acc where r: "import_args X args = Some (name, acc)" by (cases r) auto
    obtain accs where "get_accounts W X (cw_db self) = (Inr accs :: cmd_err fail + _) \<and>
      (find (\<lambda>(n, a). n = name \<or> wa_id a = wa_id acc) accs = None \<longleftrightarrow> m name = None \<and> (\<forall>a \<in> ran m. wa_id a \<noteq> wa_id acc))"
      using wallet_book.listing_unused [OF libs op, of name "wa_id acc"] by (rule exE)
    note accs = conjunct1 [OF this] conjunct2 [OF this]
    show ?thesis
    proof (cases "m name = None \<and> (\<forall>a \<in> ran m. wa_id a \<noteq> wa_id acc)")
      case False
      then have "find (\<lambda>(n, a). n = name \<or> wa_id a = wa_id acc) accs \<noteq> None"
        by (simp only: accs(2)) simp
      then obtain n a where "find (\<lambda>(n, a). n = name \<or> wa_id a = wa_id acc) accs = Some (n, a)"
        unfolding not_None_eq by (metis surj_pair)
      then show ?thesis
        using assms(4) v by (simp add: import_account_eq import_request_eq st r import_checked_def accs(1) vault_import_def)
          (use False in blast)
    next
      case True
      have fr: "db_get X (wd_db (cw_db self)) CF_ACCOUNTS (ev_nonce1 env @ bs) = None" for bs
      proof (rule ccontr)
        assume "db_get X (wd_db (cw_db self)) CF_ACCOUNTS (ev_nonce1 env @ bs) \<noteq> None"
        then show False using assms(2) by (auto simp: fresh_env_def)
      qed
      have len: "length (ev_nonce1 env) = NONCEBYTES" "length (ev_nonce2 env) = NONCEBYTES"
        using assms(2) by (simp_all add: fresh_env_def)
      obtain secret where s: "wd_key (cw_db self) = Some secret" "keyed W X (wd_db (cw_db self)) salt pass secret"
        "holds W X secret (wd_db (cw_db self)) m"
        using assms(4) v by (auto simp: wallet_repr_def)
      let ?ek = "encrypt_with_key W (ev_nonce1 env) (ascii name) secret"
      let ?db = "db_write X (wd_db (cw_db self)) [PutCf CF_ACCOUNTS ?ek
        (encrypt_with_key W (ev_nonce2 env) (WalletAccount_serialize X acc) secret)]"
      have k: "length secret = KEYBYTES" using s(2) by (simp add: keyed_def)
      have "holds W X secret ?db (m(name \<mapsto> acc))"
        using True fr import_args_storable [OF assms(1,3) r]
        by (intro holds_put [OF libs s(3) k _ _ len]) (simp_all add: encrypt_with_key_def)
      moreover have "keyed W X ?db salt pass secret"
        using s(2) assms(1) by (simp add: keyed_def session_libs_def db_get_write CF_ACCOUNTS_def CF_DEFAULT_def)
      ultimately have "wallet_repr W X ((cw_db self)\<lparr>wd_db := ?db\<rparr>) (Vault True salt pass (m(name \<mapsto> acc)))"
        using st s(1) by (auto simp: wallet_repr_def)
      then show ?thesis
        using True accs by (simp add: import_account_eq import_request_eq st r import_checked_def Db_set_account_def s(1) Let_def vault_import_def v)
    qed
  qed
qed

lemma del_account_keeps:
  assumes "session_libs W X" "open_wallet W X self m"
  shows "\<exists>wdb. Db_del_account W X name self = (Inr (m name \<noteq> None, wdb) :: 'e fail + _) \<and> open_wallet W X wdb (m(name := None)) \<and>
    wd_key wdb = wd_key self \<and> db_get X (wd_db wdb) CF_DEFAULT = db_get X (wd_db self) CF_DEFAULT"
proof -
  have db: "db_ok X" using assms(1) by (simp add: session_libs_def)
  obtain wdb where d: "Db_del_account W X name self = (Inr (m name \<noteq> None, wdb) :: 'e fail + _)" "open_wallet W X wdb (m(name := None))"
    using del_account_holds [OF db assms(2), where 'e = 'e] by blast
  have "wd_key wdb = wd_key self \<and> db_get X (wd_db wdb) CF_DEFAULT = db_get X (wd_db self) CF_DEFAULT"
    using d(1) by (auto simp: Db_del_account_def and_then_Inr_iff db_get_write [OF db] CF_ACCOUNTS_def CF_DEFAULT_def split: option.splits)
  with d show ?thesis by blast
qed

lemma delete_account_repr:
  assumes "session_libs W X" "wallet_repr W X (cw_db self) v"
  shows "wallet_repr W X (cw_db (snd (delete_account W X args self))) (vault_delete args v)"
proof (cases "\<exists>salt pass m. v = Vault True salt pass m")
  case False
  then have "wd_state (cw_db self) \<noteq> Unlocked" "vault_delete args v = v"
    using assms(2) by (auto simp: wallet_repr_def vault_delete_def split: vault.splits if_splits bool.splits)
  then show ?thesis using assms(2) by (simp add: delete_account_def check_unlocked_def)
next
  case True
  then obtain salt pass m where v: "v = Vault True salt pass m" by blast
  have op: "open_wallet W X (cw_db self) m" using assms(2) v by (simp add: open_wallet_repr)
  then have st: "wd_state (cw_db self) = Unlocked" by (simp add: open_wallet_def)
  show ?thesis
  proof (cases "value_of args ''name''")
    case None
    then show ?thesis using assms(2) by (simp add: delete_account_def arg_value_def st check_unlocked_def vault_delete_def v)
  next
    case (Some name)
    obtain wdb where d: "Db_del_account W X name (cw_db self) = (Inr (m name \<noteq> None, wdb) :: cmd_err fail + _)"
      "open_wallet W X wdb (m(name := None))" "wd_key wdb = wd_key (cw_db self)"
      "db_get X (wd_db wdb) CF_DEFAULT = db_get X (wd_db (cw_db self)) CF_DEFAULT"
      using del_account_keeps [OF assms(1) op] by blast
    have "wallet_repr W X wdb (Vault True salt pass (m(name := None)))"
      using d(2-4) assms(2) v by (auto simp: wallet_repr_def open_wallet_def keyed_def)
    then show ?thesis
      using d(1) by (simp add: delete_account_def arg_value_def st check_unlocked_def vault_delete_def v Some)
  qed
qed

lemma request_keeps_db:
  "cw_db (snd (snd (send_rpc_req env req self))) = cw_db self"
  "cw_db (snd (requesting env r self)) = cw_db self"
proof -
  show send: "cw_db (snd (snd (send_rpc_req env req self))) = cw_db self" for req
    by (simp add: send_rpc_req_def next_req_id_def Let_def split: sum.split prod.split)
  show "cw_db (snd (requesting env r self)) = cw_db self"
    using send by (simp add: requesting_def send_print_rpc_req_def split_beta split: sum.split)
qed

lemma commands_keep_db:
  "cw_db (snd (get_acc_info W X env args self)) = cw_db self"
  "cw_db (snd (broadcast_command W env args self)) = cw_db self"
  "cw_db (snd (get_properties_command env self)) = cw_db self"
  "cw_db (snd (get_block_command env args self)) = cw_db self"
  "cw_db (snd (build_mint_tx W X env args self)) = cw_db self"
  by (simp_all add: get_acc_info_def broadcast_command_def get_properties_command_def get_block_command_def request_keeps_db
      build_mint_tx_def split_beta split: sum.split)

lemma process_line_repr:
  assumes "session_libs W X" "fresh_env X env (cw_db self)" "wallet_repr W X (cw_db self) v"
    and "\<And>line_args cmd args. clap line_args = Inr (cmd, args) \<Longrightarrow> text_args args"
  shows "wallet_repr W X (cw_db (snd (process_line W X env clap line_args self))) (vault_line W X env clap line_args v)"
proof (cases "line_args = [] \<or> isl (clap line_args)")
  case True
  then show ?thesis using assms(3) by (auto simp: process_line_def vault_line_def isl_def)
next
  case False
  then obtain cmd args where c: "line_args \<noteq> []" "clap line_args = Inr (cmd, args)"
    by (cases "clap line_args") auto
  note t = assms(4) [OF c(2)]
  show ?thesis
    using create_wallet_repr [OF assms(1-3), of args] unlock_wallet_repr [OF assms(1,3), of args]
      import_account_repr [OF assms(1,2) t assms(3)] delete_account_repr [OF assms(1,3), of args] assms(3)
    by (simp add: process_line_def vault_line_def c Let_def split_beta commands_keep_db)
qed

lemma Wallet_new_repr:
  assumes "wallet_repr W X self v"
  shows "wallet_repr W X (cw_db (Wallet_new X (wd_db self))) (vault_close v)"
proof (cases v)
  case NoVault
  then show ?thesis using assms by (simp add: wallet_repr_def vault_close_def Wallet_new_def Db_new_def Let_def)
next
  case (Vault op salt pass m)
  then obtain secret where "keyed W X (wd_db self) salt pass secret" "holds W X secret (wd_db self) m"
    using assms by (auto simp: wallet_repr_def)
  then show ?thesis
    using Db_new_keyed [of W X "wd_db self"] by (auto simp: Vault wallet_repr_def vault_close_def Wallet_new_def Let_def)
qed

section \<open>Sessions\<close>

text \<open>What a user can do from an empty database on: type lines and restart the program.\<close>

inductive session :: "wallet_ext \<Rightarrow> 'db ext \<Rightarrow> (string list \<Rightarrow> string + string \<times> arg_matches) \<Rightarrow> 'db cli_wallet \<Rightarrow> vault \<Rightarrow> bool"
  for W :: wallet_ext and X :: "'db ext" and clap :: "string list \<Rightarrow> string + string \<times> arg_matches"
where
  start: "(\<And>cf k. db_get X db cf k = None) \<Longrightarrow> session W X clap (Wallet_new X db) NoVault"
| line: "session W X clap self v \<Longrightarrow> fresh_env X env (cw_db self) \<Longrightarrow>
    session W X clap (snd (process_line W X env clap (parse_line typed) self)) (vault_line W X env clap (parse_line typed) v)"
| restart: "session W X clap self v \<Longrightarrow> session W X clap (Wallet_new X (wd_db (cw_db self))) (vault_close v)"


lemma session_repr:
  assumes "session W X clap self v" "session_libs W X"
    and "\<And>line_args cmd args. clap line_args = Inr (cmd, args) \<Longrightarrow> text_args args"
  shows "wallet_repr W X (cw_db self) v"
  using assms(1)
proof (induction rule: session.induct)
  case (start db)
  then show ?case by (simp add: wallet_repr_def Wallet_new_def Db_new_def)
next
  case (line self v env typed)
  then show ?case using process_line_repr [OF assms(2)] assms(3) by blast
next
  case (restart self v)
  then show ?case using Wallet_new_repr by blast
qed

text \<open>What the user sees of the vault.\<close>

lemma session_sees:
  assumes "session W X clap self v" "session_libs W X"
    and "\<And>line_args cmd args. clap line_args = Inr (cmd, args) \<Longrightarrow> text_args args"
  shows "case v of
      NoVault \<Rightarrow> wd_state (cw_db self) = New
    | Vault True salt pass m \<Rightarrow> wd_state (cw_db self) = Unlocked \<and>
        (\<forall>name. Db_get_account W X name (cw_db self) = (Inr (m name) :: cmd_err fail + _))
    | Vault False salt pass m \<Rightarrow> wd_state (cw_db self) = Locked \<and>
        (\<forall>pass'. \<exists>self'. Db_unlock W X pass' (cw_db self) =
          (Inr (derive_key W pass' salt = derive_key W pass salt, self') :: cmd_err fail + _))"
proof -
  have r: "wallet_repr W X (cw_db self) v" by (rule session_repr [OF assms])
  show ?thesis
  proof (cases v)
    case NoVault
    then show ?thesis using r by (simp add: wallet_repr_def)
  next
    case (Vault op salt pass m)
    show ?thesis
    proof (cases op)
      case True
      then have "wallet_repr W X (cw_db self) (Vault True salt pass m)" using r Vault by simp
      then have op: "open_wallet W X (cw_db self) m" by (rule open_wallet_repr)
      then have "Db_get_account W X name (cw_db self) = (Inr (m name) :: cmd_err fail + _)" for name
        by (rule wallet_book.lookup_law [OF session_libs_wallet [OF assms(2)]])
      then show ?thesis using op True Vault by (simp add: open_wallet_def)
    next
      case False
      then have s: "wallet_repr W X (cw_db self) (Vault False salt pass m)" using r Vault by simp
      then have "wd_state (cw_db self) = Locked" by (auto simp: wallet_repr_def)
      then show ?thesis
        using wallet_repr_unlock [OF assms(2) s, where 'e = cmd_err] False Vault by auto
    qed
  qed
qed

section \<open>The prompt\<close>

text \<open>A round of the prompt is at most a line of the session.\<close>

lemma start_step_session:
  assumes "session W X clap (rp_wallet self) v" "fresh_env X env (cw_db (rp_wallet self))"
  shows "\<exists>v'. session W X clap (rp_wallet (snd (start_step W X clap env input self))) v'"
proof (cases "\<exists>line. input = ReadLine line \<and> line \<noteq> []")
  case True
  then obtain typed where t: "input = ReadLine typed" "typed \<noteq> []" by blast
  have "rp_wallet (snd (start_step W X clap env input self)) =
      snd (process_line W X env clap (parse_line typed) (rp_wallet self))"
    by (simp add: t start_step_def rp_print_def split_beta Let_def split: sum.split fail.split)
  then show ?thesis using session.line [OF assms] by metis
next
  case False
  then have "rp_wallet (snd (start_step W X clap env input self)) = rp_wallet self"
    by (cases input) (auto simp: start_step_def rp_print_def)
  then show ?thesis using assms(1) by metis
qed

text \<open>
  A line with a password is not kept in the history when clap accepts it; a line clap refuses is kept,
  whatever it holds, and so is an import with its private keys.
\<close>

lemma password_not_kept:
  assumes "clap (parse_line typed) = Inr (cmd, args)" "cmd = ''new'' \<or> cmd = ''unlock''"
  shows "rp_history (snd (start_step W X clap env (ReadLine typed) self)) = rp_history self"
proof -
  have "\<not> fst (fst (process_line W X env clap (parse_line typed) (rp_wallet self)))"
    using assms(2) by (elim disjE) (simp_all add: process_line_def assms(1) Let_def split_beta)
  then show ?thesis
    by (cases "process_line W X env clap (parse_line typed) (rp_wallet self)")
      (auto simp: start_step_def rp_print_def Let_def split: sum.split fail.split)
qed

lemma refused_line_kept:
  assumes "clap (parse_line typed) = Inl m" "parse_line typed \<noteq> []"
  shows "rp_history (snd (start_step W X clap env (ReadLine typed) self)) = rp_history self @ [typed]"
proof -
  have "typed \<noteq> []" using assms(2) by (auto simp: parse_line_def)
  then show ?thesis using assms by (simp add: start_step_def process_line_def rp_print_def Let_def)
qed

text \<open>
  An account update is built without asking for an unlocked wallet: on a locked one, whose key is
  gone, a command with readable arguments panics.
\<close>

lemma update_needs_key:
  assumes "wd_key (cw_db self) = None" "parse_expiry env args = Inr e" "value_of args ''account'' = Some name"
    and "parse_asset_arg X args ''fee'' ''Failed to parse asset for the fee'' = Inr a"
  shows "build_update_tx W X env args self = Inl Panic"
  by (simp add: build_update_tx_def assms resolve_account_def Db_get_account_def get_accounts_def arg_value_def)

end
