(* ===== verification/Wallet_Args.thy ===== *)
theory Wallet_Args
  imports Wallet_Session
begin

text \<open>
  The table of subcommands that \<open>wallet/mod.rs\<close> hands to clap, and what clap promises of the arguments it
  accepts under it.  With the table a command finds every argument it unwraps, and a wallet never panics
  on a line, apart from the cases named at the end.  The help texts of the table are left out.
\<close>

section \<open>The table\<close>

record arg_spec =
  as_name :: string
  as_long :: "string option"
  as_takes_value :: bool
  as_required :: bool
  as_multiple :: bool
  as_default :: "string option"
  as_requires :: "string option"

definition Arg_with_name :: "string \<Rightarrow> arg_spec" where
  "Arg_with_name n = \<lparr>as_name = n, as_long = None, as_takes_value = False, as_required = False, as_multiple = False,
     as_default = None, as_requires = None\<rparr>"

definition args_new :: "arg_spec list" where
  "args_new = [Arg_with_name ''password''\<lparr>as_required := True\<rparr>]"

definition args_unlock :: "arg_spec list" where
  "args_unlock = [Arg_with_name ''password''\<lparr>as_required := True\<rparr>]"

definition args_gen_keypair :: "arg_spec list" where
  "args_gen_keypair = []"

definition args_account_id_to_address :: "arg_spec list" where
  "args_account_id_to_address = [Arg_with_name ''id''\<lparr>as_takes_value := True, as_required := True\<rparr>]"

definition args_import_account :: "arg_spec list" where
  "args_import_account = [Arg_with_name ''name''\<lparr>as_long := Some ''name'', as_takes_value := True, as_required := True\<rparr>,
     Arg_with_name ''account''\<lparr>as_long := Some ''account'', as_takes_value := True, as_required := True\<rparr>,
     Arg_with_name ''wif''\<lparr>as_long := Some ''wif'', as_takes_value := True, as_required := True, as_multiple := True\<rparr>]"

definition args_delete_account :: "arg_spec list" where
  "args_delete_account = [Arg_with_name ''name''\<lparr>as_long := Some ''name'', as_takes_value := True, as_required := True\<rparr>]"

definition args_list_accounts :: "arg_spec list" where
  "args_list_accounts = []"

definition args_get_account :: "arg_spec list" where
  "args_get_account = [Arg_with_name ''name''\<lparr>as_long := Some ''name'', as_takes_value := True, as_required := True\<rparr>]"

definition args_get_account_info :: "arg_spec list" where
  "args_get_account_info = [Arg_with_name ''account''\<lparr>as_long := Some ''account'', as_takes_value := True, as_required := True\<rparr>]"

definition args_build_script :: "arg_spec list" where
  "args_build_script = [Arg_with_name ''ops''\<lparr>as_takes_value := True, as_required := True, as_multiple := True\<rparr>]"

definition args_args_to_bin :: "arg_spec list" where
  "args_args_to_bin = [Arg_with_name ''arg''\<lparr>as_takes_value := True, as_required := True, as_multiple := True\<rparr>]"

definition args_check_script_size :: "arg_spec list" where
  "args_check_script_size = [Arg_with_name ''hex''\<lparr>as_takes_value := True, as_required := True\<rparr>]"

definition args_decode_tx :: "arg_spec list" where
  "args_decode_tx = [Arg_with_name ''hex''\<lparr>as_takes_value := True, as_required := True\<rparr>]"

definition args_sign_tx :: "arg_spec list" where
  "args_sign_tx = [Arg_with_name ''hex''\<lparr>as_long := Some ''hex'', as_takes_value := True, as_required := True\<rparr>,
     Arg_with_name ''account''\<lparr>as_long := Some ''account'', as_takes_value := True, as_required := True, as_multiple := True\<rparr>]"

definition args_unsign_tx :: "arg_spec list" where
  "args_unsign_tx = [Arg_with_name ''hex''\<lparr>as_long := Some ''hex'', as_takes_value := True, as_required := True\<rparr>,
     Arg_with_name ''index''\<lparr>as_long := Some ''index'', as_takes_value := True, as_required := True\<rparr>]"

definition args_broadcast :: "arg_spec list" where
  "args_broadcast = [Arg_with_name ''hex''\<lparr>as_takes_value := True, as_required := True\<rparr>]"

definition args_build_create_account_tx :: "arg_spec list" where
  "args_build_create_account_tx = [Arg_with_name ''expiry''\<lparr>as_long := Some ''expiry'', as_takes_value := True, as_required := True, as_default := Some ''60000''\<rparr>,
     Arg_with_name ''fee''\<lparr>as_long := Some ''fee'', as_takes_value := True, as_required := True\<rparr>,
     Arg_with_name ''creator''\<lparr>as_long := Some ''creator'', as_takes_value := True, as_required := True\<rparr>,
     Arg_with_name ''balance''\<lparr>as_long := Some ''balance'', as_takes_value := True, as_required := True\<rparr>,
     Arg_with_name ''script''\<lparr>as_long := Some ''script'', as_takes_value := True\<rparr>,
     Arg_with_name ''threshold''\<lparr>as_long := Some ''threshold'', as_takes_value := True, as_required := True\<rparr>,
     Arg_with_name ''public_wif''\<lparr>as_long := Some ''public-wif'', as_takes_value := True, as_required := True, as_multiple := True\<rparr>]"

definition args_build_update_account_tx :: "arg_spec list" where
  "args_build_update_account_tx = [Arg_with_name ''expiry''\<lparr>as_long := Some ''expiry'', as_takes_value := True, as_required := True, as_default := Some ''60000''\<rparr>,
     Arg_with_name ''fee''\<lparr>as_long := Some ''fee'', as_takes_value := True, as_required := True\<rparr>,
     Arg_with_name ''account''\<lparr>as_long := Some ''account'', as_takes_value := True, as_required := True\<rparr>,
     Arg_with_name ''script''\<lparr>as_long := Some ''script'', as_takes_value := True\<rparr>,
     Arg_with_name ''threshold''\<lparr>as_long := Some ''threshold'', as_takes_value := True, as_requires := Some ''public_wif''\<rparr>,
     Arg_with_name ''public_wif''\<lparr>as_long := Some ''public-wif'', as_takes_value := True, as_multiple := True, as_requires := Some ''threshold''\<rparr>]"

definition args_build_mint_tx :: "arg_spec list" where
  "args_build_mint_tx = [Arg_with_name ''expiry''\<lparr>as_long := Some ''expiry'', as_takes_value := True, as_required := True, as_default := Some ''60000''\<rparr>,
     Arg_with_name ''amount''\<lparr>as_long := Some ''amount'', as_takes_value := True, as_required := True\<rparr>,
     Arg_with_name ''attachment_path''\<lparr>as_long := Some ''attachment-path'', as_takes_value := True, as_requires := Some ''attachment_name''\<rparr>,
     Arg_with_name ''attachment_name''\<lparr>as_long := Some ''attachment-name'', as_takes_value := True\<rparr>]"

definition args_build_transfer_tx :: "arg_spec list" where
  "args_build_transfer_tx = [Arg_with_name ''expiry''\<lparr>as_long := Some ''expiry'', as_takes_value := True, as_required := True, as_default := Some ''60000''\<rparr>,
     Arg_with_name ''from_account''\<lparr>as_long := Some ''from-account'', as_takes_value := True, as_required := True\<rparr>,
     Arg_with_name ''call_fn''\<lparr>as_long := Some ''call-fn'', as_takes_value := True, as_required := True\<rparr>,
     Arg_with_name ''args''\<lparr>as_long := Some ''args'', as_takes_value := True\<rparr>,
     Arg_with_name ''amount''\<lparr>as_long := Some ''amount'', as_takes_value := True, as_required := True\<rparr>,
     Arg_with_name ''fee''\<lparr>as_long := Some ''fee'', as_takes_value := True, as_required := True\<rparr>,
     Arg_with_name ''memo''\<lparr>as_long := Some ''memo'', as_takes_value := True\<rparr>]"

definition args_get_properties :: "arg_spec list" where
  "args_get_properties = []"

definition args_get_block :: "arg_spec list" where
  "args_get_block = [Arg_with_name ''height''\<lparr>as_takes_value := True, as_required := True\<rparr>]"

definition cli_commands :: "(string \<times> arg_spec list) list" where
  "cli_commands = [
     (''new'', args_new),
     (''unlock'', args_unlock),
     (''gen_keypair'', args_gen_keypair),
     (''account_id_to_address'', args_account_id_to_address),
     (''import_account'', args_import_account),
     (''delete_account'', args_delete_account),
     (''list_accounts'', args_list_accounts),
     (''get_account'', args_get_account),
     (''get_account_info'', args_get_account_info),
     (''build_script'', args_build_script),
     (''args_to_bin'', args_args_to_bin),
     (''check_script_size'', args_check_script_size),
     (''decode_tx'', args_decode_tx),
     (''sign_tx'', args_sign_tx),
     (''unsign_tx'', args_unsign_tx),
     (''broadcast'', args_broadcast),
     (''build_create_account_tx'', args_build_create_account_tx),
     (''build_update_account_tx'', args_build_update_account_tx),
     (''build_mint_tx'', args_build_mint_tx),
     (''build_transfer_tx'', args_build_transfer_tx),
     (''get_properties'', args_get_properties),
     (''get_block'', args_get_block)]"

lemmas args_defs = args_new_def args_unlock_def args_gen_keypair_def args_account_id_to_address_def args_import_account_def
  args_delete_account_def args_list_accounts_def args_get_account_def args_get_account_info_def args_build_script_def
  args_args_to_bin_def args_check_script_size_def args_decode_tx_def args_sign_tx_def args_unsign_tx_def args_broadcast_def
  args_build_create_account_tx_def args_build_update_account_tx_def args_build_mint_tx_def args_build_transfer_tx_def
  args_get_properties_def args_get_block_def Arg_with_name_def

section \<open>What clap promises\<close>

text \<open>
  An accepted argument has a first value and the list of its values; a required one and one with a default
  are accepted, and one that requires another comes with it.
\<close>

definition given :: "arg_matches \<Rightarrow> string \<Rightarrow> bool" where
  "given args n \<longleftrightarrow> value_of args n \<noteq> None \<and> values_of args n \<noteq> None"

definition spec_met :: "arg_matches \<Rightarrow> arg_spec \<Rightarrow> bool" where
  "spec_met args s \<longleftrightarrow> (as_required s \<or> as_default s \<noteq> None \<longrightarrow> given args (as_name s)) \<and>
     (case as_requires s of None \<Rightarrow> True | Some r \<Rightarrow> value_of args (as_name s) \<noteq> None \<longrightarrow> given args r)"

definition clap_ok :: "(string list \<Rightarrow> string + string \<times> arg_matches) \<Rightarrow> bool" where
  "clap_ok clap \<longleftrightarrow> (\<forall>line_args cmd args specs. clap line_args = Inr (cmd, args) \<longrightarrow>
     map_of cli_commands cmd = Some specs \<longrightarrow> list_all (spec_met args) specs)"

section \<open>Results without a panic\<close>

definition calm :: "'e fail + 'a \<Rightarrow> bool" where
  "calm r \<longleftrightarrow> r \<noteq> Inl Panic"

named_theorems calm_intros "operations that do not panic"

lemma calm_basics [calm_intros]:
  "calm (Inr x)" "calm (Inl (Err e))"
  "calm m \<Longrightarrow> (\<And>x. m = Inr x \<Longrightarrow> calm (f x)) \<Longrightarrow> calm (and_then m f)"
  "calm (ok_or v (Err e'))" "calm (map_err (\<lambda>x. Err (g x)) r)"
  by (cases m; cases v; cases r; simp add: calm_def)+

lemma calm_map_fail [calm_intros]: "calm r \<Longrightarrow> calm (map_err (map_fail g) r)"
  by (auto simp: calm_def map_err_def split: sum.splits)

lemma calm_option [calm_intros]:
  "(v = None \<Longrightarrow> calm a) \<Longrightarrow> (\<And>x. v = Some x \<Longrightarrow> calm (f x)) \<Longrightarrow> calm (case v of None \<Rightarrow> a | Some x \<Rightarrow> f x)"
  by (cases v) simp_all

lemma calm_args [calm_intros]:
  "value_of args n \<noteq> None \<Longrightarrow> calm (arg_value args n)"
  "values_of args n \<noteq> None \<Longrightarrow> calm (args_of args n)"
  "calm (parsed m r)"
  by (auto simp: calm_def arg_value_def args_of_def parsed_def map_err_def split: sum.split)

lemma calm_parts [calm_intros]:
  "calm (check_unlocked self)" "calm (hex_to_bytes W s)" "calm (decode_hex_tx W s)" "calm (print_tx W t)"
  by (auto simp: check_unlocked_def hex_to_bytes_def decode_hex_tx_def print_tx_def split_beta intro!: calm_intros)

lemma calm_unlocked:
  "(wd_state (cw_db self) = Unlocked \<Longrightarrow> calm (f ())) \<Longrightarrow> calm (and_then (check_unlocked self) f)"
  by (auto simp: check_unlocked_def intro: calm_intros)

text \<open>A text whose third byte ends a character, or that is shorter.\<close>

definition sliceable :: "string \<Rightarrow> bool" where
  "sliceable s \<longleftrightarrow> length s < 3 \<or> is_char_boundary s 3"

lemma calm_from_wif [calm_intros]:
  "sliceable s \<Longrightarrow> calm (AccountId_from_wif X s)" "sliceable s \<Longrightarrow> calm (PublicKey_from_wif X s)"
  "calm (PrivateKey_from_wif X s)"
  by (auto simp: AccountId_from_wif_def PublicKey_from_wif_def PrivateKey_from_wif_def sliceable_def str_take_def Let_def
      split: prod.split intro!: calm_intros)

text \<open>Elsewhere the slice panics.\<close>

lemma unsliceable_panics:
  "\<not> sliceable s \<Longrightarrow> AccountId_from_wif X s = Inl Panic" "\<not> sliceable s \<Longrightarrow> PublicKey_from_wif X s = Inl Panic"
  by (simp_all add: AccountId_from_wif_def PublicKey_from_wif_def sliceable_def str_take_def)

lemma calm_wif_keys [calm_intros]: "(\<And>w. w \<in> set ws \<Longrightarrow> calm (from w)) \<Longrightarrow> calm (wif_keys from m ws)"
  by (induction ws) (auto intro!: calm_intros)

lemma calm_arg_bytes [calm_intros]: "list_all sliceable (List.map_filter (strip_prefix ''address='') as) \<Longrightarrow> calm (arg_bytes X as)"
proof (induction as)
  case (Cons a as)
  have "list_all sliceable (List.map_filter (strip_prefix ''address='') as)"
    "\<And>s. strip_prefix ''address='' a = Some s \<Longrightarrow> sliceable s"
    using Cons.prems by (auto simp: List.map_filter_simps split: option.splits)
  then show ?case using Cons.IH by (auto intro!: calm_intros split: option.split)
qed (simp add: calm_intros)

lemma calm_expiry [calm_intros]: "value_of args ''expiry'' \<noteq> None \<Longrightarrow> calm (parse_expiry env args)"
  unfolding parse_expiry_def by (intro calm_intros)

lemma calm_asset_arg [calm_intros]: "value_of args n \<noteq> None \<Longrightarrow> calm (parse_asset_arg X args n m)"
  unfolding parse_asset_arg_def by (intro calm_intros)

text \<open>The values of an argument.\<close>

definition arg_list :: "arg_matches \<Rightarrow> string \<Rightarrow> string list" where
  "arg_list args n = (case values_of args n of None \<Rightarrow> [] | Some ss \<Rightarrow> ss)"

definition arg_text :: "arg_matches \<Rightarrow> string \<Rightarrow> string list" where
  "arg_text args n = (case value_of args n of None \<Rightarrow> [] | Some s \<Rightarrow> [s])"

lemma arg_value_text: "list_all P (arg_text args n) \<Longrightarrow> arg_value args n = Inr s \<Longrightarrow> P s"
  by (simp add: arg_text_def arg_value_def unwrap_Inr_iff)

lemma args_of_list: "args_of args n = Inr ss \<Longrightarrow> arg_list args n = ss"
  by (simp add: arg_list_def args_of_def unwrap_Inr_iff)

lemma calm_permissions [calm_intros]:
  assumes "values_of args ''public_wif'' \<noteq> None" "list_all sliceable (arg_list args ''public_wif'')"
  shows "calm (parse_permissions X args s)"
  unfolding parse_permissions_def
  by (intro calm_intros assms(1)) (use assms(2) in \<open>auto simp: list_all_iff dest: args_of_list\<close>)

section \<open>The open wallet\<close>

lemma opened:
  assumes "wallet_repr W X (cw_db self) v" "wd_state (cw_db self) = Unlocked"
  shows "\<exists>m. open_wallet W X (cw_db self) m"
proof (cases v)
  case (Vault op salt pass m)
  then have "op" using assms by (auto simp: wallet_repr_def split: if_splits)
  then show ?thesis using assms(1) Vault open_wallet_repr by fastforce
qed (use assms in \<open>simp add: wallet_repr_def\<close>)

lemma calm_lookup:
  assumes "wallet_libs W X" "open_wallet W X (cw_db self) m"
  shows "calm (Db_get_account W X n (cw_db self) :: cmd_err fail + _)"
proof -
  have "Db_get_account W X n (cw_db self) = (Inr (m n) :: cmd_err fail + _)" by (rule wallet_book.lookup_law [OF assms])
  then show ?thesis by (simp add: calm_def)
qed

lemma calm_resolve:
  assumes "wallet_libs W X" "open_wallet W X (cw_db self) m" "sliceable n"
  shows "calm (resolve_account W X t n self)"
  unfolding resolve_account_def
  by (intro calm_intros calm_lookup [OF assms(1,2)] assms(3))

lemma calm_sign:
  assumes "wallet_libs W X" "open_wallet W X (cw_db self) m"
  shows "calm (sign_with_accounts W X self ns t)"
proof (induction ns arbitrary: t)
  case (Cons n ns)
  show ?case unfolding sign_with_accounts.simps by (intro calm_intros calm_lookup [OF assms] Cons)
qed (simp add: calm_intros)

section \<open>Building scripts\<close>

text \<open>Arguments do not count as functions.\<close>

lemma next_arg_count: "next_arg op iter = Inr (a, iter') \<Longrightarrow> count_list iter' x \<le> count_list iter x"
  by (auto simp: next_arg_def split: list.splits)

lemma next_uint_count: "next_uint op iter = Inr (n, iter') \<Longrightarrow> count_list iter' x \<le> count_list iter x"
  by (auto simp: next_uint_def and_then_Inr_iff dest: next_arg_count)

lemma parse_op_count: "parse_op X op iter = Inr (frame, iter') \<Longrightarrow> count_list iter' x \<le> count_list iter x"
  by (auto simp: parse_op_def and_then_Inr_iff split: option.splits if_splits
      dest!: next_arg_count [where x = x] next_uint_count [where x = x])

text \<open>The addresses among the words of a script.\<close>

fun op_addresses :: "string list \<Rightarrow> string list" where
  "op_addresses (op # a # ops) = (if op = ''OP_ACCOUNTID'' then [a] else []) @ op_addresses (a # ops)"
| "op_addresses _ = []"

lemma op_addresses_Cons: "set (op_addresses ops) \<subseteq> set (op_addresses (op # ops))"
  by (cases ops) auto

lemma op_addresses_drop: "set (op_addresses (drop k ops)) \<subseteq> set (op_addresses ops)"
proof (induction k arbitrary: ops)
  case (Suc k)
  show ?case
  proof (cases ops)
    case (Cons op ops')
    then show ?thesis using Suc [of ops'] op_addresses_Cons [of ops' op] by simp
  qed simp
qed simp

lemma next_arg_drop: "next_arg op iter = Inr (a, iter') \<Longrightarrow> \<exists>k. iter' = drop k iter"
  by (auto simp: next_arg_def split: list.splits intro: exI [of _ 1])

lemma next_uint_drop: "next_uint op iter = Inr (n, iter') \<Longrightarrow> \<exists>k. iter' = drop k iter"
  by (auto simp: next_uint_def and_then_Inr_iff dest: next_arg_drop)

lemma parse_op_drop: "parse_op X op iter = Inr (frame, iter') \<Longrightarrow> \<exists>k. iter' = drop k iter"
  by (auto simp: parse_op_def and_then_Inr_iff split: option.splits if_splits dest!: next_arg_drop next_uint_drop)
    (metis drop0 drop_drop)+

lemma calm_next [calm_intros]: "calm (next_arg op iter)" "calm (next_uint op iter)"
proof -
  show a: "calm (next_arg op iter)" for op iter by (auto simp: next_arg_def calm_intros split: list.split)
  show "calm (next_uint op iter)" unfolding next_uint_def by (auto intro!: calm_intros a)
qed

lemma calm_cases:
  "(b \<Longrightarrow> calm x) \<Longrightarrow> (\<not> b \<Longrightarrow> calm y) \<Longrightarrow> calm (if b then x else y)"
  "(\<And>u v. p = (u, v) \<Longrightarrow> calm (f u v)) \<Longrightarrow> calm (case p of (u, v) \<Rightarrow> f u v)"
  by (simp_all split: prod.split)

lemma parse_op_calm:
  assumes "list_all sliceable (op_addresses (op # iter))"
  shows "calm (parse_op X op iter)"
proof -
  have "sliceable a" if "op = ''OP_ACCOUNTID''" "next_arg op iter = Inr p" "p = (a, iter')" for p a iter'
    using assms that by (cases iter) (auto simp: next_arg_def)
  then show ?thesis
    unfolding parse_op_def by (intro calm_intros calm_cases) (rule refl | assumption)+
qed

lemma parse_op_frame: "parse_op X op iter = Inr (frame, iter') \<Longrightarrow> frame \<noteq> OpDefine as"
  by (auto simp: parse_op_def plain_ops_def and_then_Inr_iff dest!: map_of_SomeD split: option.splits if_splits)

lemma FnBuilder_push_calm: "\<forall>as. frame \<noteq> OpDefine as \<Longrightarrow> \<exists>f'. FnBuilder_push f frame = Inr f'"
  by (cases frame) (simp_all add: FnBuilder_push_def)

lemma push_pending_calm:
  assumes "length (lookup_table b) + (if fnb = None then 0 else 1) \<le> 255"
  shows "\<exists>b'. push_pending b fnb = (Inr b' :: 'e fail + builder) \<and>
    length (lookup_table b') = length (lookup_table b) + (if fnb = None then 0 else 1)"
  using assms by (cases fnb) (simp_all add: push_pending_def Builder_push_def Let_def)

lemma build_loop_calm:
  assumes "length (lookup_table b) + (if fnb = None then 0 else 1) + count_list ops ''OP_DEFINE'' \<le> 255"
    and "list_all sliceable (op_addresses ops)"
  shows "case build_loop X b fnb fn_id ops of
      Inl e \<Rightarrow> e \<noteq> Panic
    | Inr (b', fnb') \<Rightarrow> length (lookup_table b') + (if fnb' = None then 0 else 1) \<le> 255"
  using assms
proof (induction X b fnb fn_id ops rule: build_loop.induct)
  case (1 X b fnb fn_id)
  then show ?case by simp
next
  case (2 X b fnb fn_id op iter)
  have words: "list_all sliceable (op_addresses iter)"
    using 2(4) op_addresses_Cons [of iter op] by (auto simp: list_all_iff)
  show ?case
  proof (cases "op = ''OP_DEFINE''")
    case True
    have "length (lookup_table b) + (if fnb = None then 0 else 1) \<le> 255" using 2(3) by simp
    from push_pending_calm [OF this, where 'e = build_error] obtain b' where
      b': "push_pending b fnb = (Inr b' :: build_error fail + builder)"
      "length (lookup_table b') = length (lookup_table b) + (if fnb = None then 0 else 1)" by blast
    obtain f where f: "FnBuilder_new fn_id (OpDefine []) = (Inr f :: build_error fail + _)"
      by (simp add: FnBuilder_new_def)
    show ?thesis
      using 2(1) [OF True, of b' f] 2(3) words b'(2) f b'(1)
      by (simp add: True push_pending_def)
  next
    case False
    show ?thesis
    proof (cases fnb)
      case (Some f)
      show ?thesis
      proof (cases "parse_op X op iter")
        case (Inr r)
        obtain frame iter' where r: "r = (frame, iter')" by (cases r)
        obtain f' where f': "FnBuilder_push f frame = (Inr f' :: build_error fail + _)"
          using FnBuilder_push_calm parse_op_frame Inr r by metis
        obtain k where "iter' = drop k iter" using parse_op_drop Inr r by blast
        then have "list_all sliceable (op_addresses iter')"
          using words op_addresses_drop [of k iter] by (auto simp: list_all_iff)
        then show ?thesis
          using 2(2) [OF False Some Inr [unfolded r] refl, of f'] 2(3) parse_op_count [OF Inr [unfolded r], of "''OP_DEFINE''"] False f'
          by (simp add: Some Inr r)
      qed (use parse_op_calm [OF 2(4), of X] in \<open>simp add: False Some calm_def\<close>)
    qed (simp add: False)
  qed
qed

lemma build_text_calm:
  assumes "count_list ops ''OP_DEFINE'' \<le> 255" "list_all sliceable (op_addresses ops)"
  shows "calm (build_text X ops)"
proof (cases "build_loop X Builder_new None 0 ops")
  case (Inl e)
  then show ?thesis
    using build_loop_calm [of Builder_new None ops X 0] assms by (auto simp: build_text_def calm_def Builder_new_def)
next
  case (Inr r)
  obtain b fnb where r: "r = (b, fnb)" by (cases r)
  then have "length (lookup_table b) + (if fnb = None then 0 else 1) \<le> 255"
    using build_loop_calm [of Builder_new None ops X 0] assms Inr by (simp add: Builder_new_def)
  from push_pending_calm [OF this, where 'e = build_error] show ?thesis
    by (auto simp: build_text_def Inr r push_pending_def intro: calm_intros)
qed

section \<open>Requests\<close>

text \<open>
  What a node sends until the wallet has its reply: an error or a response, or a message the wallet cannot
  read, comes at last, and the properties name an owner transaction.
\<close>

definition final_msg :: "ws_incoming \<Rightarrow> bool" where
  "final_msg m \<longleftrightarrow>
     (case m of
        WsOther \<Rightarrow> False
      | WsBinary bs \<Rightarrow>
          (case Msg_deserialize bs of
             Inl e \<Rightarrow> True
           | Inr (m, _) \<Rightarrow> (case msg_body m of BodyError _ \<Rightarrow> True | BodyResponse _ \<Rightarrow> True | _ \<Rightarrow> False)))"

definition node_replies :: "cmd_env \<Rightarrow> bool" where
  "node_replies env \<longleftrightarrow> (case ev_conn env of Inl e \<Rightarrow> True | Inr ms \<Rightarrow> list_ex final_msg ms)"

lemma await_reply_calm: "list_ex final_msg ms \<Longrightarrow> calm (fst (await_reply ms sent))"
proof (induction ms sent rule: await_reply.induct)
  case (3 res ms sent)
  show ?case
  proof (cases "Msg_deserialize res")
    case (Inr r)
    obtain m cur where r: "r = (m, cur)" by (cases r)
    show ?thesis
    proof (cases "msg_body m")
      case (BodyPing n)
      obtain buf where "Msg_serialize \<lparr>msg_id = msg_id m, msg_body = BodyPong n\<rparr> = (Inr buf :: cmd_err fail + _)"
        by (simp add: Msg_serialize_def)
      then show ?thesis using 3 by (simp add: Inr r BodyPing final_msg_def)
    qed (use 3 in \<open>simp_all add: Inr r final_msg_def calm_intros\<close>)
  qed (simp add: calm_intros)
qed (simp_all add: final_msg_def)

lemma send_rpc_req_calm:
  assumes "node_replies env"
  shows "calm (fst (send_rpc_req env req self))"
proof -
  obtain i self' where n: "next_req_id self = (i, self')" by (cases "next_req_id self")
  obtain buf where b: "Msg_serialize \<lparr>msg_id = i, msg_body = BodyRequest req\<rparr> = (Inr buf :: cmd_err fail + _)"
    by (simp add: Msg_serialize_def)
  show ?thesis
    using assms await_reply_calm
    by (cases "ev_conn env") (auto simp: send_rpc_req_def n b node_replies_def split_beta intro: calm_intros)
qed

lemma requesting_calm:
  assumes "node_replies env" "calm req"
  shows "calm (fst (requesting env req self))"
proof (cases req)
  case (Inr r)
  obtain res sent self' where s: "send_rpc_req env r self = (res, sent, self')" by (cases "send_rpc_req env r self")
  then have "calm res" using send_rpc_req_calm [OF assms(1), of r self] by simp
  then show ?thesis
    by (auto simp: requesting_def send_print_rpc_req_def Inr s calm_def split: sum.splits fail.splits)
qed (use assms(2) in \<open>simp add: requesting_def calm_def\<close>)

text \<open>The properties a node answers always name an owner transaction: others are not decoded.\<close>

lemma decoded_owner:
  assumes "Msg_deserialize bs = Inr (m, cur)" "msg_body m = BodyResponse (ResGetProperties props)"
  shows "is_owner (pr_owner props)"
  using msg_codec.io_dec_wf [OF assms(1)] assms(2) by (simp add: wf_msg_def)

lemma await_reply_decoded: "fst (await_reply ms sent) = Inr m \<Longrightarrow> \<exists>bs cur. Msg_deserialize bs = Inr (m, cur)"
  by (induction ms sent rule: await_reply.induct) (auto split: sum.splits body.splits, blast+)

lemma mint_for_calm:
  assumes "Msg_deserialize bs = Inr (m, cur)"
    and "value_of args ''attachment_path'' \<noteq> None \<Longrightarrow> value_of args ''attachment_name'' \<noteq> None"
  shows "calm (mint_for W env args exp_at tokens m)"
proof (cases "\<exists>props. msg_body m = BodyResponse (ResGetProperties props)")
  case True
  then obtain props where p: "msg_body m = BodyResponse (ResGetProperties props)" by blast
  then obtain t where "pr_owner props = TxV0 (OwnerTx t)"
    using decoded_owner [OF assms(1) p] by (auto simp: is_owner_def split: tx_variant.splits tx_variant_v0.splits)
  then show ?thesis
    using assms(2) by (auto simp: mint_for_def p split_beta split: option.split intro!: calm_intros)
next
  case False
  then show ?thesis
    by (auto simp: mint_for_def intro: calm_intros split: body.split response.split)
qed

section \<open>The commands\<close>

lemma create_wallet_calm:
  assumes "derive_ok W" "value_of args ''password'' \<noteq> None"
  shows "calm (fst (create_wallet W X env args self))"
proof (cases "wd_state (cw_db self)")
  case New
  obtain pass where p: "value_of args ''password'' = Some pass" using assms(2) by blast
  obtain k where "derive_key W (ascii pass) (ev_salt env) = Some k" using assms(1) by (auto simp: derive_ok_def)
  then show ?thesis by (simp add: create_wallet_def New arg_value_def p set_password_def Let_def calm_intros)
qed (simp_all add: create_wallet_def calm_intros)

lemma unlock_wallet_calm:
  assumes "session_libs W X" "wallet_repr W X (cw_db self) v" "value_of args ''password'' \<noteq> None"
  shows "calm (fst (unlock_wallet W X args self))"
proof (cases "wd_state (cw_db self)")
  case Locked
  obtain pass where p: "value_of args ''password'' = Some pass" using assms(3) by blast
  obtain salt pass0 m where "v = Vault False salt pass0 m"
    using assms(2) Locked by (cases v) (auto simp: wallet_repr_def split: if_splits)
  then have "wallet_repr W X (cw_db self) (Vault False salt pass0 m)" using assms(2) by simp
  from wallet_repr_unlock [OF assms(1) this, of "ascii pass", where 'e = cmd_err] show ?thesis
    by (auto simp: unlock_wallet_def Locked arg_value_def p intro: calm_intros split: bool.split)
qed (simp_all add: unlock_wallet_def calm_intros)

lemma import_account_calm:
  assumes "wallet_libs W X" "wallet_repr W X (cw_db self) v"
    and "value_of args ''name'' \<noteq> None" "value_of args ''account'' \<noteq> None" "values_of args ''wif'' \<noteq> None"
    and "list_all sliceable (arg_text args ''account'')"
  shows "calm (fst (import_account W X env args self))"
proof -
  have r: "calm (import_request X args self)"
    unfolding import_request_def by (intro calm_intros assms(3-5) arg_value_text [OF assms(6)])
  have c: "calm (import_checked W X env req (cw_db self))" if "import_request X args self = Inr req" for req
  proof -
    have "wd_state (cw_db self) = Unlocked"
      using that by (auto simp: import_request_def check_unlocked_def split: if_splits)
    then obtain m where m: "open_wallet W X (cw_db self) m" using opened [OF assms(2)] by blast
    have "\<exists>accs. get_accounts W X (cw_db self) = (Inr accs :: cmd_err fail + _) \<and> (\<forall>n a. (n, a) \<in> set accs \<longleftrightarrow> m n = Some a)"
      by (rule wallet_book.listing_law [OF assms(1) m])
    then show ?thesis
      using m by (auto simp: import_checked_def Db_set_account_def open_wallet_def Let_def split_beta intro!: calm_intros
          split: option.split)
  qed
  show ?thesis
    using r c by (cases "import_request X args self") (auto simp: import_account_def calm_def split: sum.split)
qed

lemma delete_account_calm:
  assumes "session_libs W X" "wallet_repr W X (cw_db self) v" "value_of args ''name'' \<noteq> None"
  shows "calm (fst (delete_account W X args self))"
proof (cases "wd_state (cw_db self) = Unlocked")
  case True
  obtain name where n: "value_of args ''name'' = Some name" using assms(3) by blast
  obtain m where "open_wallet W X (cw_db self) m" using opened [OF assms(2) True] by blast
  from del_account_keeps [OF assms(1) this, of name, where 'e = cmd_err] show ?thesis
    by (auto simp: delete_account_def check_unlocked_def True arg_value_def n intro: calm_intros)
qed (simp add: delete_account_def check_unlocked_def calm_intros)

lemma list_accounts_calm:
  assumes "wallet_libs W X" "wallet_repr W X (cw_db self) v"
  shows "calm (list_accounts W X self)"
  unfolding list_accounts_def
proof (rule calm_unlocked, intro calm_intros)
  assume "wd_state (cw_db self) = Unlocked"
  then obtain m where m: "open_wallet W X (cw_db self) m" using opened [OF assms(2)] by blast
  have "\<exists>accs. get_accounts W X (cw_db self) = (Inr accs :: cmd_err fail + _) \<and> (\<forall>n a. (n, a) \<in> set accs \<longleftrightarrow> m n = Some a)"
    by (rule wallet_book.listing_law [OF assms(1) m])
  then show "calm (get_accounts W X (cw_db self) :: cmd_err fail + _)" by (auto intro: calm_intros)
qed

text \<open>The commands that look up accounts of the open wallet.\<close>

lemma lookup_commands_calm:
  assumes "wallet_libs W X" "wallet_repr W X (cw_db self) v"
  shows "value_of args ''name'' \<noteq> None \<Longrightarrow> calm (print_account_command W X args self)"
    and "value_of args ''hex'' \<noteq> None \<Longrightarrow> values_of args ''account'' \<noteq> None \<Longrightarrow> calm (sign_tx W X args self)"
    and "value_of args ''expiry'' \<noteq> None \<Longrightarrow> value_of args ''from_account'' \<noteq> None \<Longrightarrow> value_of args ''call_fn'' \<noteq> None \<Longrightarrow>
      value_of args ''amount'' \<noteq> None \<Longrightarrow> value_of args ''fee'' \<noteq> None \<Longrightarrow> list_all sliceable (arg_text args ''from_account'') \<Longrightarrow>
      calm (build_transfer_tx W X env args self)"
    and "value_of args ''account'' \<noteq> None \<Longrightarrow> node_replies env \<Longrightarrow> list_all sliceable (arg_text args ''account'') \<Longrightarrow>
      calm (fst (get_acc_info W X env args self))"
proof -
  note op = opened [OF assms(2)]
  show "value_of args ''name'' \<noteq> None \<Longrightarrow> calm (print_account_command W X args self)"
    unfolding print_account_command_def
    by (rule calm_unlocked, drule op, elim exE, intro calm_intros calm_lookup [OF assms(1)]) assumption
  show "value_of args ''hex'' \<noteq> None \<Longrightarrow> values_of args ''account'' \<noteq> None \<Longrightarrow> calm (sign_tx W X args self)"
    unfolding sign_tx_def
    by (rule calm_unlocked, drule op, elim exE, intro calm_intros calm_sign [OF assms(1)]) assumption
  show "calm (build_transfer_tx W X env args self)"
    if "value_of args ''expiry'' \<noteq> None" "value_of args ''from_account'' \<noteq> None" "value_of args ''call_fn'' \<noteq> None"
      "value_of args ''amount'' \<noteq> None" "value_of args ''fee'' \<noteq> None" "list_all sliceable (arg_text args ''from_account'')"
    unfolding build_transfer_tx_def Let_def
    by (rule calm_unlocked, drule op, elim exE,
        intro calm_intros that(1-5) calm_resolve [OF assms(1)] arg_value_text [OF that(6)]) assumption+
  show "calm (fst (get_acc_info W X env args self))" if "value_of args ''account'' \<noteq> None" "node_replies env"
    "list_all sliceable (arg_text args ''account'')"
    unfolding get_acc_info_def
    by (rule requesting_calm [OF that(2)], rule calm_unlocked, drule op, elim exE,
        intro calm_intros that(1) calm_resolve [OF assms(1)] arg_value_text [OF that(3)]) assumption+
qed

lemma Account_create_default_calm: "calm (Account_create_default i p :: 'e fail + account)"
proof -
  have "\<exists>acc. Account_create_default i p = (Inr acc :: 'e fail + account)"
    by (simp add: Account_create_default_def FnBuilder_new_def FnBuilder_push_def Builder_push_def Builder_new_def build_def
        Let_def MAX_SCRIPT_BYTE_SIZE_def)
  then show ?thesis by (auto intro: calm_intros)
qed

lemma build_create_tx_calm:
  assumes "wallet_libs W X" "wallet_repr W X (cw_db self) v"
    and "value_of args ''expiry'' \<noteq> None" "value_of args ''fee'' \<noteq> None" "value_of args ''creator'' \<noteq> None"
      "value_of args ''balance'' \<noteq> None" "value_of args ''threshold'' \<noteq> None" "values_of args ''public_wif'' \<noteq> None"
    and "list_all sliceable (arg_text args ''creator'')" "list_all sliceable (arg_list args ''public_wif'')"
  shows "calm (build_create_tx W X env args self)"
  unfolding build_create_tx_def Let_def
  by (rule calm_unlocked, drule opened [OF assms(2)], elim exE,
      intro calm_intros assms(3-8,10) calm_resolve [OF assms(1)] arg_value_text [OF assms(9)] Account_create_default_calm) assumption+

lemma build_update_tx_calm:
  assumes "wallet_libs W X" "wallet_repr W X (cw_db self) v" "wd_state (cw_db self) = Unlocked"
    and "value_of args ''expiry'' \<noteq> None" "value_of args ''fee'' \<noteq> None" "value_of args ''account'' \<noteq> None"
      "value_of args ''threshold'' \<noteq> None \<Longrightarrow> values_of args ''public_wif'' \<noteq> None"
    and "list_all sliceable (arg_text args ''account'')" "list_all sliceable (arg_list args ''public_wif'')"
  shows "calm (build_update_tx W X env args self)"
proof -
  obtain m where m: "open_wallet W X (cw_db self) m" using opened [OF assms(2,3)] by blast
  have scr: "calm (case value_of args ''script'' of
      Some hex \<Rightarrow> and_then (hex_to_bytes W hex) (\<lambda>scr. Inr (Some scr)) | None \<Rightarrow> Inr None)"
    by (intro calm_intros)
  have perms: "calm (case value_of args ''threshold'' of
      Some s \<Rightarrow> and_then (parse_permissions X args s) (\<lambda>perms.
        if \<not> Permissions_is_valid perms then Inl (Err (ErrMsg ''Permissions threshold or key count is incorrect''))
        else Inr (Some perms))
    | None \<Rightarrow> Inr None)"
    using assms(7,9) by (auto split: option.split intro!: calm_intros)
  show ?thesis
    unfolding build_update_tx_def
    by (intro calm_intros assms(4-6) calm_resolve [OF assms(1) m] scr perms arg_value_text [OF assms(8)])
qed

lemma build_mint_tx_calm:
  assumes "node_replies env" "value_of args ''expiry'' \<noteq> None" "value_of args ''amount'' \<noteq> None"
    "value_of args ''attachment_path'' \<noteq> None \<Longrightarrow> value_of args ''attachment_name'' \<noteq> None"
  shows "calm (fst (build_mint_tx W X env args self))"
proof -
  have a: "calm (and_then (parse_expiry env args) (\<lambda>exp_at.
      and_then (parse_asset_arg X args ''amount'' ''Failed to parse asset'') (\<lambda>tokens. Inr (exp_at, tokens))))"
    by (intro calm_intros assms(2,3))
  obtain r sent self' where s: "send_rpc_req env ReqGetProperties self = (r, sent, self')"
    by (cases "send_rpc_req env ReqGetProperties self")
  have "calm (and_then r (mint_for W env args exp_at tokens))" for exp_at tokens
  proof (intro calm_intros)
    show "calm r" using send_rpc_req_calm [OF assms(1), of ReqGetProperties self] s by simp
    fix m
    assume "r = Inr m"
    then have "\<exists>bs cur. Msg_deserialize bs = Inr (m, cur)"
      using s by (auto simp: send_rpc_req_def split_beta Let_def split: prod.splits sum.splits dest!: arg_cong [where f = fst] await_reply_decoded)
    then show "calm (mint_for W env args exp_at tokens m)"
      using mint_for_calm assms(4) by blast
  qed
  then show ?thesis
    using a by (auto simp: build_mint_tx_def s calm_def split: sum.split)
qed

section \<open>Every line\<close>

text \<open>The commands that depend on their arguments alone.\<close>

lemma plain_commands_calm:
  "value_of args ''id'' \<noteq> None \<Longrightarrow> calm (account_id_to_address X args)"
  "values_of args ''arg'' \<noteq> None \<Longrightarrow> list_all sliceable (List.map_filter (strip_prefix ''address='') (arg_list args ''arg'')) \<Longrightarrow>
    calm (args_to_bin W X args)"
  "value_of args ''hex'' \<noteq> None \<Longrightarrow> calm (check_script_size W args)"
  "value_of args ''hex'' \<noteq> None \<Longrightarrow> calm (decode_tx W args)"
  "value_of args ''index'' \<noteq> None \<Longrightarrow> value_of args ''hex'' \<noteq> None \<Longrightarrow> calm (unsign_tx W args)"
  "ev_seed env \<noteq> replicate SEEDBYTES 0 \<Longrightarrow> calm (generate_keypair X env)"
proof -
  show "value_of args ''index'' \<noteq> None \<Longrightarrow> value_of args ''hex'' \<noteq> None \<Longrightarrow> calm (unsign_tx W args)"
    unfolding unsign_tx_def Let_def by (intro calm_intros)
  show "calm (args_to_bin W X args)"
    if "values_of args ''arg'' \<noteq> None" "list_all sliceable (List.map_filter (strip_prefix ''address='') (arg_list args ''arg''))"
    unfolding args_to_bin_def by (intro calm_intros that(1)) (use that(2) in \<open>simp add: args_of_list\<close>)
  show "ev_seed env \<noteq> replicate SEEDBYTES 0 \<Longrightarrow> calm (generate_keypair X env)"
    by (simp add: generate_keypair_def KeyPair_gen_def split_beta calm_intros)
qed (unfold account_id_to_address_def check_script_size_def decode_tx_def, intro calm_intros; assumption)+

lemma build_script_calm:
  assumes "values_of args ''ops'' \<noteq> None" "count_list (arg_list args ''ops'') ''OP_DEFINE'' \<le> 255"
    "list_all sliceable (op_addresses (arg_list args ''ops''))"
  shows "calm (build_script X args)"
  using build_text_calm [OF assms(2,3), of X] assms(1)
  by (auto simp: arg_list_def build_script_def args_of_def calm_def split: sum.splits fail.splits)

lemma request_commands_calm:
  assumes "node_replies env"
  shows "value_of args ''hex'' \<noteq> None \<Longrightarrow> calm (fst (broadcast_command W env args self))"
    and "value_of args ''height'' \<noteq> None \<Longrightarrow> calm (fst (get_block_command env args self))"
    and "calm (fst (get_properties_command env self))"
  unfolding broadcast_command_def get_block_command_def get_properties_command_def
  by (rule requesting_calm [OF assms], intro calm_intros; assumption)+

text \<open>
  What a line must avoid: an address or public key, in an argument the command reads as one, with a
  multibyte character across its third byte; a script of more functions than a script can have; and an
  account update while the wallet is not open.
\<close>

definition addresses :: "string \<Rightarrow> arg_matches \<Rightarrow> string list" where
  "addresses cmd args =
     (if cmd = ''import_account'' \<or> cmd = ''get_account_info'' then arg_text args ''account''
      else if cmd = ''build_create_account_tx'' then arg_text args ''creator'' @ arg_list args ''public_wif''
      else if cmd = ''build_update_account_tx'' then arg_text args ''account'' @ arg_list args ''public_wif''
      else if cmd = ''build_transfer_tx'' then arg_text args ''from_account''
      else if cmd = ''args_to_bin'' then List.map_filter (strip_prefix ''address='') (arg_list args ''arg'')
      else if cmd = ''build_script'' then op_addresses (arg_list args ''ops'')
      else [])"

definition careful :: "'db cli_wallet \<Rightarrow> string \<Rightarrow> arg_matches \<Rightarrow> bool" where
  "careful self cmd args \<longleftrightarrow> list_all sliceable (addresses cmd args) \<and>
     (cmd = ''build_script'' \<longrightarrow> count_list (arg_list args ''ops'') ''OP_DEFINE'' \<le> 255) \<and>
     (cmd = ''build_update_account_tx'' \<longrightarrow> wd_state (cw_db self) = Unlocked)"

lemma process_line_calm:
  assumes "session_libs W X" "wallet_repr W X (cw_db self) v" "node_replies env" "ev_seed env \<noteq> replicate SEEDBYTES 0"
    and "clap line_args = Inr (cmd, args)" "map_of cli_commands cmd = Some specs" "list_all (spec_met args) specs"
    and "careful self cmd args"
  shows "calm (snd (fst (process_line W X env clap line_args self)))"
proof -
  note libs = session_libs_wallet [OF assms(1)]
  have d: "derive_ok W" using assms(1) by (simp add: session_libs_def)
  note calm = create_wallet_calm [OF d] unlock_wallet_calm [OF assms(1,2)] import_account_calm [OF libs assms(2)]
    delete_account_calm [OF assms(1,2)] list_accounts_calm [OF libs assms(2)] lookup_commands_calm [OF libs assms(2)]
    build_create_tx_calm [OF libs assms(2)] build_update_tx_calm [OF libs assms(2)] build_mint_tx_calm [OF assms(3)]
    plain_commands_calm plain_commands_calm(6) [OF assms(4)] build_script_calm request_commands_calm [OF assms(3)]
  show ?thesis
    using map_of_SomeD [OF assms(6)] assms(7,8)
    unfolding cli_commands_def list.set insert_iff empty_iff prod.inject
    by (elim disjE conjE FalseE; hypsubst)
      (simp_all add: process_line_def assms(5) Let_def split_beta args_defs spec_met_def given_def careful_def addresses_def calm
        calm_intros(1) assms(3), auto intro!: build_update_tx_calm [OF libs assms(2)] build_mint_tx_calm [OF assms(3)])
qed

end
