(* ===== verification/Sample_Wallet.thy ===== *)
theory Sample_Wallet
  imports Wallet_Args Sample_Chain
begin

text \<open>
  A concrete environment for the wallet: texts of two letters a byte, a box that shows its key, a key
  derivation that pads, and a command line that takes the arguments of the table in order.  A session that creates, unlocks and fills a wallet is
  evaluated on it.
\<close>

section \<open>Libraries\<close>

definition letters :: "sample_db ext" where
  "letters = sample\<lparr>bs58_encode := nibbles, bs58_decode := of_nibbles\<rparr>"

definition sample_box :: wallet_ext where
  "sample_box = \<lparr>sb_seal = (\<lambda>m n k. k @ m), sb_open = (\<lambda>c n k. if take 32 c = k then Some (drop 32 c) else None),
     derive_key = (\<lambda>p s. Some (pad 32 (p @ s))), hex_string = nibbles, hex_decode = (\<lambda>s n. of_nibbles s)\<rparr>"

lemma ascii_utf8: "list_all (\<lambda>c. of_char c < (128 :: nat)) s \<Longrightarrow> utf8_valid (ascii s)"
proof (induction s)
  case (Cons c s)
  have "(of_char c :: u8) = of_nat (of_char c)" by (rule of_nat_of_char [symmetric])
  moreover have "(of_nat (of_char c) :: u8) \<le> 0x7F"
    using Cons.prems by (simp add: word_le_nat_alt unat_of_nat take_bit_nat_eq_self)
  ultimately show ?case using Cons by (simp add: ascii_def)
qed (simp add: ascii_def)

lemma letters_ok: "db_ok letters" "wif_libs letters" "sign_ok letters"
  using sample_ok of_nibbles_nibbles nibbles_ascii
  by (simp_all add: letters_def db_ok_def wif_libs_def sha256_ok_def bs58_ok_def sign_ok_def)

lemma sample_box_ok: "authentic sample_box" "derive_ok sample_box"
  by (simp_all add: authentic_def derive_ok_def sample_box_def KEYBYTES_def)

lemma letters_keys: "wf_key_pair letters k \<Longrightarrow> key_storable letters k"
proof -
  assume k: "wf_key_pair letters k"
  have len: "length (ascii s) = length s" for s by (simp add: ascii_def)
  have n: "bs58_encode letters = nibbles" by (simp add: letters_def)
  have "length (seed (kp_private k)) = 32" using k by (cases k) (simp add: wf_key_pair_def SEEDBYTES_def)
  then show ?thesis
    using k wif_libs_simps(1) [OF letters_ok(2)]
    by (simp add: key_storable_def PrivateKey_to_wif_def Let_def n nibbles_ascii ascii_utf8 wf_bytes_def len)
qed

lemma sample_session_libs: "session_libs sample_box letters"
  by (simp add: session_libs_def sample_box_ok letters_ok letters_keys)

section \<open>A session\<close>

definition table_args :: "arg_spec list \<Rightarrow> string list \<Rightarrow> arg_matches" where
  "table_args specs vals =
     \<lparr>value_of = map_of (zip (map as_name specs) vals), values_of = map_of (zip (map as_name specs) (map (\<lambda>v. [v]) vals))\<rparr>"

definition is_ascii :: "string \<Rightarrow> bool" where
  "is_ascii s \<longleftrightarrow> list_all (\<lambda>c. of_char c < (128 :: nat)) s"

definition sample_clap :: "string list \<Rightarrow> string + string \<times> arg_matches" where
  "sample_clap line_args =
     (if \<not> list_all is_ascii line_args then Inl ''not a text''
      else
        (case line_args of
           [] \<Rightarrow> Inl ''usage''
         | cmd # vals \<Rightarrow>
             (case map_of cli_commands cmd of
                None \<Rightarrow> Inl ''usage''
              | Some specs \<Rightarrow> if length vals = length specs then Inr (cmd, table_args specs vals) else Inl ''usage'')))"

definition sample_env :: "u8 \<Rightarrow> cmd_env" where
  "sample_env n = \<lparr>ev_salt = replicate 16 n, ev_gen_key = replicate 32 n, ev_nonce1 = replicate 24 n, ev_nonce2 = replicate 24 n,
     ev_seed = replicate 32 n, ev_tx_nonce = 1, ev_account_id = 9, ev_now = 1000, ev_file = (\<lambda>f. Inr []), ev_conn = Inr []\<rparr>"

definition sample_line :: "u8 \<Rightarrow> string \<Rightarrow> sample_db cli_wallet \<Rightarrow> sample_db cli_wallet" where
  "sample_line n typed self = snd (process_line sample_box letters (sample_env n) sample_clap (parse_line typed) self)"

definition sample_vault :: "u8 \<Rightarrow> string \<Rightarrow> vault \<Rightarrow> vault" where
  "sample_vault n typed v = vault_line sample_box letters (sample_env n) sample_clap (parse_line typed) v"

definition main_account :: wallet_account where
  "main_account = \<lparr>wa_id = 0, wa_keys = [keypair_of 1]\<rparr>"

definition import_line :: string where
  "import_line = ''import_account \"main wallet\" '' @ AccountId_to_wif letters 0 @ '' '' @
     PrivateKey_to_wif letters (kp_private (keypair_of 1))"

definition wallet1 :: "sample_db cli_wallet" where
  "wallet1 = sample_line 3 ''unlock pass'' (sample_line 2 ''unlock wrong'' (sample_line 1 ''new pass'' (Wallet_new letters [])))"

definition wallet2 :: "sample_db cli_wallet" where "wallet2 = sample_line 4 import_line wallet1"

lemma sample_clap_Inr:
  assumes "sample_clap line_args = Inr (cmd, args)"
  obtains vals specs where "line_args = cmd # vals" "list_all is_ascii vals" "map_of cli_commands cmd = Some specs"
    "length vals = length specs" "args = table_args specs vals"
  using assms by (auto simp: sample_clap_def split: if_splits list.splits option.splits)

lemma sample_clap_text:
  assumes "sample_clap line_args = Inr (cmd, args)"
  shows "text_args args"
proof -
  obtain vals specs where v: "list_all is_ascii vals" "args = table_args specs vals"
    using sample_clap_Inr [OF assms] by metis
  have "utf8_valid (ascii s)" if "value_of args n = Some s" for n s
  proof -
    have "s \<in> set vals" using that by (auto simp: v(2) table_args_def dest!: map_of_SomeD set_zip_rightD)
    then show ?thesis using v(1) by (auto simp: list_all_iff is_ascii_def intro: ascii_utf8)
  qed
  moreover have "length ss = 1" if "values_of args n = Some ss" for n ss
    using that by (auto simp: v(2) table_args_def dest!: map_of_SomeD set_zip_rightD)
  ultimately show ?thesis by (fastforce simp: text_args_def)
qed

text \<open>A value for every entry of the table is more than clap asks for.\<close>

lemma table_args_given:
  assumes "length vals = length specs" "n \<in> set (map as_name specs)"
  shows "given (table_args specs vals) n"
  using assms by (simp add: given_def table_args_def map_of_zip_is_None)

lemma cli_commands_closed:
  "list_all (\<lambda>(cmd, specs). list_all (\<lambda>s. case as_requires s of None \<Rightarrow> True | Some r \<Rightarrow> r \<in> set (map as_name specs)) specs) cli_commands"
  by (simp add: cli_commands_def args_defs)

lemma sample_clap_ok: "clap_ok sample_clap"
  unfolding clap_ok_def
proof (intro allI impI)
  fix line_args cmd args specs
  assume "sample_clap line_args = Inr (cmd, args)" and t: "map_of cli_commands cmd = Some specs"
  then obtain vals where v: "length vals = length specs" "args = table_args specs vals"
    by (auto elim: sample_clap_Inr)
  have "list_all (\<lambda>s. case as_requires s of None \<Rightarrow> True | Some r \<Rightarrow> r \<in> set (map as_name specs)) specs"
    using cli_commands_closed map_of_SomeD [OF t] by (auto simp: list_all_iff)
  then show "list_all (spec_met args) specs"
    using table_args_given [OF v(1)] by (auto simp: list_all_iff spec_met_def v(2) split: option.splits)
qed

lemma sample_lines:
  "parse_line ''new pass'' = [''new'', ''pass'']" "parse_line ''unlock wrong'' = [''unlock'', ''wrong'']"
  "parse_line ''unlock pass'' = [''unlock'', ''pass'']"
  "parse_line import_line = [''import_account'', ''main wallet'', AccountId_to_wif letters 0,
     PrivateKey_to_wif letters (kp_private (keypair_of 1))]"
  "is_ascii (AccountId_to_wif letters 0)" "is_ascii (PrivateKey_to_wif letters (kp_private (keypair_of 1)))"
  by code_simp+

lemma sample_clap_lines:
  "sample_clap (parse_line ''new pass'') = Inr (''new'', table_args args_new [''pass''])"
  "sample_clap (parse_line ''unlock wrong'') = Inr (''unlock'', table_args args_unlock [''wrong''])"
  "sample_clap (parse_line ''unlock pass'') = Inr (''unlock'', table_args args_unlock [''pass''])"
  "sample_clap (parse_line import_line) =
     Inr (''import_account'', table_args args_import_account [''main wallet'', AccountId_to_wif letters 0, PrivateKey_to_wif letters (kp_private (keypair_of 1))])"
  unfolding sample_lines(1-4) sample_clap_def using sample_lines(5,6) by (simp_all add: is_ascii_def cli_commands_def args_defs)

lemma import_line_args:
  "import_args letters (table_args args_import_account [''main wallet'', AccountId_to_wif letters 0, PrivateKey_to_wif letters (kp_private (keypair_of 1))]) =
     Some (''main wallet'', main_account)"
  by code_simp

definition vault1 :: vault where
  "vault1 = Vault True (replicate 16 1) (ascii ''pass'') Map.empty"

definition vault2 :: vault where
  "vault2 = Vault True (replicate 16 1) (ascii ''pass'') [''main wallet'' \<mapsto> main_account]"

lemma derived_differ:
  "derive_key sample_box (ascii ''wrong'') (replicate 16 1) \<noteq> derive_key sample_box (ascii ''pass'') (replicate 16 1)"
  by code_simp

lemma sample_vaults:
  "sample_vault 3 ''unlock pass'' (sample_vault 2 ''unlock wrong'' (sample_vault 1 ''new pass'' NoVault)) = vault1"
  "sample_vault 4 import_line vault1 = vault2"
proof -
  note lines = sample_vault_def vault_line_def sample_clap_lines [unfolded sample_lines(1-4)] sample_lines(1-4)
  show "sample_vault 3 ''unlock pass'' (sample_vault 2 ''unlock wrong'' (sample_vault 1 ''new pass'' NoVault)) = vault1"
    using derived_differ
    by (simp add: lines vault_new_def vault_unlock_def table_args_def args_defs vault1_def sample_env_def)
  show "sample_vault 4 import_line vault1 = vault2"
    by (simp add: lines vault1_def vault2_def vault_import_def import_line_args)
qed

text \<open>As long as the vault is empty, every draw is fresh.\<close>

definition empty_vault :: "vault \<Rightarrow> bool" where
  "empty_vault v \<longleftrightarrow> (case v of NoVault \<Rightarrow> True | Vault op salt pass m \<Rightarrow> m = Map.empty)"

lemma empty_vault_fresh:
  assumes "wallet_repr sample_box letters self v" "empty_vault v"
  shows "fresh_env letters (sample_env n) self"
proof -
  have "db_get letters (wd_db self) CF_ACCOUNTS k = None" for k
  proof (cases v)
    case NoVault
    then show ?thesis using assms(1) by (simp add: wallet_repr_def)
  next
    case (Vault op salt pass m)
    then obtain secret where "holds sample_box letters secret (wd_db self) Map.empty"
      using assms by (auto simp: wallet_repr_def empty_vault_def)
    then show ?thesis by (auto simp: holds_def)
  qed
  then show ?thesis by (simp add: fresh_env_def sample_env_def SALTBYTES_def KEYBYTES_def NONCEBYTES_def)
qed

lemma sample_session_line:
  assumes "session sample_box letters sample_clap self v" "empty_vault v"
  shows "session sample_box letters sample_clap (sample_line n typed self) (sample_vault n typed v)"
  unfolding sample_line_def sample_vault_def
  by (intro session.line assms(1) empty_vault_fresh [OF session_repr [OF assms(1) sample_session_libs] assms(2)])
    (rule sample_clap_text)

lemma empty_vault_kept:
  "empty_vault (sample_vault 1 ''new pass'' NoVault)"
  "empty_vault (sample_vault 2 ''unlock wrong'' (sample_vault 1 ''new pass'' NoVault))" "empty_vault vault1"
  by (simp_all add: sample_vault_def vault_line_def sample_clap_lines [unfolded sample_lines(1-4)] sample_lines(1-4) vault_new_def vault_unlock_def table_args_def args_defs
      vault1_def empty_vault_def)

lemma sample_session:
  "session sample_box letters sample_clap wallet1 vault1"
  "session sample_box letters sample_clap wallet2 vault2"
proof -
  have "session sample_box letters sample_clap (Wallet_new letters []) NoVault"
    by (rule session.start) (simp add: letters_def sample_def)
  moreover have "empty_vault NoVault" by (simp add: empty_vault_def)
  ultimately show s: "session sample_box letters sample_clap wallet1 vault1"
    unfolding wallet1_def sample_vaults(1) [symmetric] by (intro sample_session_line empty_vault_kept)
  show "session sample_box letters sample_clap wallet2 vault2"
    unfolding wallet2_def sample_vaults(2) [symmetric] by (rule sample_session_line [OF s empty_vault_kept(3)])
qed

end
