(* ===== verification/Wallet_Properties.thy ===== *)
theory Wallet_Properties
  imports Sample_Wallet
begin

text \<open>
  The properties of the wallet: sessions keep the vault, textual scripts compile to what they spell, and
  a signed transaction carries signatures the chain accepts, each with an instance on the sample session.
\<close>

section \<open>Signing\<close>

text \<open>The hexadecimal codec reads back what it writes.\<close>

definition hex_ok :: "wallet_ext \<Rightarrow> bool" where
  "hex_ok W \<longleftrightarrow> (\<forall>bs. hex_decode W (hex_string W bs) (length (hex_string W bs) div 2) = Some bs)"

lemma with_sigs_twice [simp]: "with_sigs (with_sigs t a) b = with_sigs t b"
  by (cases t) simp

lemma with_sigs_same: "with_sigs t (tx_sigs t) = t"
  by (cases t) simp

lemma TxVariant_sign_with_sigs: "TxVariant_sign X (with_sigs t sigs) = TxVariant_sign X t"
  by (simp add: TxVariant_sign_def fun_eq_iff)

lemma foldl_append_sign: "foldl (append_sign X) t ks = with_sigs t (tx_sigs t @ map (TxVariant_sign X t) ks)"
  by (induction ks arbitrary: t) (simp_all add: with_sigs_same append_sign_def TxVariant_sign_with_sigs)

lemma decode_hex_tx_own:
  assumes "hex_ok W" "wf_tx t"
  shows "decode_hex_tx W (hex_string W (TxVariant_serialize t)) = Inr t"
  using assms(1) tx_codec.roundtrip [OF assms(2), of "[]"]
  by (simp add: decode_hex_tx_def hex_to_bytes_def hex_ok_def)

text \<open>The keys of the named accounts, in order.\<close>

definition named_keys :: "(string \<Rightarrow> wallet_account option) \<Rightarrow> string list \<Rightarrow> key_pair list" where
  "named_keys m names = concat (map (\<lambda>n. wa_keys (the (m n))) names)"

lemma sign_with_accounts_open:
  assumes "wallet_libs W X" "open_wallet W X (cw_db self) m"
  shows "list_all (\<lambda>n. m n \<noteq> None) names \<Longrightarrow>
    sign_with_accounts W X self names t = Inr (with_sigs t (tx_sigs t @ map (TxVariant_sign X t) (named_keys m names)))"
proof (induction names arbitrary: t)
  case (Cons n names)
  have "Db_get_account W X n (cw_db self) = (Inr (m n) :: cmd_err fail + _)"
    by (rule wallet_book.lookup_law [OF assms])
  then show ?case
    using Cons by (auto simp: foldl_append_sign TxVariant_sign_with_sigs named_keys_def)
qed (simp add: named_keys_def with_sigs_same)

lemma signed_verifies:
  assumes "sign_ok X" "list_all (wf_key_pair X) ks"
  shows "list_all (\<lambda>s. SigPair_verify X s (txid_bytes (calc_txid X t))) (map (TxVariant_sign X t) ks)"
  using assms(2) by (induction ks) (simp_all add: TxVariant_sign_def KeyPair_sign_verifies [OF assms(1)])

text \<open>Enough wallet keys of the permissions satisfy them.\<close>

lemma signed_satisfies:
  assumes "sign_ok X" "list_all (wf_key_pair X) ks" "length ks < 256"
    and "unat (threshold p) \<le> length (filter (\<lambda>k. kp_public k \<in> set (keys p)) ks)"
  shows "Permissions_verify X p (txid_bytes (calc_txid X t)) (map (TxVariant_sign X t) ks) = Inr ()"
proof -
  let ?s = "map (TxVariant_sign X t) ks"
  have m: "matching p ?s = map (TxVariant_sign X t) (filter (\<lambda>k. kp_public k \<in> set (keys p)) ks)"
    by (simp add: matching_def filter_map comp_def TxVariant_sign_def KeyPair_sign_def)
  have "list_all (\<lambda>s. SigPair_verify X s (txid_bytes (calc_txid X t))) (matching p ?s)"
    using signed_verifies [OF assms(1,2), of t] by (auto simp: matching_def list_all_iff)
  moreover have "length (matching p ?s) \<le> length ?s" by (simp add: matching_def)
  moreover have "unat (threshold p) \<le> length (matching p ?s)" using assms(4) by (simp only: m length_map)
  ultimately show ?thesis
    using assms(3) by (simp add: Permissions_verify_eq Let_def) (metis le_0_eq le_trans length_0_conv not_less)
qed

text \<open>C16: Signing an unsigned transaction with accounts of the unlocked wallet prints the transaction with
  the same id and one signature of each of their keys, in order, and these satisfy every permissions
  that list enough of the keys.\<close>

theorem signing_satisfies:
  assumes "wallet_libs W X" "sign_ok X" "hex_ok W" "open_wallet W X (cw_db self) m"
    and "value_of args ''hex'' = Some (hex_string W (TxVariant_serialize t))" "values_of args ''account'' = Some names"
    and "wf_tx t" "tx_sigs t = []" "list_all (\<lambda>n. m n \<noteq> None) names"
    and "list_all (wf_key_pair X) (named_keys m names)" "length (named_keys m names) < 256"
    and "unat (threshold p) \<le> length (filter (\<lambda>k. kp_public k \<in> set (keys p)) (named_keys m names))"
  shows "\<exists>t'. sign_tx W X args self = Inr [OutHex (hex_string W (TxVariant_serialize t'))] \<and>
    calc_txid X t' = calc_txid X t \<and> tx_sigs t' = map (TxVariant_sign X t) (named_keys m names) \<and>
    Permissions_verify X p (txid_bytes (calc_txid X t')) (tx_sigs t') = Inr ()"
proof -
  let ?t = "with_sigs t (map (TxVariant_sign X t) (named_keys m names))"
  have "sign_tx W X args self = Inr [OutHex (hex_string W (TxVariant_serialize ?t))]"
    using assms(4) decode_hex_tx_own [OF assms(3,7)] sign_with_accounts_open [OF assms(1,4,9), of t]
    by (simp add: sign_tx_def check_unlocked_def open_wallet_def arg_value_def args_of_def assms(5,6,8) print_tx_def)
  then show ?thesis
    using signed_satisfies [OF assms(2,10-12), of t] by (intro exI [of _ ?t]) simp
qed

definition unsigned_transfer :: tx_variant where
  "unsigned_transfer = TxV0 (TransferTx \<lparr>tr_base = \<lparr>nonce = 4, expiry = 3000, fee = Asset 125, signature_pairs = []\<rparr>, tr_from = 0,
     call_fn = 1, tr_args = [], tr_amount = Asset 200000, memo = []\<rparr>)"

definition signing_args :: arg_matches where
  "signing_args = \<lparr>value_of = [''hex'' \<mapsto> nibbles (TxVariant_serialize unsigned_transfer)], values_of = [''account'' \<mapsto> [''main wallet'']]\<rparr>"

definition one_key :: permissions where
  "one_key = \<lparr>threshold = 1, keys = [PublicKey (replicate 32 7), PublicKey (replicate 32 1)]\<rparr>"

lemma wallet2_open: "open_wallet sample_box letters (cw_db wallet2) [''main wallet'' \<mapsto> main_account]"
  by (rule open_wallet_repr [OF session_repr [OF sample_session(2) sample_session_libs, unfolded vault2_def]])
    (rule sample_clap_text)

theorem signing_satisfies_witness:
  "\<exists>t'. sign_tx sample_box letters signing_args wallet2 = Inr [OutHex (hex_string sample_box (TxVariant_serialize t'))] \<and>
    calc_txid letters t' = calc_txid letters unsigned_transfer \<and>
    tx_sigs t' = map (TxVariant_sign letters unsigned_transfer) (named_keys [''main wallet'' \<mapsto> main_account] [''main wallet'']) \<and>
    Permissions_verify letters one_key (txid_bytes (calc_txid letters t')) (tx_sigs t') = Inr ()"
proof (rule signing_satisfies [OF session_libs_wallet [OF sample_session_libs] letters_ok(3) _ wallet2_open])
  show "hex_ok sample_box" by (simp add: hex_ok_def sample_box_def of_nibbles_nibbles)
  show "list_all (wf_key_pair letters) (named_keys [''main wallet'' \<mapsto> main_account] [''main wallet''])"
    by (simp add: named_keys_def main_account_def wf_key_pair_def keypair_of_def letters_def sample_def SEEDBYTES_def
        flip: replicate_add)
qed (simp_all add: signing_args_def sample_box_def unsigned_transfer_def one_key_def named_keys_def main_account_def keypair_of_def
    wf_body_def wf_sigs_def wf_bytes_def)

section \<open>Sessions\<close>

text \<open>C14: However a user types lines and restarts the wallet, its database is in step with a vault of a
  password and named accounts: new creates it, a password unlocks it exactly when it derives the key of
  the one set, imports of unused names and addresses and deletions change the accounts, and while it is
  unlocked every name finds the account of the vault.\<close>

theorem wallet_session:
  assumes "session W X clap self v" "session_libs W X"
    and "\<And>line_args cmd args. clap line_args = Inr (cmd, args) \<Longrightarrow> text_args args"
  shows "case v of
      NoVault \<Rightarrow> wd_state (cw_db self) = New
    | Vault True salt pass m \<Rightarrow> wd_state (cw_db self) = Unlocked \<and>
        (\<forall>name. Db_get_account W X name (cw_db self) = (Inr (m name) :: cmd_err fail + _))
    | Vault False salt pass m \<Rightarrow> wd_state (cw_db self) = Locked \<and>
        (\<forall>pass'. \<exists>self'. Db_unlock W X pass' (cw_db self) =
          (Inr (derive_key W pass' salt = derive_key W pass salt, self') :: cmd_err fail + _))"
  using assms by (rule session_sees)

theorem wallet_session_witness:
  "wd_state (cw_db wallet2) = Unlocked \<and>
   Db_get_account sample_box letters ''main wallet'' (cw_db wallet2) = (Inr (Some main_account) :: cmd_err fail + _) \<and>
   Db_get_account sample_box letters ''main'' (cw_db wallet2) = (Inr None :: cmd_err fail + _)"
  using wallet_session [OF sample_session(2) sample_session_libs sample_clap_text]
  by (simp add: vault2_def)

section \<open>Panics\<close>





section \<open>Scripts\<close>

text \<open>C39: The text of at most 255 functions whose amounts are printable compiles to a script in which the
  pointer of function number i leads to the encoding of its operations, or is refused with the exact
  size when that exceeds 2048 bytes.\<close>

theorem script_text_compiles:
  assumes "wif_libs X" "list_all (list_all (printable X)) fns" "length fns \<le> 255"
  shows "if script_size fns > 2048 then build_text X (concat (map (fn_text X) fns)) = Inl (Err (ScriptSizeOverflow (script_size fns)))
    else \<exists>scr. build_text X (concat (map (fn_text X) fns)) = Inr scr \<and> length scr = script_size fns \<and>
      (\<forall>i < length fns. \<exists>ptr. get_fn_ptr scr (of_nat i) = Inr (Some ptr) \<and>
        take (2 + length (code_of (fns ! i))) (drop (unat ptr) scr) =
          [operand_byte operand.OpDefine, 0] @ code_of (fns ! i))"
  using assms by (rule build_text_compiles)

theorem script_text_compiles_witness:
  "\<exists>scr. build_text letters [''OP_DEFINE'', ''OP_CHECKTIME'', ''77'', ''OP_IF'', ''OP_DEFINE'', ''OP_ABORT''] = Inr scr \<and>
     length scr = 26 \<and> (\<exists>ptr. get_fn_ptr scr 1 = Inr (Some ptr) \<and> take 3 (drop (unat ptr) scr) = [0, 0, operand_byte operand.OpAbort])"
proof -
  let ?fns = "[[OpCheckTime 77, OpIf], [OpAbort]]"
  have "list_all (list_all (printable letters)) ?fns" "length ?fns \<le> 255" by simp_all
  note c = script_text_compiles [OF letters_ok(2) this]
  have t: "concat (map (fn_text letters) ?fns) =
      [''OP_DEFINE'', ''OP_CHECKTIME'', ''77'', ''OP_IF'', ''OP_DEFINE'', ''OP_ABORT'']" by code_simp
  have s: "script_size ?fns = 26" "code_of (?fns ! 1) = [operand_byte operand.OpAbort]" by code_simp+
  have n: "\<not> (26 :: nat) > 2048" by simp
  from c [unfolded t s(1) if_not_P [OF n]] obtain scr where scr:
    "build_text letters [''OP_DEFINE'', ''OP_CHECKTIME'', ''77'', ''OP_IF'', ''OP_DEFINE'', ''OP_ABORT''] = Inr scr" "length scr = 26"
    "\<forall>i < length ?fns. \<exists>ptr. get_fn_ptr scr (of_nat i) = Inr (Some ptr) \<and>
      take (2 + length (code_of (?fns ! i))) (drop (unat ptr) scr) = [operand_byte operand.OpDefine, 0] @ code_of (?fns ! i)"
    by (elim exE conjE)
  from spec [OF scr(3), of 1] have "\<exists>ptr. get_fn_ptr scr 1 = Inr (Some ptr) \<and> take 3 (drop (unat ptr) scr) = [0, 0, operand_byte operand.OpAbort]"
    by (simp add: s(2) [simplified])
  with scr(1,2) show ?thesis by (intro exI [of _ scr] conjI)
qed

end
