(* ===== verification/Cli_Main.thy ===== *)
theory Cli_Main
  imports Wallet_Session Wallet_Args Files
begin

text \<open>
  The entry point of the command line client, \<open>main.rs\<close> of the crate \<open>cli\<close>, and \<open>Wallet::new\<close> of
  \<open>wallet/mod.rs\<close> with the address of the node.  The \<open>url\<close> crate is a parameter: parsing, the parts of a
  URL, and setting its port.  The connection behind \<open>send_rpc_req\<close> of \<open>cmd/util.rs\<close> is opened with its parts.
\<close>

section \<open>The address of the node\<close>

record 'url url_libs =
  url_parse :: "string \<Rightarrow> 'url option"
  url_host :: "'url \<Rightarrow> string option"
  url_port :: "'url \<Rightarrow> u16 option"
  url_set_port :: "u16 \<Rightarrow> 'url \<Rightarrow> 'url option"
  url_scheme :: "'url \<Rightarrow> string"

text \<open>A URL without a port gets the default one; anything but a web socket to a host panics.\<close>

definition node_url :: "'url url_libs \<Rightarrow> string \<Rightarrow> 'e fail + 'url" where
  "node_url U s =
     and_then (unwrap (url_parse U s)) (\<lambda>url.
       if url_host U url = None then Inl Panic
       else
         and_then (if url_port U url = None then unwrap (url_set_port U 7777 url) else Inr url) (\<lambda>url.
           if url_scheme U url = ''ws'' \<or> url_scheme U url = ''wss'' then Inr url else Inl Panic))"

section \<open>Connecting to the node\<close>

text \<open>Name resolution, sockets, TLS and the handshake are parameters; an opened connection is the sequence of
  messages it delivers.\<close>

datatype 'a socket_addr = SocketV4 'a | SocketV6 'a

record ('url, 'a, 's) conn_libs =
  to_socket_addrs :: "string \<Rightarrow> u16 \<Rightarrow> 'a socket_addr list option"
  connect_timeout :: "'a \<Rightarrow> string + 's"
  tls_connect :: "string \<Rightarrow> 's \<Rightarrow> 's option"
  ws_handshake :: "'url \<Rightarrow> 's \<Rightarrow> string + ws_incoming list"

fun first_v4 :: "'a socket_addr list \<Rightarrow> 'a option" where
  "first_v4 [] = None"
| "first_v4 (SocketV4 addr # _) = Some addr"
| "first_v4 (SocketV6 _ # addrs) = first_v4 addrs"

definition connect_node :: "'url url_libs \<Rightarrow> ('url, 'a, 's) conn_libs \<Rightarrow> 'url \<Rightarrow> cmd_err fail + ws_incoming list" where
  "connect_node U N url =
     and_then (unwrap (url_host U url)) (\<lambda>host.
     and_then (unwrap (url_port U url)) (\<lambda>port.
     and_then (unwrap (to_socket_addrs N host port)) (\<lambda>addrs.
     and_then (ok_or (first_v4 addrs) (Err (ErrMsg ''No resolved IPv4 addresses found from host''))) (\<lambda>addr.
     and_then (map_err (\<lambda>e. Err (ErrText ''Failed to connect to host: '' e)) (connect_timeout N addr)) (\<lambda>stream.
     and_then (if url_scheme U url = ''ws'' then Inr stream
               else if url_scheme U url = ''wss'' then unwrap (tls_connect N host stream)
               else Inl Panic) (\<lambda>stream.
       map_err (\<lambda>e. Err (ErrText ''Failed to init ws socket: '' e)) (ws_handshake N url stream)))))))"

text \<open>Setting the port of a URL sets nothing else.\<close>

definition url_ok :: "'url url_libs \<Rightarrow> bool" where
  "url_ok U \<longleftrightarrow> (\<forall>p url url'. url_set_port U p url = Some url' \<longrightarrow>
     url_host U url' = url_host U url \<and> url_scheme U url' = url_scheme U url \<and> url_port U url' = Some p)"

lemma node_url_Inr:
  assumes "node_url U s = (Inr url :: 'e fail + _)" "url_ok U"
  obtains host port where "url_host U url = Some host" "url_port U url = Some port"
    "url_scheme U url = ''ws'' \<or> url_scheme U url = ''wss''"
  using assms by (fastforce simp: node_url_def url_ok_def fallible_iffs split: if_splits)

lemma calm_unwrap: "v \<noteq> None \<Longrightarrow> calm (unwrap v)"
  by (cases v) (simp_all add: calm_def)

text \<open>For an address the wallet accepted, connecting panics only when the host does not resolve or TLS fails: it
  is an error or a connection, as the environment of the commands has it.\<close>

lemma connect_node_env:
  assumes "node_url U s = (Inr url :: 'e fail + _)" "url_ok U"
    and "\<And>host port. to_socket_addrs N host port \<noteq> None" "\<And>host stream. tls_connect N host stream \<noteq> None"
  obtains conn where "connect_node U N url = map_err Err conn"
proof -
  obtain host port where u: "url_host U url = Some host" "url_port U url = Some port"
    "url_scheme U url = ''ws'' \<or> url_scheme U url = ''wss''"
    by (rule node_url_Inr [OF assms(1,2)])
  have "calm (connect_node U N url)"
    unfolding connect_node_def u(1,2) using u(3) by (auto intro!: calm_intros calm_unwrap assms(3,4))
  then show ?thesis
    using that [of "case connect_node U N url of Inl (Err e) \<Rightarrow> Inl e | Inr ms \<Rightarrow> Inr ms"]
    by (auto simp: calm_def map_err_def split: sum.splits fail.splits)
qed

section \<open>Opening the wallet\<close>

record ('db, 'url) opened =
  op_files :: "'db files"
  op_home :: path
  op_url :: 'url
  op_wallet :: "'db cli_wallet"

text \<open>\<open>blank\<close> is the content of a database that was just created.\<close>

definition enter_wallet ::
  "'db ext \<Rightarrow> 'url url_libs \<Rightarrow> 'db \<Rightarrow> path option \<Rightarrow> path option \<Rightarrow> string \<Rightarrow> 'db files \<Rightarrow> 'e fail + ('db, 'url) opened" where
  "enter_wallet X U blank godcoin_home data_local_dir url fs =
     and_then (home_default godcoin_home data_local_dir) (\<lambda>home.
     and_then (ensure_home fs home) (\<lambda>fs.
     and_then (open_db blank fs (path_join home ''wallet_db'')) (\<lambda>db.
     and_then (node_url U url) (\<lambda>url.
       Inr \<lparr>op_files = fs(path_join home ''wallet_db'' \<mapsto> DbDir db), op_home = home, op_url = url,
            op_wallet = Wallet_new X db\<rparr>))))"

text \<open>What clap matched; the URL of the node has a default, and no subcommand prints the help before.\<close>

datatype cli_matches = MatchedKeygen | MatchedWallet "string option" | MatchedNothing

datatype 'db cli_end = CliPrinted "cmd_out list" | CliWallet "'db repl" | CliExit int

definition cli_main ::
  "wallet_ext \<Rightarrow> 'db ext \<Rightarrow> 'url url_libs \<Rightarrow> 'db \<Rightarrow> (string list \<Rightarrow> string + string \<times> arg_matches) \<Rightarrow>
    path option \<Rightarrow> path option \<Rightarrow> cmd_env \<Rightarrow> (cmd_env \<times> readline) list \<Rightarrow> cli_matches \<Rightarrow> 'db files \<Rightarrow>
    cmd_err fail + 'db cli_end" where
  "cli_main W X U blank clap godcoin_home data_local_dir env inputs matches fs =
     (case matches of
        MatchedKeygen \<Rightarrow> and_then (generate_keypair X env) (\<lambda>out. Inr (CliPrinted out))
      | MatchedWallet url \<Rightarrow>
          and_then (enter_wallet X U blank godcoin_home data_local_dir
              (case url of Some u \<Rightarrow> u | None \<Rightarrow> ''ws://localhost:7777'') fs) (\<lambda>w.
            Inr (CliWallet (Wallet_start W X clap inputs
              \<lparr>rp_wallet = op_wallet w, rp_history = [], rp_printed = []\<rparr>)))
      | MatchedNothing \<Rightarrow> Inr (CliExit 1))"

section \<open>Opening the wallet again\<close>

text \<open>The database a session left is found under the same home, and the node at the same address.\<close>

lemma enter_wallet_again:
  assumes "enter_wallet X U blank godcoin_home data_local_dir url fs = (Inr w :: 'e fail + _)"
    and "fs' = (op_files w)(path_join (op_home w) ''wallet_db'' \<mapsto> DbDir db)"
  shows "enter_wallet X U blank' godcoin_home data_local_dir url fs' =
    (Inr \<lparr>op_files = fs', op_home = op_home w, op_url = op_url w, op_wallet = Wallet_new X db\<rparr> :: 'e fail + _)"
proof -
  have "path_join h ''wallet_db'' \<noteq> h" "h \<noteq> path_join h ''wallet_db''" for h by (simp_all add: path_join_def)
  moreover obtain h fs1 where o: "home_default godcoin_home data_local_dir = (Inr h :: 'e fail + _)"
      "ensure_home fs h = (Inr fs1 :: 'e fail + _)" "node_url U url = (Inr (op_url w) :: 'e fail + _)" "op_home w = h"
      "is_dir (op_files w) h = is_dir fs1 h"
    using assms(1) by (auto simp: enter_wallet_def fallible_iffs is_dir_def path_join_def)
  moreover have "is_dir fs1 h" using ensure_home_Inr [OF o(2)] by (auto simp: is_dir_def)
  ultimately show ?thesis
    by (simp add: enter_wallet_def assms(2) ensure_home_def open_db_def is_dir_def)
qed

end
