(* ===== verification/Spec2Isabelle.thy ===== *)
theory Spec2Isabelle
  imports Data_Properties Chain_Properties Script_Properties Server_Properties Log_Properties Wallet_Properties Cli_Main
begin

text \<open>
  A verification library for GODcoin: the chain of the crate \<open>godcoin\<close> (\<open>src/crates/godcoin/src\<close>), the
  node of the crate \<open>server\<close> (\<open>src/crates/server/src/server\<close>) and the command line wallet of the crate
  \<open>cli\<close> (\<open>src/crates/cli/src\<close>).

  \<^bold>\<open>The program.\<close>  Accounts hold an amount, permissions (a threshold of signatures over a set of keys) and a
  script.  Five kinds of transaction create and update accounts, mint, transfer under the sender's script
  and name the owner of the chain.  A minter executes each transaction against the chain and the receipts
  still pending, keeps the receipt in a pool, and turns the pool into a signed block at intervals.  A block
  is appended to a log on disk and indexed: one write batch moves balances, supply, owner and the chain
  height.  The server answers clients over web sockets, sends them blocks, filtered to the accounts they
  ask for, and pushes new blocks to subscribers.  The wallet keeps keys in an encrypted database, builds
  and signs transactions and sends requests to a node.

  \<^bold>\<open>Theories and sources.\<close>  Each theory stands on the ones before it.

  \<^item> \<^theory_text>\<open>Prelude\<close>: machine integers, big-endian bytes, results with panics, the locales of encoders
    (\<open>opt_codec\<close>, \<open>io_codec\<close> for what an encoder and a decoder owe each other, \<open>opt_parser\<close>, \<open>io_parser\<close>
    with what a decoder returns), and the external libraries as one record of functions, \<open>ext\<close>.
    \<^theory_text>\<open>Rust_Text\<close>: the text operations of Rust's standard library, with the slices that panic inside a
    multibyte character.
  \<^item> \<^theory_text>\<open>Crypto\<close> (\<open>crypto/mod.rs\<close>, \<open>key.rs\<close>, \<open>sigpair.rs\<close>), \<^theory_text>\<open>Assets\<close> and \<^theory_text>\<open>Asset_Text\<close> (\<open>asset/\<close>),
    both symbols of the asset, \<open>testnet\<close> choosing one; \<^theory_text>\<open>Serializer\<close> (\<open>serializer.rs\<close>), \<^theory_text>\<open>Wif\<close> (\<open>crypto/wif.rs\<close>, with a locale of checksummed texts).
  \<^item> \<^theory_text>\<open>Script_Ops\<close> (\<open>script/op.rs\<close>, \<open>stack.rs\<close>, \<open>builder.rs\<close>, \<open>mod.rs\<close>, \<open>error.rs\<close>), \<^theory_text>\<open>Script_Decode\<close> and
    \<^theory_text>\<open>Engine\<close> (\<open>script/engine.rs\<close>); \<^theory_text>\<open>Default_Script\<close>, \<^theory_text>\<open>Branches\<close> and \<^theory_text>\<open>Script_Steps\<close> prove facts of the
    engine: the script of a default account, skipping a branch, and its loop as a step relation.
  \<^item> \<^theory_text>\<open>Accounts\<close> (\<open>account.rs\<close>), \<^theory_text>\<open>Transactions\<close> (\<open>tx/mod.rs\<close>), \<^theory_text>\<open>Blocks\<close> (\<open>blockchain/block.rs\<close>,
    \<open>receipt.rs\<close>, \<open>error.rs\<close>).
  \<^item> \<^theory_text>\<open>Indexes\<close> (\<open>blockchain/index.rs\<close>), \<^theory_text>\<open>Store\<close> (\<open>blockchain/store.rs\<close>), \<^theory_text>\<open>Chain_View\<close>, \<^theory_text>\<open>Execute\<close> and
    \<^theory_text>\<open>Chain\<close> (\<open>blockchain/mod.rs\<close>: reading, executing, writing); \<^theory_text>\<open>Execute_Spec\<close>, \<^theory_text>\<open>Pending\<close>, \<^theory_text>\<open>Supply\<close>,
    \<^theory_text>\<open>Chain_Steps\<close>, \<^theory_text>\<open>Same_Reads\<close>, \<^theory_text>\<open>Reopen\<close> prove facts of them.
  \<^item> \<^theory_text>\<open>Pool\<close> (the receipt pool of \<open>receipt.rs\<close>, \<open>minter.rs\<close>), \<^theory_text>\<open>Node\<close> (the node as a step relation),
    \<^theory_text>\<open>Replay\<close> (the same with a clock), \<^theory_text>\<open>Rebuild\<close> (the index rebuilt from the log),
    \<^theory_text>\<open>Startup\<close> (\<open>lib.rs\<close>: starting, and starting again), \<^theory_text>\<open>Files\<close> and \<^theory_text>\<open>Launch\<close> (\<open>bin/server/main.rs\<close>: the
    home directory, the configuration and the flags, over a map from paths to files).  \<^theory_text>\<open>Solvency\<close> proves that
    what a node accepts is covered by the balances it takes from.
  \<^item> \<^theory_text>\<open>Net_Msg\<close> (\<open>net/\<close>), \<^theory_text>\<open>Server\<close> (\<open>client/\<close>, \<open>pool.rs\<close>), \<^theory_text>\<open>Readable\<close> (a running server
    reads its own index), \<^theory_text>\<open>Answers\<close> (what a client is told, request by request),
    \<^theory_text>\<open>Block_Bounds\<close> (what arrives over the network fits the blocks made of it).
  \<^item> \<^theory_text>\<open>Wallet_Text\<close> (\<open>wallet/parser.rs\<close>, \<open>script_builder.rs\<close>), \<^theory_text>\<open>Wallet_Db\<close> (\<open>wallet/db/\<close>), \<^theory_text>\<open>Wallet_Cmd\<close>
    (\<open>wallet/mod.rs\<close>, \<open>wallet/cmd/\<close>, \<open>keypair.rs\<close>), \<^theory_text>\<open>Wallet_Session\<close> (sessions against a vault),
    \<^theory_text>\<open>Wallet_Args\<close> (the table of subcommands, and lines without a panic), \<^theory_text>\<open>Cli_Main\<close> (\<open>cli/src/main.rs\<close>, the
    address of the node in \<open>wallet/mod.rs\<close> and the connection to it in \<open>cmd/util.rs\<close>).
  \<^item> \<^theory_text>\<open>Sample\<close>, \<^theory_text>\<open>Sample_Chain\<close>, \<^theory_text>\<open>Sample_Pending\<close>, \<^theory_text>\<open>Sample_Start\<close>, \<^theory_text>\<open>Sample_Mint\<close>,
    \<^theory_text>\<open>Sample_Wallet\<close>: concrete libraries and a short run of the
    node and of the wallet, on which the properties are instantiated.  \<^theory_text>\<open>Data_Properties\<close>,
    \<^theory_text>\<open>Chain_Properties\<close>, \<^theory_text>\<open>Script_Properties\<close>, \<^theory_text>\<open>Server_Properties\<close>, \<^theory_text>\<open>Log_Properties\<close> and
    \<^theory_text>\<open>Wallet_Properties\<close> state the properties, each numbered and with its instance.
\<close>

text \<open>
  \<^bold>\<open>How the code is modelled.\<close>  A struct is a record with the fields of the source behind a short prefix,
  an enum a datatype with the constructors of the source; a name that HOL already uses gets a suffix or the
  name of its type as a prefix.  A method takes the state as its last argument and returns it updated.  An
  error is \<open>Inl\<close>; where the code can panic (\<open>unwrap\<close>, \<open>expect\<close>, \<open>assert\<close>, an index out of range) the error
  side distinguishes \<open>Panic\<close>.  Unchecked arithmetic wraps as in a release build; the checked operations
  return an option.  A writer is the list of bytes it appends and a reader the list of bytes left.

  What lies outside the repository is a parameter: SHA-256, Ed25519, Base58, CRC32C, big integers and RocksDB
  are the functions of the record \<open>ext\<close>, secretbox, Argon2id and the hexadecimal codec those of
  \<open>wallet_ext\<close>; the parsers of TOML and of socket addresses are in \<open>server_libs\<close>, the \<open>url\<close> crate in
  \<open>url_libs\<close>, sockets and handshakes of the wallet in \<open>conn_libs\<close>.  Properties that rest on their documented behaviour name it (\<open>db_ok\<close>: what is read after a
  write; \<open>sign_ok\<close>: own signatures verify; \<open>wif_libs\<close>: Base58 decodes its encodings, which are ASCII, and
  SHA-256 has 32 bytes; \<open>bigint_ok\<close>; \<open>authentic\<close>: a box opens under its own key alone; \<open>derive_ok\<close>;
  \<open>clap_ok\<close>: clap hands a subcommand the arguments its table requires).  No property assumes
  that hashes do not collide.  Random draws and the clock are arguments of the operations that read them.

  The database is any type with the three operations of \<open>ext\<close>, a write batch the list of its operations;
  the block log is a byte list with the positions of its records.  A mutex guards each step of the program,
  so an operation is one step; tasks that run beside each other are interleaved steps of \<open>node_step\<close>,
  \<open>clocked\<close>, \<open>net_step\<close> and \<open>session\<close>.

  \<^bold>\<open>Loops.\<close>  No definition needs fuel.  The engine's loop terminates because each operation moves the position
  within the script, which \<^theory_text>\<open>Script_Steps\<close> also states as a bound on its steps; a block range ends because
  its lower bound rises; the fee walks back over at least one height a round; the builder of scripts consumes
  its words.  The sending of a range by the server is a \<open>partial_function\<close>, whose end is a property.

  \<^bold>\<open>What the lemmas show.\<close>
  \<^item> Data: the locales of encoders are interpreted for every encoded type, from bytes to messages; the
    round trips of transactions, blocks, messages, addresses and amounts follow from them.  Amounts are
    compared with integer arithmetic, operation by operation.
  \<^item> Scripts: what leaves an evaluation adds up to what came in, whatever the script does; it stops, and it
    panics only through a bad entry pointer; the builder, in bytes and in text, and the decoder agree.
  \<^item> Chain: \<open>store_repr\<close> and \<open>chain_repr\<close> tie the bytes of log and index to the list of blocks stored, every
    insertion is the append of one block, and \<^theory_text>\<open>Supply\<close> reads the write batch as a ledger (a locale) whose
    total moves with each credit and debit.  \<open>node_ok\<close> is the invariant of a node: chain, pool and supply.
    A block made by the owner's minter passes the chain's own verification; where its production still fails
    (fees that do not add up, receipts that cannot be indexed) is stated beside it.
  \<^item> Transactions: which of them \<open>execute_tx\<close> accepts, stated in integers over the state the chain shows.
  \<^item> Solvency: \<open>solvent\<close> says that no balance of the index is negative and that the logs of the pool only pay.
    Each receipt of a block was verified against the ones in front of it, and the balance shown over them is at
    most the one their indexing leaves, so what it takes is there.  The supply is the sum of all balances, which
    bounds each from above.
  \<^item> Log: reopening and rebuilding give the same chain, so a node can be stopped and launched
    again on the files it left.
  \<^item> Server: which clients are subscribed; that each of the ten requests is answered once, with what, and where the
    handler panics instead; what the task of a range sends; and that the receipts pooled from the network are well-formed, so that the blocks made of them are read back from their bytes.
  \<^item> Wallet: the database holds a map of names to accounts (the locale \<open>account_book\<close>), and a session
    refines a vault.  With the arguments its table of subcommands declares, no line makes it panic,
    apart from three cases the property names.

  \<^bold>\<open>Bounds.\<close>  Properties carry the bounds of the code's own fields where a value must fit its encoding
  (\<open>wf_tx\<close>, \<open>wf_block\<close>, \<open>wf_msg\<close>: 255 signatures, 65535 log entries, 32-bit lengths, scripts of 2048 bytes),
  and the room a log of fewer than \<open>2 ^ 64\<close> bytes has for one more block.

  \<^bold>\<open>Not modelled.\<close>  The listening sockets of the server, the body of its metrics service and the counters
  behind it (no operation reads them), its runtime and the signal that ends it; the words clap matches, beyond the
  table of subcommands of the wallet; terminal and socket input and output, log messages, help texts, and the
  texts of \<open>Debug\<close> and \<open>Display\<close>: they call libraries and keep no state of the program.  Errors of the
  file system other than a missing or misplaced file and the end of one, zeroing of memory and the locks are left
  out, and a web socket is the sequence of messages it delivers.
\<close>

end
